(* ===== verification/Go_Prelude.thy ===== *)
theory Go_Prelude
  imports Complex_Main "HOL-Library.Word" "HOL-Library.Sublist"
begin

text \<open>
  The shared base of the development: the machine types of Go, the parts of the standard
  library that several programs of the repository use (\<open>strings.Split\<close>,
  \<open>strings.ToLower\<close>, \<open>strings.Contains\<close>, checked indexing, \<open>time.Duration\<close>, float64 arithmetic as a
  record of operations), buffered channels, and the generic transition system whose
  reachable states every component's invariant is stated over.

  Conventions.
  \<^item> Unsigned Go integers are words of their width, so \<open>+\<close> and \<open>-\<close> wrap as in Go.
    Go's \<open>int\<close> is \<open>int\<close> (or \<open>nat\<close> for a length or an index) where no value the
    program can build comes near its 64-bit limits.
  \<^item> Strings are lists of bytes (\<open>char list\<close>).
  \<^item> A call that can fail returns \<open>error + value\<close>. An index out of range is the
    value \<open>None\<close> of \<open>go_index\<close>, never an unspecified element.
  \<^item> A float64 is a value of an arbitrary type \<open>'f\<close> with its operations given as a
    record: the lemmas hold for every implementation of the operations, IEEE doubles
    included, because they use no law of real arithmetic.
  \<^item> A function that runs under a mutex is one atomic step.
\<close>

section \<open>Machine types\<close>

type_synonym byte = "8 word"
type_synonym uint16 = "16 word"
type_synonym uint32 = "32 word"
type_synonym uint64 = "64 word"

text \<open>Facts on Go's checked indexing and on channels are collected for the component proofs.\<close>

named_theorems go_simps \<open>unfolding rules for the shared Go operations\<close>

section \<open>Words\<close>

lemma unat_max_uint64 [simp]: "unat (- 1 :: uint64) = 18446744073709551615"
  by (simp add: unat_eq_nat_uint unsigned_minus_1_eq_mask mask_eq_exp_minus_1)

lemma unat_less64: "unat (w :: uint64) < 2 ^ 64"
  using unsigned_less [of w] by simp

lemma unat_of_nat_small64: "n < 2 ^ 64 \<Longrightarrow> unat (of_nat n :: uint64) = n"
  by (simp add: unat_of_nat take_bit_nat_eq_self)

section \<open>Indexing\<close>

definition go_index :: "'a list \<Rightarrow> nat \<Rightarrow> 'a option" where
  "go_index xs i = (if i < length xs then Some (xs ! i) else None)"

lemma go_index_Some_iff: "go_index xs i = Some x \<longleftrightarrow> i < length xs \<and> xs ! i = x"
  by (auto simp: go_index_def)

lemma go_index_in_set: "go_index xs i = Some x \<Longrightarrow> x \<in> set xs"
  by (auto simp: go_index_def split: if_splits)

lemma go_index_inside [go_simps]: "i < length xs \<Longrightarrow> go_index xs i = Some (xs ! i)"
  by (simp add: go_index_def)

lemma go_index_outside [go_simps]: "length xs \<le> i \<Longrightarrow> go_index xs i = None"
  by (simp add: go_index_def)

lemma find_SomeD: "find P xs = Some x \<Longrightarrow> x \<in> set xs \<and> P x"
  by (induction xs) (auto split: if_splits)

section \<open>Subsequences\<close>

lemma subseq_in_set: "subseq xs ys \<Longrightarrow> x \<in> set xs \<Longrightarrow> x \<in> set ys"
  by (induction rule: list_emb.induct) auto

lemma subseq_distinct: "subseq xs ys \<Longrightarrow> distinct ys \<Longrightarrow> distinct xs"
  by (induction rule: list_emb.induct) (auto dest: subseq_in_set)

section \<open>Strings\<close>

text \<open>
  \<open>strings.Split(s, sep)\<close> for a separator of one byte: \<open>n\<close> separators give \<open>n + 1\<close>
  pieces, and the empty string gives one empty piece.
\<close>

fun split_on :: "char \<Rightarrow> string \<Rightarrow> string list" where
  "split_on c [] = [[]]"
| "split_on c (x # xs) =
     (if x = c then [] # split_on c xs
      else (case split_on c xs of [] \<Rightarrow> [[x]] | w # ws \<Rightarrow> (x # w) # ws))"

fun join_with :: "char \<Rightarrow> string list \<Rightarrow> string" where
  "join_with c [] = []"
| "join_with c [w] = w"
| "join_with c (w # v # ws) = w @ c # join_with c (v # ws)"

lemma split_on_nonempty [simp]: "split_on c s \<noteq> []"
  by (induction s) (auto split: list.splits)

lemma join_with_Cons: "ws \<noteq> [] \<Longrightarrow> join_with c (w # ws) = w @ c # join_with c ws"
  by (cases ws) auto

lemma join_split [simp]: "join_with c (split_on c s) = s"
proof (induction s)
  case (Cons x xs)
  then show ?case
    by (cases "split_on c xs"; cases "tl (split_on c xs)") (auto simp: join_with_Cons)
qed simp

lemma split_on_pieces: "w \<in> set (split_on c s) \<Longrightarrow> c \<notin> set w"
  by (induction s arbitrary: w) (auto split: if_splits list.splits)

lemma length_split_on: "length (split_on c s) = Suc (count_list s c)"
  by (induction s) (auto split: list.splits)

lemma split_on_append:
  "c \<notin> set w \<Longrightarrow> split_on c (w @ c # s) = w # split_on c s"
  by (induction w) auto

lemma split_on_fresh: "c \<notin> set w \<Longrightarrow> split_on c w = [w]"
  by (induction w) auto

lemma split_on_append_any: "split_on c (a @ c # b) = split_on c a @ split_on c b"
proof (induction a)
  case (Cons x a)
  then show ?case
    by (cases "split_on c a") auto
qed simp

lemma split_join:
  "ws \<noteq> [] \<Longrightarrow> \<forall>w \<in> set ws. c \<notin> set w \<Longrightarrow> split_on c (join_with c ws) = ws"
  by (induction c ws rule: join_with.induct) (auto simp: split_on_append split_on_fresh)

text \<open>
  \<open>strings.ToLower\<close> on the bytes of an ASCII string: the names the programs lower are
  DNS names in presentation form, HTTP methods and log levels.
\<close>

definition lower_char :: "char \<Rightarrow> char" where
  "lower_char c =
     (let n = (of_char c :: nat) in if 65 \<le> n \<and> n \<le> 90 then char_of (n + 32) else c)"

definition ToLower :: "string \<Rightarrow> string" where
  "ToLower s = map lower_char s"

lemma lower_char_idem [simp]: "lower_char (lower_char c) = lower_char c"
  by (auto simp: lower_char_def Let_def)

lemma ToLower_idem [simp]: "ToLower (ToLower s) = ToLower s"
  by (simp add: ToLower_def)

lemma length_ToLower [simp]: "length (ToLower s) = length s"
  by (simp add: ToLower_def)

text \<open>\<open>strings.Contains\<close>.\<close>

fun Contains :: "string \<Rightarrow> string \<Rightarrow> bool" where
  "Contains [] sub = (sub = [])"
| "Contains (c # cs) sub = (take (length sub) (c # cs) = sub \<or> Contains cs sub)"

lemma Contains_set: "Contains s sub \<Longrightarrow> set sub \<subseteq> set s"
proof (induction s sub rule: Contains.induct)
  case (2 c cs sub)
  then show ?case
    by (auto simp del: take_Suc_Cons) (metis list.set_intros(1) set_ConsD set_take_subset subsetD)
qed simp

lemma Contains_refl: "Contains s s"
  by (cases s) auto

lemma Contains_single: "Contains s [c] \<longleftrightarrow> c \<in> set s"
  by (induction s "[c]" rule: Contains.induct) (auto simp: take_Suc)

section \<open>Decimal numbers\<close>

text \<open>\<open>strconv.Itoa\<close>, which is also the verb \<open>%d\<close>, and the reading of a decimal number.\<close>

definition digit :: "nat \<Rightarrow> char" where
  "digit n = char_of (48 + n)"

fun digits :: "nat \<Rightarrow> string" where
  "digits n = (if n < 10 then [digit n] else digits (n div 10) @ [digit (n mod 10)])"

declare digits.simps [simp del]

definition Itoa :: "int \<Rightarrow> string" where
  "Itoa i = (if i < 0 then CHR ''-'' # digits (nat (- i)) else digits (nat i))"

definition undigit :: "char \<Rightarrow> nat option" where
  "undigit c = (let n = of_char c :: nat in if 48 \<le> n \<and> n \<le> 57 then Some (n - 48) else None)"

fun undigits :: "nat \<Rightarrow> string \<Rightarrow> nat option" where
  "undigits acc [] = Some acc"
| "undigits acc (c # cs) = (case undigit c of None \<Rightarrow> None | Some d \<Rightarrow> undigits (10 * acc + d) cs)"

definition Atoi :: "string \<Rightarrow> int option" where
  "Atoi s = (case s of
     [] \<Rightarrow> None
   | c # cs \<Rightarrow> if c = CHR ''-'' then (if cs = [] then None else map_option (\<lambda>n. - int n) (undigits 0 cs))
               else map_option int (undigits 0 s))"

lemma of_char_digit: "n < 10 \<Longrightarrow> of_char (digit n) = (48 + n :: nat)"
  by (simp add: digit_def of_char_of)

lemma undigit_digit [simp]: "n < 10 \<Longrightarrow> undigit (digit n) = Some n"
  by (simp add: undigit_def of_char_digit)

lemma undigits_append: "undigits acc (xs @ ys) = Option.bind (undigits acc xs) (\<lambda>a. undigits a ys)"
  by (induction xs arbitrary: acc) (auto split: option.splits)

lemma undigits_digits: "undigits 0 (digits n) = Some n"
proof (induction n rule: digits.induct)
  case (1 n)
  then show ?case
    by (cases "n < 10") (subst digits.simps, simp add: undigits_append)+
qed

lemma digits_chars: "c \<in> set (digits n) \<Longrightarrow> \<exists>d < 10. c = digit d"
proof (induction n rule: digits.induct)
  case (1 n)
  have "\<exists>d < 10. digit (n mod 10) = digit d"
    by (intro exI [of _ "n mod 10"]) simp
  with 1 show ?case
    by (cases "n < 10") (auto simp: digits.simps [of n])
qed

lemma digits_nonempty: "digits n \<noteq> []"
  by (subst digits.simps) simp

lemma digit_not_minus: "n < 10 \<Longrightarrow> digit n \<noteq> CHR ''-''"
  using of_char_digit [of n] by (cases "digit n = CHR ''-''") auto

lemma Atoi_Itoa [simp]: "Atoi (Itoa i) = Some i"
proof (cases "i < 0")
  case True
  then show ?thesis
    by (simp add: Atoi_def Itoa_def undigits_digits digits_nonempty)
next
  case False
  obtain c cs where d: "digits (nat i) = c # cs"
    using digits_nonempty by (meson list.exhaust)
  then have "c \<noteq> CHR ''-''"
    using digits_chars [of c "nat i"] digit_not_minus by auto
  then show ?thesis
    using False undigits_digits [of "nat i"] d by (simp add: Atoi_def Itoa_def)
qed

lemma Itoa_inj [simp]: "Itoa i = Itoa j \<longleftrightarrow> i = j"
  by (metis Atoi_Itoa option.inject)

section \<open>Float64 and durations\<close>

text \<open>
  The arithmetic of \<open>float64\<close>, abstract: addition, multiplication, division, the order
  and the conversion of an integer. Nothing is assumed of it.
\<close>

record 'f float64_ops =
  f_add :: "'f \<Rightarrow> 'f \<Rightarrow> 'f"
  f_mul :: "'f \<Rightarrow> 'f \<Rightarrow> 'f"
  f_div :: "'f \<Rightarrow> 'f \<Rightarrow> 'f"
  f_less :: "'f \<Rightarrow> 'f \<Rightarrow> bool"
  f_of_int :: "int \<Rightarrow> 'f"

text \<open>An instance to evaluate with: exact rational arithmetic.\<close>

definition rat_ops :: "rat float64_ops" where
  "rat_ops = \<lparr>f_add = (+), f_mul = (*), f_div = (/), f_less = (<), f_of_int = of_int\<rparr>"

text \<open>
  Durations are integers counting nanoseconds. \<open>Duration.Seconds\<close> splits the value into
  whole seconds and the rest, with Go's division, which truncates towards zero.
\<close>

type_synonym duration = int

definition go_quot :: "int \<Rightarrow> int \<Rightarrow> int" where
  "go_quot a b = sgn a * sgn b * (\<bar>a\<bar> div \<bar>b\<bar>)"

definition go_rem :: "int \<Rightarrow> int \<Rightarrow> int" where
  "go_rem a b = a - b * go_quot a b"

definition Second :: duration where
  "Second = 1000000000"

definition Seconds :: "'f float64_ops \<Rightarrow> duration \<Rightarrow> 'f" where
  "Seconds fl d =
     f_add fl (f_of_int fl (go_quot d Second))
              (f_div fl (f_of_int fl (go_rem d Second)) (f_of_int fl Second))"

lemma go_quot_nonneg: "0 \<le> a \<Longrightarrow> 0 < b \<Longrightarrow> go_quot a b = a div b"
  by (cases "a = 0") (auto simp: go_quot_def sgn_if)

lemma go_rem_nonneg: "0 \<le> a \<Longrightarrow> 0 < b \<Longrightarrow> go_rem a b = a mod b"
  by (simp add: go_rem_def go_quot_nonneg minus_mult_div_eq_mod)

section \<open>Transition systems\<close>

text \<open>
  The states a component can reach from its initial states by its steps, and the way an
  invariant is established for all of them.
\<close>

inductive reach :: "('s \<Rightarrow> bool) \<Rightarrow> ('s \<Rightarrow> 's \<Rightarrow> bool) \<Rightarrow> 's \<Rightarrow> bool"
  for init :: "'s \<Rightarrow> bool" and step :: "'s \<Rightarrow> 's \<Rightarrow> bool"
where
  reach_init: "init s \<Longrightarrow> reach init step s"
| reach_step: "reach init step s \<Longrightarrow> step s t \<Longrightarrow> reach init step t"

locale inductive_invariant =
  fixes init :: "'s \<Rightarrow> bool"
    and step :: "'s \<Rightarrow> 's \<Rightarrow> bool"
    and inv :: "'s \<Rightarrow> bool"
  assumes inv_init: "init s \<Longrightarrow> inv s"
    and inv_step: "step s t \<Longrightarrow> inv s \<Longrightarrow> inv t"
begin

lemma inv_reach: "reach init step s \<Longrightarrow> inv s"
  by (induction rule: reach.induct) (blast intro: inv_init inv_step)+

lemma inv_path: "step\<^sup>*\<^sup>* s t \<Longrightarrow> inv s \<Longrightarrow> inv t"
  by (induction rule: rtranclp_induct) (blast intro: inv_step)+

end

text \<open>
  A concrete machine refines an abstract one when a function from its states to the abstract
  ones turns every step into an abstract step or into none.
\<close>

locale refinement =
  fixes init :: "'s \<Rightarrow> bool"
    and step :: "'s \<Rightarrow> 's \<Rightarrow> bool"
    and ainit :: "'a \<Rightarrow> bool"
    and astep :: "'a \<Rightarrow> 'a \<Rightarrow> bool"
    and abs :: "'s \<Rightarrow> 'a"
  assumes ref_init: "init s \<Longrightarrow> ainit (abs s)"
    and ref_step: "step s t \<Longrightarrow> abs t = abs s \<or> astep (abs s) (abs t)"
begin

lemma ref_reach: "reach init step s \<Longrightarrow> reach ainit astep (abs s)"
  by (induction rule: reach.induct) (metis reach_init ref_init, metis reach_step ref_step)

lemma ref_invariant:
  "(\<And>a. reach ainit astep a \<Longrightarrow> P a) \<Longrightarrow> reach init step s \<Longrightarrow> P (abs s)"
  by (blast intro: ref_reach)

end

lemma reach_mono: "reach init step s \<Longrightarrow> (\<And>s. init s \<Longrightarrow> init' s) \<Longrightarrow> reach init' step s"
  by (induction rule: reach.induct) (blast intro: reach_init reach_step)+

lemma reach_path: "reach init step s \<Longrightarrow> step\<^sup>*\<^sup>* s t \<Longrightarrow> reach init step t"
  by (rotate_tac, induction rule: rtranclp_induct) (blast intro: reach_step)+

end
