(* ===== verification/Jojo_Dns.thy ===== *)
theory Jojo_Dns
  imports Go_Prelude
begin

text \<open>
  The DNS messages that jojo (\<open>src/jojo/jojo.go\<close>), a caching DNS proxy, handles, and the
  functions that only read them: the cache key of a query, the payload size a client
  accepts and the time a response may be cached.

  The message types belong to the package \<open>github.com/miekg/dns\<close>. The records here have
  the fields jojo reads or writes; the remaining header bits are one opaque field. The
  package's functions are the fields of the record \<open>dns_lib\<close>, an argument of every
  definition that calls one.
\<close>

section \<open>Messages\<close>

record question =
  q_Name :: string
  Qtype :: uint16
  Qclass :: uint16

record rr_header =
  hdr_Name :: string
  Rrtype :: uint16
  hdr_Class :: uint16
  Ttl :: uint32

text \<open>The dynamic types of a resource record that jojo tells apart.\<close>

datatype rr =
    OPT (rr_hdr: rr_header)
  | HINFO (rr_hdr: rr_header) (Cpu: string) (Os: string)
  | OtherRR (rr_hdr: rr_header) (rdata: string)

record msg_hdr =
  Id :: uint16
  Response :: bool
  Truncated :: bool
  other_bits :: uint16

record msg =
  MsgHdr :: msg_hdr
  Compress :: bool
  Question :: "question list"
  Answer :: "rr list"
  Ns :: "rr list"
  Extra :: "rr list"

text \<open>\<open>new(dns.Msg)\<close>: the zero value.\<close>

definition new_msg :: msg where
  "new_msg = \<lparr>MsgHdr = \<lparr>Id = 0, Response = False, Truncated = False, other_bits = 0\<rparr>,
     Compress = False, Question = [], Answer = [], Ns = [], Extra = []\<rparr>"

text \<open>
  What jojo calls of the DNS package: label counting, the DO bit and the advertised size
  of an OPT record, the OPT record of a message, attaching an OPT record, a reply with a
  response code, and the length of the packed message.
\<close>

record dns_lib =
  CountLabel :: "string \<Rightarrow> int"
  Do :: "rr_header \<Rightarrow> bool"
  UDPSize :: "rr_header \<Rightarrow> uint16"
  IsEdns0 :: "msg \<Rightarrow> rr_header option"
  SetEdns0 :: "uint16 \<Rightarrow> bool \<Rightarrow> msg \<Rightarrow> msg"
  SetRcode :: "msg \<Rightarrow> int \<Rightarrow> msg"
  PackLen :: "msg \<Rightarrow> nat"

abbreviation ClassINET :: uint16 where "ClassINET \<equiv> 1"
abbreviation TypeHINFO :: uint16 where "TypeHINFO \<equiv> 13"
abbreviation TypeOPT :: uint16 where "TypeOPT \<equiv> 41"
abbreviation TypeANY :: uint16 where "TypeANY \<equiv> 255"
abbreviation MinMsgSize :: uint16 where "MinMsgSize \<equiv> 512"
abbreviation DefaultMsgSize :: uint16 where "DefaultMsgSize \<equiv> 4096"
abbreviation RcodeRefused :: int where "RcodeRefused \<equiv> 5"

text \<open>The errors the program makes, and a run-time panic.\<close>

datatype jojo_error =
    InvalidNumberOfQuestions
  | UnsupportedQuestionClass
  | NotEnoughLabels
  | AllUpstreamServersDown
  | RequestTooOld
  | Evicted
  | ExchangeError string
  | Panic

section \<open>The cache key of a query\<close>

record cache_key =
  key_Name :: string
  key_Qtype :: uint16
  DNSSEC :: bool

text \<open>
  The loop over \<open>req.Extra\<close>: every record of type OPT sets the flag, and the type
  assertion to \<open>*dns.OPT\<close> panics on a record of another dynamic type.
\<close>

fun dnssec_loop :: "dns_lib \<Rightarrow> bool \<Rightarrow> rr list \<Rightarrow> jojo_error + bool" where
  "dnssec_loop lib d [] = Inr d"
| "dnssec_loop lib d (r # rs) =
     (if Rrtype (rr_hdr r) = TypeOPT
      then (case r of OPT h \<Rightarrow> dnssec_loop lib (Do lib h) rs | _ \<Rightarrow> Inl Panic)
      else dnssec_loop lib d rs)"

definition getKey :: "dns_lib \<Rightarrow> int \<Rightarrow> msg \<Rightarrow> jojo_error + cache_key" where
  "getKey lib minLabelsCount req =
     (case Question req of
        [q] \<Rightarrow>
          if Qclass q \<noteq> ClassINET then Inl UnsupportedQuestionClass
          else if CountLabel lib (q_Name q) < minLabelsCount then Inl NotEnoughLabels
          else (case dnssec_loop lib False (Extra req) of
                  Inl e \<Rightarrow> Inl e
                | Inr dnssec \<Rightarrow>
                    Inr \<lparr>key_Name = ToLower (q_Name q), key_Qtype = Qtype q, DNSSEC = dnssec\<rparr>)
      | _ \<Rightarrow> Inl InvalidNumberOfQuestions)"

section \<open>Payload size and time to live\<close>

definition getMaxPayloadSize :: "dns_lib \<Rightarrow> msg \<Rightarrow> uint16" where
  "getMaxPayloadSize lib req =
     (case IsEdns0 lib req of
        None \<Rightarrow> MinMsgSize
      | Some opt \<Rightarrow>
          let maxPayloadSize = UDPSize lib opt
          in if maxPayloadSize < MinMsgSize then MinMsgSize else maxPayloadSize)"

abbreviation NegCacheMinTTL :: int where "NegCacheMinTTL \<equiv> 600"
abbreviation MinTTL :: uint32 where "MinTTL \<equiv> 60"
abbreviation MaxTTL :: uint32 where "MaxTTL \<equiv> 604800"

definition ttl_step :: "rr \<Rightarrow> uint32 \<Rightarrow> uint32" where
  "ttl_step r ttl = (if Ttl (rr_hdr r) < ttl then Ttl (rr_hdr r) else ttl)"

definition getMinTTL :: "msg \<Rightarrow> duration" where
  "getMinTTL resp =
     (if length (Answer resp) \<le> 0 then NegCacheMinTTL * Second
      else let ttl = fold ttl_step (Answer resp) MaxTTL;
               ttl = (if ttl < MinTTL then MinTTL else ttl)
           in uint ttl * Second)"

section \<open>Lemmas\<close>

lemma dnssec_loop_no_opt:
  "\<forall>r \<in> set rs. Rrtype (rr_hdr r) \<noteq> TypeOPT \<Longrightarrow> dnssec_loop lib d rs = Inr d"
  by (induction rs) auto

lemma dnssec_loop_append_opt:
  "dnssec_loop lib d rs = Inr d' \<Longrightarrow> Rrtype h = TypeOPT \<Longrightarrow>
   dnssec_loop lib d (rs @ [OPT h]) = Inr (Do lib h)"
  by (induction rs arbitrary: d) (auto split: rr.splits if_splits)

lemma getKey_Inr_iff:
  "getKey lib n req = Inr k \<longleftrightarrow>
   (\<exists>q d. Question req = [q] \<and> Qclass q = ClassINET \<and> n \<le> CountLabel lib (q_Name q) \<and>
     dnssec_loop lib False (Extra req) = Inr d \<and>
     k = \<lparr>key_Name = ToLower (q_Name q), key_Qtype = Qtype q, DNSSEC = d\<rparr>)"
  by (auto simp: getKey_def split: list.splits sum.splits)

lemma getKey_one_question: "getKey lib n req = Inr k \<Longrightarrow> \<exists>q. Question req = [q]"
  by (auto simp: getKey_Inr_iff)

lemma getMaxPayloadSize_ge: "MinMsgSize \<le> getMaxPayloadSize lib req"
  by (auto simp: getMaxPayloadSize_def Let_def split: option.splits)

lemma fold_ttl_step:
  "uint (fold ttl_step rs t) = Min (insert (uint t) ((\<lambda>r. uint (Ttl (rr_hdr r))) ` set rs))"
proof (induction rs arbitrary: t)
  case (Cons r rs)
  have "uint (ttl_step r t) = min (uint (Ttl (rr_hdr r))) (uint t)"
    by (simp add: ttl_step_def min_def word_less_alt)
  with Cons show ?case
    by (cases "rs = []") (simp_all add: Min_insert min.left_commute)
qed simp

text \<open>
  \<open>getMinTTL\<close> computes the smallest time to live of the answers, clamped to the
  interval from \<open>MinTTL\<close> (one minute) to \<open>MaxTTL\<close> (one week); a response without
  answers is cached for \<open>NegCacheMinTTL\<close> (ten minutes).
\<close>

theorem getMinTTL_clamps:
  "getMinTTL resp =
     (if Answer resp = [] then 600 * Second
      else max 60 (min 604800 (Min ((\<lambda>r. uint (Ttl (rr_hdr r))) ` set (Answer resp)))) * Second)"
proof (cases "Answer resp = []")
  case False
  define m where "m = Min ((\<lambda>r. uint (Ttl (rr_hdr r))) ` set (Answer resp))"
  have "uint (fold ttl_step (Answer resp) MaxTTL) = min 604800 m"
    using False by (simp add: fold_ttl_step Min_insert m_def)
  with False show ?thesis
    by (auto simp: getMinTTL_def Let_def max_def min_def word_less_alt m_def [symmetric])
qed (simp add: getMinTTL_def)

end
