(* ===== verification/Jojo_Upstream.thy ===== *)
theory Jojo_Upstream
  imports Jojo_Dns
begin

text \<open>
  The pool of upstream resolvers of jojo (\<open>src/jojo/jojo.go\<close>): its configuration, the choice
  of a server for a name, the failure counting that takes a server out of the pool, the
  periodic probing that puts servers back, and one synchronous resolution over the pool.

  The Go code shares one array of servers between \<open>upstreamServers.servers\<close> and its local
  copies of the slice; no code reassigns it, so an assignment through a copy is an
  update of the one list of the model.
\<close>

section \<open>State\<close>

record upstream_server =
  addr :: string
  failures :: uint64
  offline :: bool

record upstream_servers =
  servers :: "upstream_server list"
  live :: "string list"

record 'f upstream_rtt =
  RTT :: 'f
  count :: 'f

record 'f upstream_state =
  upstreamServers :: upstream_servers
  upstreamRtt :: "'f upstream_rtt"

section \<open>Configuration and choice of a server\<close>

definition add_server :: "string \<Rightarrow> upstream_servers \<Rightarrow> upstream_servers" where
  "add_server a u =
     u\<lparr>servers := servers u @ [\<lparr>addr = a, failures = 0, offline = False\<rparr>],
       live := live u @ [a]\<rparr>"

definition parseUpstreamServers :: "string \<Rightarrow> upstream_servers" where
  "parseUpstreamServers str =
     fold add_server (split_on (CHR '','') str) \<lparr>servers = [], live = []\<rparr>"

text \<open>
  \<open>pickUpstream\<close>: the keyed hash of the lower-case name (package \<open>siphash\<close>, the argument
  \<open>hash\<close>) selects a slot of the list of live servers. All arithmetic is on uint64.
\<close>

definition pickUpstream ::
  "(string \<Rightarrow> uint64) \<Rightarrow> upstream_servers \<Rightarrow> msg \<Rightarrow> jojo_error + string" where
  "pickUpstream hash u req =
     (case go_index (Question req) 0 of
        None \<Rightarrow> Inl Panic
      | Some q \<Rightarrow>
          let name = ToLower (q_Name q);
              h = hash name;
              liveCount = (of_nat (length (live u)) :: uint64)
          in if liveCount \<le> 0 then Inl AllUpstreamServersDown
             else let i = h div (- 1 div liveCount);
                      i = (if i \<ge> liveCount then liveCount - 1 else i)
                  in (case go_index (live u) (unat i) of None \<Rightarrow> Inl Panic | Some res \<Rightarrow> Inr res))"

section \<open>Failures\<close>

definition resetRTT :: "'f float64_ops \<Rightarrow> 'f upstream_state \<Rightarrow> 'f upstream_state" where
  "resetRTT fl s = s\<lparr>upstreamRtt := \<lparr>RTT = f_of_int fl 0, count = f_of_int fl 0\<rparr>\<rparr>"

definition reset_server :: "upstream_server \<Rightarrow> upstream_server" where
  "reset_server sv = sv\<lparr>failures := 0, offline := False\<rparr>"

definition resetUpstreamServersNoLock ::
  "'f float64_ops \<Rightarrow> 'f upstream_state \<Rightarrow> 'f upstream_state" where
  "resetUpstreamServersNoLock fl s =
     (let u = upstreamServers s
      in if length (servers u) = length (live u) then s
         else resetRTT fl
           (s\<lparr>upstreamServers := \<lparr>servers = map reset_server (servers u),
                                   live = map addr (servers u)\<rparr>\<rparr>))"

definition resetUpstreamServers ::
  "'f float64_ops \<Rightarrow> 'f upstream_state \<Rightarrow> 'f upstream_state" where
  "resetUpstreamServers fl s = resetUpstreamServersNoLock fl s"

text \<open>
  The first loop of \<open>markFailed\<close> looks for the server; the flag says whether the loop
  returned from the function.
\<close>

fun count_failure ::
  "uint64 \<Rightarrow> string \<Rightarrow> upstream_server list \<Rightarrow> upstream_server list \<times> bool" where
  "count_failure maxFailures a [] = ([], False)"
| "count_failure maxFailures a (sv # svs) =
     (if addr sv \<noteq> a
      then (case count_failure maxFailures a svs of (svs', ret) \<Rightarrow> (sv # svs', ret))
      else if offline sv then (sv # svs, True)
      else let sv' = sv\<lparr>failures := failures sv + 1\<rparr>
           in (sv' # svs, failures sv' < maxFailures))"

text \<open>The second loop takes the server offline and collects the addresses of the others.\<close>

fun take_offline :: "string \<Rightarrow> upstream_server list \<Rightarrow> upstream_server list \<times> string list" where
  "take_offline a [] = ([], [])"
| "take_offline a (sv # svs) =
     (case take_offline a svs of (svs', lv) \<Rightarrow>
        if addr sv = a then (sv\<lparr>offline := True\<rparr> # svs', lv)
        else if offline sv = False then (sv # svs', addr sv # lv)
        else (sv # svs', lv))"

definition markFailed ::
  "'f float64_ops \<Rightarrow> uint64 \<Rightarrow> string \<Rightarrow> 'f upstream_state \<Rightarrow> 'f upstream_state" where
  "markFailed fl maxFailures a s =
     (let u = upstreamServers s
      in case count_failure maxFailures a (servers u) of (svs, ret) \<Rightarrow>
           let s' = s\<lparr>upstreamServers := u\<lparr>servers := svs\<rparr>\<rparr>
           in if ret then s'
              else if length (live u) \<le> 1 then resetUpstreamServersNoLock fl s'
              else case take_offline a svs of (svs', lv) \<Rightarrow>
                     s'\<lparr>upstreamServers := \<lparr>servers = svs', live = lv\<rparr>\<rparr>)"

section \<open>Probing\<close>

text \<open>The result of \<open>dns.Client.Exchange\<close>: the response, the round trip time, the error.\<close>

record exchange_result =
  ex_msg :: "msg option"
  ex_rtt :: duration
  ex_err :: "string option"

text \<open>
  One iteration of the probe loop on the server it reads: the server afterwards, and the
  addresses it appends to the local list of live servers. A server that is not offline and
  has failures is assumed to be online and is not probed.
\<close>

definition probe_server ::
  "'f float64_ops \<Rightarrow> 'f \<Rightarrow> exchange_result \<Rightarrow> upstream_server \<Rightarrow> upstream_server \<times> string list" where
  "probe_server fl maxRTT r sv =
     (if offline sv = False \<and> failures sv > 0 then (sv, [addr sv])
      else if ex_err r = None \<and> f_less fl (Seconds fl (ex_rtt r)) maxRTT
      then (sv\<lparr>offline := False, failures := 0\<rparr>, [addr sv])
      else (sv, []))"

text \<open>
  The whole of \<open>probeUpstreamServers\<close> when no other goroutine touches the pool meanwhile.
  \<open>ex i a\<close> is the outcome of the exchange with address \<open>a\<close> in iteration \<open>i\<close>.
\<close>

fun probe_loop ::
  "'f float64_ops \<Rightarrow> 'f \<Rightarrow> (nat \<Rightarrow> string \<Rightarrow> exchange_result) \<Rightarrow> nat \<Rightarrow> upstream_server list
   \<Rightarrow> upstream_server list \<times> string list" where
  "probe_loop fl maxRTT ex i [] = ([], [])"
| "probe_loop fl maxRTT ex i (sv # svs) =
     (case probe_server fl maxRTT (ex i (addr sv)) sv of (sv', lv) \<Rightarrow>
      case probe_loop fl maxRTT ex (Suc i) svs of (svs', lvs) \<Rightarrow> (sv' # svs', lv @ lvs))"

definition probeUpstreamServers ::
  "'f float64_ops \<Rightarrow> 'f \<Rightarrow> (nat \<Rightarrow> string \<Rightarrow> exchange_result) \<Rightarrow> 'f upstream_state
   \<Rightarrow> 'f upstream_state" where
  "probeUpstreamServers fl maxRTT ex s =
     (case probe_loop fl maxRTT ex 0 (servers (upstreamServers s)) of (svs, lv) \<Rightarrow>
        resetRTT fl (s\<lparr>upstreamServers := \<lparr>servers = svs, live = lv\<rparr>\<rparr>))"

section \<open>One resolution\<close>

record 'f upstream_cfg =
  cfg_hash :: "string \<Rightarrow> uint64"
  cfg_maxFailures :: uint64
  cfg_maxRTT :: 'f
  udpExchange :: "msg \<Rightarrow> string \<Rightarrow> exchange_result"
  tcpExchange :: "msg \<Rightarrow> string \<Rightarrow> exchange_result"

abbreviation BayesianAverageC :: int where "BayesianAverageC \<equiv> 100"

text \<open>The exchange with one server: over UDP, and over TCP when that failed or was truncated.\<close>

definition exchange :: "'f upstream_cfg \<Rightarrow> msg \<Rightarrow> string \<Rightarrow> exchange_result" where
  "exchange cfg req a =
     (let r = udpExchange cfg req a
      in if ex_err r \<noteq> None \<or> (case ex_msg r of None \<Rightarrow> False | Some m \<Rightarrow> Truncated (MsgHdr m))
         then tcpExchange cfg req a else r)"

text \<open>The section under the lock of \<open>upstreamRtt\<close>, with the mean it computes.\<close>

definition record_rtt :: "'f float64_ops \<Rightarrow> duration \<Rightarrow> 'f upstream_state \<Rightarrow> 'f \<times> 'f upstream_state" where
  "record_rtt fl rtt s =
     (let t = upstreamRtt s;
          t = t\<lparr>count := f_add fl (count t) (f_of_int fl 1),
                RTT := f_add fl (RTT t) (Seconds fl rtt)\<rparr>
      in (f_div fl (RTT t) (f_add fl (count t) (f_of_int fl BayesianAverageC)), s\<lparr>upstreamRtt := t\<rparr>))"

text \<open>The rest of a resolution once a server is picked.\<close>

definition resolve_at ::
  "'f float64_ops \<Rightarrow> 'f upstream_cfg \<Rightarrow> msg \<Rightarrow> string \<Rightarrow> 'f upstream_state
   \<Rightarrow> (jojo_error + msg option \<times> duration) \<times> 'f upstream_state" where
  "resolve_at fl cfg req a s =
     (let r = exchange cfg req a
      in case ex_err r of
           Some e \<Rightarrow> (Inl (ExchangeError e), markFailed fl (cfg_maxFailures cfg) a s)
         | None \<Rightarrow>
             (case record_rtt fl (ex_rtt r) s of (meanRTT, s') \<Rightarrow>
                (Inr (ex_msg r, ex_rtt r),
                 if f_less fl (cfg_maxRTT cfg) meanRTT
                 then markFailed fl (cfg_maxFailures cfg) a s' else s')))"

definition syncResolve ::
  "'f float64_ops \<Rightarrow> 'f upstream_cfg \<Rightarrow> msg \<Rightarrow> 'f upstream_state
   \<Rightarrow> (jojo_error + msg option \<times> duration) \<times> 'f upstream_state" where
  "syncResolve fl cfg req s =
     (case pickUpstream (cfg_hash cfg) (upstreamServers s) req of
        Inl e \<Rightarrow> (Inl e, s)
      | Inr a \<Rightarrow> resolve_at fl cfg req a s)"

section \<open>The pool as a transition system\<close>

text \<open>
  The steps of the pool when every operation runs alone: a resolution or one of its locked
  sections, a reset and a probe. The configuration is fixed, the request and the outcomes of
  the exchanges are arbitrary.
\<close>

definition pool_init :: "string \<Rightarrow> 'f upstream_state \<Rightarrow> bool" where
  "pool_init str s \<longleftrightarrow> upstreamServers s = parseUpstreamServers str"

inductive pool_step ::
  "'f float64_ops \<Rightarrow> uint64 \<Rightarrow> 'f \<Rightarrow> 'f upstream_state \<Rightarrow> 'f upstream_state \<Rightarrow> bool"
  for fl :: "'f float64_ops" and maxFailures :: uint64 and maxRTT :: 'f
where
  resolve_step: "cfg_maxFailures cfg = maxFailures \<Longrightarrow> cfg_maxRTT cfg = maxRTT \<Longrightarrow>
     pool_step fl maxFailures maxRTT s (snd (syncResolve fl cfg req s))"
| rtt_step: "pool_step fl maxFailures maxRTT s (snd (record_rtt fl rtt s))"
| mark_step: "pool_step fl maxFailures maxRTT s (markFailed fl maxFailures a s)"
| reset_step: "pool_step fl maxFailures maxRTT s (resetUpstreamServers fl s)"
| probe_step: "pool_step fl maxFailures maxRTT s (probeUpstreamServers fl maxRTT ex s)"

text \<open>
  \<open>probeUpstreamServers\<close> holds the lock only to copy the slice and to store the result, so in
  the process its iterations interleave with the resolver threads. Here it has a program
  counter: \<open>Probing i lv\<close> is the head of iteration \<open>i\<close> with the live servers found so far,
  \<open>Asking i lv a\<close> the exchange with \<open>a\<close>, and \<open>StoredLive\<close> the point before the reset of the
  round trip times. An iteration tests the copy of the server that \<open>range\<close> made and writes the
  two fields of the shared one.
\<close>

datatype probe_pc = ProbeIdle | Probing nat "string list" | Asking nat "string list" string | StoredLive

inductive probe_pc_step ::
  "'f float64_ops \<Rightarrow> 'f \<Rightarrow> 'f upstream_state \<times> probe_pc \<Rightarrow> 'f upstream_state \<times> probe_pc \<Rightarrow> bool"
  for fl :: "'f float64_ops" and maxRTT :: 'f
where
  probe_start: "probe_pc_step fl maxRTT (s, ProbeIdle) (s, Probing 0 [])"
| probe_assume: "svs = servers (upstreamServers s) \<Longrightarrow> i < length svs \<Longrightarrow>
     offline (svs ! i) = False \<and> failures (svs ! i) > 0 \<Longrightarrow>
     probe_pc_step fl maxRTT (s, Probing i lv) (s, Probing (Suc i) (lv @ [addr (svs ! i)]))"
| probe_ask: "svs = servers (upstreamServers s) \<Longrightarrow> i < length svs \<Longrightarrow>
     \<not> (offline (svs ! i) = False \<and> failures (svs ! i) > 0) \<Longrightarrow>
     probe_pc_step fl maxRTT (s, Probing i lv) (s, Asking i lv (addr (svs ! i)))"
| probe_working: "ex_err (r :: exchange_result) = None \<and> f_less fl (Seconds fl (ex_rtt r)) maxRTT \<Longrightarrow>
     svs = servers (upstreamServers s) \<Longrightarrow>
     probe_pc_step fl maxRTT (s, Asking i lv a)
       (s\<lparr>upstreamServers := (upstreamServers s)\<lparr>servers :=
            svs[i := (svs ! i)\<lparr>offline := False, failures := 0\<rparr>]\<rparr>\<rparr>,
        Probing (Suc i) (lv @ [a]))"
| probe_silent: "\<not> (ex_err (r :: exchange_result) = None \<and> f_less fl (Seconds fl (ex_rtt r)) maxRTT) \<Longrightarrow>
     probe_pc_step fl maxRTT (s, Asking i lv a) (s, Probing (Suc i) lv)"
| probe_store: "i = length (servers (upstreamServers s)) \<Longrightarrow>
     probe_pc_step fl maxRTT (s, Probing i lv)
       (s\<lparr>upstreamServers := (upstreamServers s)\<lparr>live := lv\<rparr>\<rparr>, StoredLive)"
| probe_reset: "probe_pc_step fl maxRTT (s, StoredLive) (resetRTT fl s, ProbeIdle)"

text \<open>The pool with one prober and any number of resolver threads.\<close>

inductive pool_sys_step ::
  "'f float64_ops \<Rightarrow> uint64 \<Rightarrow> 'f \<Rightarrow> 'f upstream_state \<times> probe_pc \<Rightarrow> 'f upstream_state \<times> probe_pc \<Rightarrow> bool"
  for fl :: "'f float64_ops" and maxFailures :: uint64 and maxRTT :: 'f
where
  prober_moves: "probe_pc_step fl maxRTT p q \<Longrightarrow> pool_sys_step fl maxFailures maxRTT p q"
| concurrent_rtt: "pool_sys_step fl maxFailures maxRTT (s, pc) (snd (record_rtt fl rtt s), pc)"
| concurrent_mark: "pool_sys_step fl maxFailures maxRTT (s, pc) (markFailed fl maxFailures a s, pc)"

section \<open>Lemmas\<close>

definition online :: "upstream_server list \<Rightarrow> string list" where
  "online svs = map addr (filter (\<lambda>sv. \<not> offline sv) svs)"

lemma online_Nil [simp]: "online [] = []"
  by (simp add: online_def)

lemma online_Cons [simp]:
  "online (sv # svs) = (if offline sv then online svs else addr sv # online svs)"
  by (simp add: online_def)

lemma add_server_servers:
  "fold add_server as u =
     \<lparr>servers = servers u @ map (\<lambda>a. \<lparr>addr = a, failures = 0, offline = False\<rparr>) as,
      live = live u @ as\<rparr>"
  by (induction as arbitrary: u) (simp_all add: add_server_def)

lemma parse_servers:
  "parseUpstreamServers str =
     \<lparr>servers = map (\<lambda>a. \<lparr>addr = a, failures = 0, offline = False\<rparr>) (split_on (CHR '','') str),
      live = split_on (CHR '','') str\<rparr>"
  by (simp add: parseUpstreamServers_def add_server_servers)

lemma online_fresh:
  "online (map (\<lambda>a. \<lparr>addr = a, failures = w a, offline = False\<rparr>) as) = as"
  by (induction as) auto

lemma online_reset [simp]: "online (map reset_server svs) = map addr svs"
  by (induction svs) (auto simp: reset_server_def)

lemma addr_reset [simp]: "map addr (map reset_server svs) = map addr svs"
  by (simp add: reset_server_def)

lemma count_failure_frame:
  "map addr (fst (count_failure m a svs)) = map addr svs"
  "online (fst (count_failure m a svs)) = online svs"
  by (induction svs) (auto simp: Let_def split: prod.splits)

lemma take_offline_spec:
  "map addr (fst (take_offline a svs)) = map addr svs"
  "snd (take_offline a svs) = online (fst (take_offline a svs))"
  "snd (take_offline a svs) = filter (\<lambda>b. b \<noteq> a) (online svs)"
  by (induction svs) (auto split: prod.splits)

lemma probe_loop_spec:
  "map addr (fst (probe_loop fl m ex i svs)) = map addr svs"
  "subseq (snd (probe_loop fl m ex i svs)) (online (fst (probe_loop fl m ex i svs)))"
  by (induction svs arbitrary: i) (auto simp: probe_server_def case_prod_unfold)

text \<open>The invariant: the live list is a sublist of the servers that are not offline.\<close>

definition pool_inv :: "string list \<Rightarrow> 'f upstream_state \<Rightarrow> bool" where
  "pool_inv cfg s \<longleftrightarrow>
     subseq (live (upstreamServers s)) (online (servers (upstreamServers s))) \<and>
     map addr (servers (upstreamServers s)) = cfg"

lemma markFailed_cases:
  fixes s :: "'f upstream_state"
  defines "u \<equiv> upstreamServers s"
  obtains
    (counted) svs where "snd (count_failure m a (servers u))"
      "svs = fst (count_failure m a (servers u))"
      "markFailed fl m a s = s\<lparr>upstreamServers := u\<lparr>servers := svs\<rparr>\<rparr>"
  | (last_one) svs where "\<not> snd (count_failure m a (servers u))" "length (live u) \<le> 1"
      "svs = fst (count_failure m a (servers u))"
      "markFailed fl m a s =
         resetUpstreamServersNoLock fl (s\<lparr>upstreamServers := u\<lparr>servers := svs\<rparr>\<rparr>)"
  | (removed) svs where "\<not> snd (count_failure m a (servers u))" "1 < length (live u)"
      "svs = fst (count_failure m a (servers u))"
      "markFailed fl m a s = s\<lparr>upstreamServers :=
         \<lparr>servers = fst (take_offline a svs), live = snd (take_offline a svs)\<rparr>\<rparr>"
proof (cases "count_failure m a (servers u)")
  case (Pair svs ret)
  show ?thesis
  proof (cases ret)
    case True
    with Pair show ?thesis
      by (intro counted [of svs]) (simp_all add: markFailed_def u_def)
  next
    case False
    show ?thesis
    proof (cases "length (live u) \<le> 1")
      case True
      with Pair False show ?thesis
        by (intro last_one [of svs]) (simp_all add: markFailed_def u_def)
    next
      case long: False
      with Pair False show ?thesis
        by (intro removed [of svs]) (simp_all add: markFailed_def u_def case_prod_unfold)
    qed
  qed
qed

lemma reset_pool_inv:
  "pool_inv cfg s \<Longrightarrow> pool_inv cfg (resetUpstreamServersNoLock fl s)"
  by (simp add: pool_inv_def resetUpstreamServersNoLock_def resetRTT_def Let_def del: map_map)

lemma markFailed_pool_inv:
  assumes "pool_inv cfg s"
  shows "pool_inv cfg (markFailed fl m a s)"
proof (cases rule: markFailed_cases [where m = m and a = a and s = s and fl = fl])
  case (counted svs)
  with assms show ?thesis
    by (simp add: pool_inv_def count_failure_frame)
next
  case (last_one svs)
  then have "pool_inv cfg (s\<lparr>upstreamServers := (upstreamServers s)\<lparr>servers := svs\<rparr>\<rparr>)"
    using assms by (simp add: pool_inv_def count_failure_frame)
  with last_one show ?thesis
    by (simp add: reset_pool_inv)
next
  case (removed svs)
  with assms show ?thesis
    by (simp add: pool_inv_def count_failure_frame take_offline_spec(1,2))
qed

lemma probe_pool_inv:
  "pool_inv cfg s \<Longrightarrow> pool_inv cfg (probeUpstreamServers fl maxRTT ex s)"
  by (simp add: pool_inv_def probeUpstreamServers_def resetRTT_def case_prod_unfold
      probe_loop_spec)

lemma record_rtt_servers [simp]: "upstreamServers (snd (record_rtt fl rtt s)) = upstreamServers s"
  by (simp add: record_rtt_def Let_def)

lemma record_rtt_pool_inv: "pool_inv cfg s \<Longrightarrow> pool_inv cfg (snd (record_rtt fl rtt s))"
  by (simp add: pool_inv_def)

lemma syncResolve_pool_inv:
  assumes "pool_inv cfg s"
  shows "pool_inv cfg (snd (syncResolve fl c req s))"
  using assms
  by (auto simp: syncResolve_def resolve_at_def Let_def case_prod_unfold split: sum.split option.split
      intro: markFailed_pool_inv record_rtt_pool_inv)

interpretation pool: inductive_invariant
  "pool_init str" "pool_step fl m maxRTT" "pool_inv (split_on (CHR '','') str)"
proof (unfold_locales, goal_cases)
  case (1 s)
  then show ?case
    by (simp add: pool_inv_def pool_init_def parse_servers online_fresh comp_def)
next
  case (2 s t)
  then show ?case
    by (induction rule: pool_step.induct)
      (simp_all add: syncResolve_pool_inv record_rtt_pool_inv markFailed_pool_inv probe_pool_inv
        resetUpstreamServers_def reset_pool_inv)
qed

text \<open>A probe that is not disturbed is \<open>probeUpstreamServers\<close>.\<close>

definition probe_run ::
  "'f float64_ops \<Rightarrow> 'f \<Rightarrow> 'f upstream_state \<times> probe_pc \<Rightarrow> 'f upstream_state \<times> probe_pc \<Rightarrow> bool" where
  "probe_run fl maxRTT p q \<longleftrightarrow> probe_pc_step fl maxRTT p q \<and> snd p \<noteq> ProbeIdle"

lemma probe_iteration_alone:
  assumes "servers (upstreamServers s) = pre @ sv # svs"
    and "probe_server fl maxRTT r sv = (sv', l)"
  shows "(probe_run fl maxRTT)\<^sup>*\<^sup>* (s, Probing (length pre) lv)
    (s\<lparr>upstreamServers := (upstreamServers s)\<lparr>servers := pre @ sv' # svs\<rparr>\<rparr>, Probing (length (pre @ [sv'])) (lv @ l))"
proof (cases "offline sv = False \<and> failures sv > 0")
  case True
  then have "probe_run fl maxRTT (s, Probing (length pre) lv) (s, Probing (Suc (length pre)) (lv @ [addr sv]))"
    using probe_assume [of _ s "length pre" fl maxRTT lv] assms(1) by (simp add: probe_run_def)
  moreover have "s\<lparr>upstreamServers := (upstreamServers s)\<lparr>servers := pre @ sv # svs\<rparr>\<rparr> = s"
    using assms(1) [symmetric] by simp
  ultimately show ?thesis
    using assms(2) True by (auto simp: probe_server_def)
next
  case False
  then have ask: "probe_run fl maxRTT (s, Probing (length pre) lv) (s, Asking (length pre) lv (addr sv))"
    using probe_ask [of _ s "length pre" fl maxRTT lv] assms(1) by (simp add: probe_run_def)
  show ?thesis
  proof (cases "ex_err r = None \<and> f_less fl (Seconds fl (ex_rtt r)) maxRTT")
    case True
    have "sv' = sv\<lparr>offline := False, failures := 0\<rparr>" "l = [addr sv]"
      using assms(2) True False by (auto simp: probe_server_def)
    then have "probe_run fl maxRTT (s, Asking (length pre) lv (addr sv))
        (s\<lparr>upstreamServers := (upstreamServers s)\<lparr>servers := pre @ sv' # svs\<rparr>\<rparr>, Probing (length (pre @ [sv'])) (lv @ l))"
      using probe_working [OF True refl, of s "length pre" lv "addr sv"] assms(1) by (simp add: probe_run_def)
    with ask show ?thesis
      by (meson converse_rtranclp_into_rtranclp r_into_rtranclp)
  next
    case silent: False
    have "sv' = sv" "l = []"
      using assms(2) silent False by (auto simp: probe_server_def split: if_splits)
    moreover have "s\<lparr>upstreamServers := (upstreamServers s)\<lparr>servers := pre @ sv # svs\<rparr>\<rparr> = s"
      using assms(1) [symmetric] by simp
    ultimately have "probe_run fl maxRTT (s, Asking (length pre) lv (addr sv))
        (s\<lparr>upstreamServers := (upstreamServers s)\<lparr>servers := pre @ sv' # svs\<rparr>\<rparr>, Probing (length (pre @ [sv'])) (lv @ l))"
      using probe_silent [OF silent, of s "length pre" lv "addr sv"] by (simp add: probe_run_def)
    with ask show ?thesis
      by (meson converse_rtranclp_into_rtranclp r_into_rtranclp)
  qed
qed

lemma probe_iterations_alone:
  "servers (upstreamServers s) = pre @ svs \<Longrightarrow> probe_loop fl maxRTT ex (length pre) svs = (svs', lvs) \<Longrightarrow>
   (probe_run fl maxRTT)\<^sup>*\<^sup>* (s, Probing (length pre) lv)
     (s\<lparr>upstreamServers := (upstreamServers s)\<lparr>servers := pre @ svs'\<rparr>\<rparr>, Probing (length (pre @ svs')) (lv @ lvs))"
proof (induction svs arbitrary: s pre lv svs' lvs)
  case Nil
  then have "pre = servers (upstreamServers s)" "svs' = []" "lvs = []"
    by simp_all
  then show ?case
    by simp
next
  case (Cons sv svs)
  obtain sv' l where one: "probe_server fl maxRTT (ex (length pre) (addr sv)) sv = (sv', l)"
    by fastforce
  obtain svs2 lvs2 where rest: "probe_loop fl maxRTT ex (length (pre @ [sv'])) svs = (svs2, lvs2)"
    by fastforce
  have res: "svs' = sv' # svs2" "lvs = l @ lvs2"
    using Cons.prems(2) one rest by auto
  let ?s = "s\<lparr>upstreamServers := (upstreamServers s)\<lparr>servers := (pre @ [sv']) @ svs\<rparr>\<rparr>"
  have "(probe_run fl maxRTT)\<^sup>*\<^sup>* (s, Probing (length pre) lv) (?s, Probing (length (pre @ [sv'])) (lv @ l))"
    using probe_iteration_alone [OF Cons.prems(1) one, of lv] by simp
  also have "(probe_run fl maxRTT)\<^sup>*\<^sup>* \<dots>
      (s\<lparr>upstreamServers := (upstreamServers s)\<lparr>servers := pre @ svs'\<rparr>\<rparr>, Probing (length (pre @ svs')) (lv @ lvs))"
    using Cons.IH [of ?s "pre @ [sv']" svs2 lvs2 "lv @ l"] rest by (simp add: res)
  finally show ?case .
qed

lemma probe_alone:
  "(probe_run fl maxRTT)\<^sup>*\<^sup>* (s, Probing 0 []) (probeUpstreamServers fl maxRTT ex s, ProbeIdle)"
proof -
  obtain svs lv where loop: "probe_loop fl maxRTT ex 0 (servers (upstreamServers s)) = (svs, lv)"
    by fastforce
  let ?s = "s\<lparr>upstreamServers := (upstreamServers s)\<lparr>servers := svs\<rparr>\<rparr>"
  let ?t = "?s\<lparr>upstreamServers := (upstreamServers ?s)\<lparr>live := lv\<rparr>\<rparr>"
  have "(probe_run fl maxRTT)\<^sup>*\<^sup>* (s, Probing 0 []) (?s, Probing (length svs) lv)"
    using probe_iterations_alone [of s "[]" _ fl maxRTT ex svs lv "[]"] loop by simp
  moreover have "probe_run fl maxRTT (?s, Probing (length svs) lv) (?t, StoredLive)"
    using probe_store [of "length svs" ?s fl maxRTT lv] by (simp add: probe_run_def)
  moreover have "probe_run fl maxRTT (?t, StoredLive) (resetRTT fl ?t, ProbeIdle)"
    using probe_reset [of fl maxRTT ?t] by (simp add: probe_run_def)
  moreover have "resetRTT fl ?t = probeUpstreamServers fl maxRTT ex s"
    using loop by (simp add: probeUpstreamServers_def resetRTT_def)
  ultimately show ?thesis
    by (metis rtranclp.rtrancl_into_rtrancl)
qed

text \<open>
  What every interleaving keeps: the configured servers, and a live list (stored or being
  collected) that names configured servers in their order.
\<close>

definition interleaved_inv :: "string list \<Rightarrow> 'f upstream_state \<times> probe_pc \<Rightarrow> bool" where
  "interleaved_inv cfg p \<longleftrightarrow>
     map addr (servers (upstreamServers (fst p))) = cfg \<and> subseq (live (upstreamServers (fst p))) cfg \<and>
     (case snd p of
        Probing i lv \<Rightarrow> subseq lv (take i cfg)
      | Asking i lv a \<Rightarrow> i < length cfg \<and> a = cfg ! i \<and> subseq lv (take i cfg)
      | _ \<Rightarrow> True)"

lemma online_subseq: "subseq (online svs) (map addr svs)"
  by (simp add: online_def subseq_map)

lemma markFailed_addrs: "map addr (servers (upstreamServers (markFailed fl m a s))) = map addr (servers (upstreamServers s))"
  by (cases rule: markFailed_cases [where m = m and a = a and s = s and fl = fl])
    (simp_all add: count_failure_frame take_offline_spec(1) resetUpstreamServersNoLock_def resetRTT_def Let_def
      del: map_map)

lemma markFailed_live:
  "live (upstreamServers (markFailed fl m a s)) = live (upstreamServers s) \<or>
   subseq (live (upstreamServers (markFailed fl m a s))) (map addr (servers (upstreamServers s)))"
proof (cases rule: markFailed_cases [where m = m and a = a and s = s and fl = fl])
  case (last_one svs)
  then show ?thesis
    by (auto simp: resetUpstreamServersNoLock_def resetRTT_def Let_def count_failure_frame)
next
  case (removed svs)
  then show ?thesis
    using online_subseq [of "fst (take_offline a svs)"]
    by (simp add: count_failure_frame take_offline_spec(1,2))
qed simp

lemma subseq_take_Suc: "i < length cfg \<Longrightarrow> subseq lv (take i cfg) \<Longrightarrow> subseq (lv @ [cfg ! i]) (take (Suc i) cfg)"
  by (simp add: take_Suc_conv_app_nth list_emb_append_mono)

lemma subseq_take_Suc': "subseq lv (take i cfg) \<Longrightarrow> subseq lv (take (Suc i) cfg)"
  by (cases "i < length cfg") (auto simp: take_Suc_conv_app_nth)

lemma interleaved_inv_probe:
  "probe_pc_step fl maxRTT p q \<Longrightarrow> interleaved_inv cfg p \<Longrightarrow> interleaved_inv cfg q"
proof (induction rule: probe_pc_step.induct)
  case (probe_assume svs s i lv)
  then show ?case
    using subseq_take_Suc [of i cfg lv] by (auto simp: interleaved_inv_def)
next
  case (probe_working r svs s i lv a)
  then show ?case
    using subseq_take_Suc [of i cfg lv] by (auto simp: interleaved_inv_def map_update list_update_same_conv)
qed (auto simp: interleaved_inv_def resetRTT_def intro: subseq_take_Suc')

lemma interleaved_inv_step:
  "pool_sys_step fl m maxRTT p q \<Longrightarrow> interleaved_inv cfg p \<Longrightarrow> interleaved_inv cfg q"
proof (induction rule: pool_sys_step.induct)
  case (concurrent_mark s pc a)
  then show ?case
    using markFailed_live [of fl m a s] by (auto simp: interleaved_inv_def markFailed_addrs)
next
  case (concurrent_rtt s pc rtt)
  then show ?case
    by (simp add: interleaved_inv_def)
qed (rule interleaved_inv_probe)

lemma interleaved_inv_init: "pool_init str s \<Longrightarrow> interleaved_inv (split_on (CHR '','') str) (s, ProbeIdle)"
  by (auto simp: interleaved_inv_def pool_init_def parse_servers comp_def)

lemma interleaved_inv_alone:
  assumes "interleaved_inv cfg (s, ProbeIdle)"
  shows "interleaved_inv cfg (probeUpstreamServers fl maxRTT ex s, ProbeIdle)"
proof -
  have "interleaved_inv cfg (s, Probing 0 [])"
    using assms by (simp add: interleaved_inv_def)
  with probe_alone [of fl maxRTT s ex] show ?thesis
    by (induction rule: rtranclp_induct) (auto simp: probe_run_def intro: interleaved_inv_probe)
qed

interpretation pool_sys: inductive_invariant "\<lambda>(s, pc). pool_init str s \<and> pc = ProbeIdle" "pool_sys_step fl m maxRTT"
  "interleaved_inv (split_on (CHR '','') str)"
  by unfold_locales (auto intro: interleaved_inv_init interleaved_inv_step)

lemma markFailed_live_nonempty:
  assumes inv: "pool_inv cfg s" and dist: "distinct cfg" and ne: "live (upstreamServers s) \<noteq> []"
  shows "live (upstreamServers (markFailed fl m a s)) \<noteq> []"
proof (cases rule: markFailed_cases [where m = m and a = a and s = s and fl = fl])
  case (counted svs)
  with ne show ?thesis by simp
next
  case (last_one svs)
  from ne have "servers (upstreamServers s) \<noteq> []"
    using inv by (auto simp: pool_inv_def online_def)
  then have "svs \<noteq> []"
    using last_one(3) count_failure_frame(1) [of m a "servers (upstreamServers s)"] by auto
  with last_one ne show ?thesis
    by (simp add: resetUpstreamServersNoLock_def resetRTT_def Let_def)
next
  case (removed svs)
  let ?L = "live (upstreamServers s)" and ?O = "online (servers (upstreamServers s))"
  have "distinct ?O"
    using inv dist unfolding pool_inv_def online_def by (metis distinct_map_filter)
  then have "distinct ?L"
    using inv by (auto simp: pool_inv_def intro: subseq_distinct)
  with removed(2) obtain b where b: "b \<in> set ?L" "b \<noteq> a"
    by (cases ?L; cases "tl ?L") auto
  then have "b \<in> set ?O"
    using inv by (auto simp: pool_inv_def dest: subseq_in_set)
  with b removed show ?thesis
    by (auto simp: take_offline_spec(3) count_failure_frame(2) filter_empty_conv)
qed

lemma live_slot:
  fixes h n :: uint64
  assumes "n \<noteq> 0"
  shows "unat (let i = h div (- 1 div n) in if i \<ge> n then n - 1 else i) =
         min (unat h div ((2 ^ 64 - 1) div unat n)) (unat n - 1)"
proof -
  have i: "unat (h div (- 1 div n)) = unat h div ((2 ^ 64 - 1) div unat n)"
    by (simp add: unat_div)
  have "unat (n - 1) = unat n - 1"
    using assms by (simp add: unat_minus_one)
  moreover have "0 < unat n"
    using assms by (simp add: unat_gt_0)
  ultimately show ?thesis
    by (auto simp: Let_def i min_def word_le_nat_alt)
qed

lemma fresh_count_failure:
  assumes "a \<in> set as" "distinct as"
  shows "count_failure m a
           (map (\<lambda>b. \<lparr>addr = b, failures = if b = a then w else 0, offline = False\<rparr>) as) =
         (map (\<lambda>b. \<lparr>addr = b, failures = if b = a then w + 1 else 0, offline = False\<rparr>) as,
          w + 1 < m)"
  using assms
proof (induction as)
  case (Cons b as)
  show ?case
  proof (cases "b = a")
    case True
    with Cons.prems have "map (\<lambda>b. \<lparr>addr = b, failures = if b = a then w else 0, offline = False\<rparr>) as =
        map (\<lambda>b. \<lparr>addr = b, failures = if b = a then w + 1 else 0, offline = False\<rparr>) as"
      by auto
    with True show ?thesis by simp
  next
    case False
    with Cons show ?thesis by simp
  qed
qed simp

text \<open>A pool in which \<open>a\<close> has failed \<open>n\<close> times and nothing else has happened.\<close>

definition failed_pool :: "string \<Rightarrow> nat \<Rightarrow> string list \<Rightarrow> upstream_servers" where
  "failed_pool a n as =
     \<lparr>servers = map (\<lambda>b. \<lparr>addr = b, failures = if b = a then of_nat n else 0, offline = False\<rparr>) as,
      live = as\<rparr>"

lemma failed_pool_0: "parseUpstreamServers str = failed_pool a 0 (split_on (CHR '','') str)"
  by (simp add: failed_pool_def parse_servers)

lemma markFailed_counts:
  assumes "a \<in> set as" "distinct as" "Suc n < unat m"
    and "upstreamServers s = failed_pool a n as"
  shows "upstreamServers (markFailed fl m a s) = failed_pool a (Suc n) as"
proof -
  have "unat (of_nat (Suc n) :: uint64) = Suc n"
    using assms(3) unat_less64 [of m] by (intro unat_of_nat_small64) simp
  then have "of_nat n + 1 < m"
    using assms(3) by (simp add: word_less_nat_alt add.commute)
  with assms show ?thesis
    by (simp add: markFailed_def failed_pool_def fresh_count_failure add.commute)
qed

lemma markFailed_removes:
  assumes "a \<in> set as" "distinct as" "unat m = Suc n" "1 < length as"
    and "upstreamServers s = failed_pool a n as"
  shows "live (upstreamServers (markFailed fl m a s)) = filter (\<lambda>b. b \<noteq> a) as"
proof -
  have "unat (of_nat (Suc n) :: uint64) = Suc n"
    using assms(3) unat_less64 [of m] by (intro unat_of_nat_small64) simp
  then have "\<not> of_nat n + 1 < m"
    using assms(3) by (simp add: word_less_nat_alt add.commute)
  with assms show ?thesis
    by (simp add: markFailed_def failed_pool_def fresh_count_failure case_prod_unfold
        take_offline_spec(3) online_fresh)
qed

section \<open>Properties\<close>

text \<open>
  The choice of a server never indexes out of range and needs no wrap-around: with at
  least one live server the query goes to slot
  \<open>min (h div (MaxUint64 div n)) (n - 1)\<close> of the \<open>n\<close> live servers, where \<open>h\<close> is the
  hash of the lower-case name, so a name keeps its server while the live list is unchanged,
  whatever the case of its letters.
\<close>

theorem pickUpstream_slot:
  assumes "Question req = q # qs" and "live u \<noteq> []" and "length (live u) < 2 ^ 64"
  shows "pickUpstream hash u req =
    Inr (live u ! min (unat (hash (ToLower (q_Name q))) div ((2 ^ 64 - 1) div length (live u)))
                      (length (live u) - 1))"
proof -
  let ?n = "of_nat (length (live u)) :: uint64"
  let ?h = "hash (ToLower (q_Name q))"
  have len: "unat ?n = length (live u)"
    using assms(3) by (rule unat_of_nat_small64)
  with assms(2) have n0: "?n \<noteq> 0"
    by (metis length_0_conv unat_0)
  note slot = live_slot [OF n0, of ?h, unfolded len Let_def]
  have "min (unat ?h div ((2 ^ 64 - 1) div length (live u))) (length (live u) - 1) < length (live u)"
    using assms(2) by (cases "live u") (auto simp: min_def)
  with n0 show ?thesis
    by (simp add: pickUpstream_def assms(1) Let_def slot go_index_def)
qed

theorem pickUpstream_slot_witness:
  "pickUpstream (\<lambda>_. - 1) \<lparr>servers = [], live = [''a'', ''b'', ''c'']\<rparr>
     (new_msg\<lparr>Question := [\<lparr>q_Name = ''X.org'', Qtype = 1, Qclass = 1\<rparr>]\<rparr>) = Inr ''c''"
  using pickUpstream_slot [of "new_msg\<lparr>Question := [\<lparr>q_Name = ''X.org'', Qtype = 1, Qclass = 1\<rparr>]\<rparr>"
      "\<lparr>q_Name = ''X.org'', Qtype = 1, Qclass = 1\<rparr>" "[]"
      "\<lparr>servers = [], live = [''a'', ''b'', ''c'']\<rparr>" "\<lambda>_. - 1"]
  by (simp add: new_msg_def)





text \<open>
  A server leaves the pool exactly with its \<open>maxFailures\<close>-th failure: in a freshly
  configured pool of at least two distinct servers, fewer failures leave the live list as it
  was and only count, and the \<open>maxFailures\<close>-th removes that server and no other.
\<close>

theorem markFailed_threshold:
  assumes "pool_init str s" and "as = split_on (CHR '','') str" and "distinct as"
    and "a \<in> set as" and "1 < length as" and "0 < m" and "n \<le> unat m"
  shows "live (upstreamServers ((markFailed fl m a ^^ n) s)) =
    (if n < unat m then as else filter (\<lambda>b. b \<noteq> a) as)"
proof -
  have counted: "upstreamServers ((markFailed fl m a ^^ k) s) = failed_pool a k as"
    if "k < unat m" for k
    using that
  proof (induction k)
    case 0
    with assms(1,2) show ?case by (simp add: pool_init_def failed_pool_0)
  next
    case (Suc k)
    with markFailed_counts [OF assms(4,3), of k m] show ?case by simp
  qed
  show ?thesis
  proof (cases "n < unat m")
    case True
    with counted show ?thesis by (simp add: failed_pool_def)
  next
    case False
    with assms(6,7) obtain k where k: "n = Suc k" "unat m = Suc k"
      by (metis Suc_pred le_neq_implies_less unat_gt_0 word_neq_0_conv)
    with counted [of k] markFailed_removes [OF assms(4,3) k(2) assms(5)] show ?thesis by simp
  qed
qed

theorem markFailed_threshold_witness:
  "live (upstreamServers ((markFailed rat_ops 2 ''a'' ^^ 2)
     \<lparr>upstreamServers = parseUpstreamServers ''a,b,c'', upstreamRtt = \<lparr>RTT = 0, count = 0\<rparr>\<rparr>)) =
   [''b'', ''c'']"
  using markFailed_threshold [of "''a,b,c''"
      "\<lparr>upstreamServers = parseUpstreamServers ''a,b,c'', upstreamRtt = \<lparr>RTT = 0, count = 0\<rparr>\<rparr>"
      "[''a'', ''b'', ''c'']" "''a''" 2 2 rat_ops]
  by (simp add: pool_init_def)

text \<open>
  The pool forgets what a probe found: a server that did not answer the probe is dropped
  from the live list but not marked offline, so the next time some other server reaches its
  failure limit, the rebuilt live list contains the dead server again.
\<close>

theorem markFailed_revives_unprobed:
  assumes "sv \<in> set (servers (upstreamServers s))" and "\<not> offline sv" and "addr sv \<noteq> a"
    and "addr sv \<notin> set (live (upstreamServers s))" and "1 < length (live (upstreamServers s))"
    and "\<not> snd (count_failure m a (servers (upstreamServers s)))"
  shows "addr sv \<in> set (live (upstreamServers (markFailed fl m a s)))"
proof -
  have "addr sv \<in> set (online (servers (upstreamServers s)))"
    using assms(1,2) by (auto simp: online_def)
  with assms(3,5,6) show ?thesis
    by (auto simp: markFailed_def case_prod_unfold Let_def take_offline_spec(3)
        count_failure_frame(2))
qed

theorem markFailed_revives_unprobed_witness:
  "let down = (\<lambda>_ a. \<lparr>ex_msg = None, ex_rtt = 0, ex_err = (if a = ''c'' then Some ''timeout'' else None)\<rparr>);
       s = probeUpstreamServers rat_ops 1 down \<lparr>upstreamServers = parseUpstreamServers ''a,b,c'',
             upstreamRtt = \<lparr>RTT = 0, count = 0\<rparr>\<rparr>
   in live (upstreamServers s) = [''a'', ''b''] \<and>
      ''c'' \<in> set (live (upstreamServers (markFailed rat_ops 1 ''a'' s)))"
proof -
  define down :: "nat \<Rightarrow> string \<Rightarrow> exchange_result" where
    "down = (\<lambda>_ a. \<lparr>ex_msg = None, ex_rtt = 0, ex_err = (if a = ''c'' then Some ''timeout'' else None)\<rparr>)"
  define s where "s = probeUpstreamServers rat_ops 1 down
    \<lparr>upstreamServers = parseUpstreamServers ''a,b,c'', upstreamRtt = \<lparr>RTT = 0, count = 0\<rparr>\<rparr>"
  have s: "upstreamServers s = \<lparr>servers = map (\<lambda>a. \<lparr>addr = a, failures = 0, offline = False\<rparr>)
      [''a'', ''b'', ''c''], live = [''a'', ''b'']\<rparr>"
    by (simp add: s_def down_def probeUpstreamServers_def parse_servers probe_server_def
        resetRTT_def rat_ops_def Seconds_def go_quot_def go_rem_def)
  have "addr \<lparr>addr = ''c'', failures = 0, offline = False\<rparr> \<in>
      set (live (upstreamServers (markFailed rat_ops 1 ''a'' s)))"
    by (rule markFailed_revives_unprobed) (simp_all add: s)
  with s show ?thesis
    by (simp add: s_def down_def Let_def)
qed

text \<open>
  A probe that runs beside a failure can leave an offline server in the live list: the
  probe has already noted the server as live when \<open>markFailed\<close> takes it offline, and
  stores its own list afterwards. From then on \<open>markFailed\<close> ignores every further failure of
  that server, so queries keep going to it until the next probe.
\<close>

theorem probe_race_keeps_offline_server:
  "\<exists>s t. upstreamServers s = parseUpstreamServers ''a,b'' \<and>
     (pool_sys_step rat_ops 1 1)\<^sup>*\<^sup>* (s, ProbeIdle) (t, ProbeIdle) \<and>
     live (upstreamServers t) = [''a'', ''b''] \<and>
     (\<exists>sv \<in> set (servers (upstreamServers t)). addr sv = ''a'' \<and> offline sv) \<and>
     (\<forall>m. markFailed rat_ops m ''a'' t = t)"
proof -
  define A B A' where "A = \<lparr>addr = ''a'', failures = 0, offline = False\<rparr>"
    and "B = \<lparr>addr = ''b'', failures = 0, offline = False\<rparr>"
    and "A' = \<lparr>addr = ''a'', failures = 1, offline = True\<rparr>"
  note defs = A_def B_def A'_def
  define st where "st svs lv = \<lparr>upstreamServers = \<lparr>servers = svs, live = lv\<rparr>, upstreamRtt = \<lparr>RTT = 0, count = 0 :: rat\<rparr>\<rparr>"
    for svs lv
  have mark: "markFailed rat_ops 1 ''a'' (st [A, B] [''a'', ''b'']) = st [A', B] [''b'']"
    by (simp add: st_def defs markFailed_def)
  let ?step = "pool_sys_step rat_ops 1 1" and ?up = "''a''" and ?L = "[''a'', ''b'']"
  have working: "?step (st svs lv, Asking i l a) (st (svs[i := (svs ! i)\<lparr>offline := False, failures := 0\<rparr>]) lv, Probing (Suc i) (l @ [a]))"
    for svs lv i l a
    using probe_working [of "\<lparr>ex_msg = None, ex_rtt = 0, ex_err = None\<rparr>" rat_ops 1 svs "st svs lv" i l a]
    by (intro prober_moves) (simp add: st_def rat_ops_def Seconds_def go_quot_def go_rem_def)
  have ask: "?step (st svs lv, Probing i l) (st svs lv, Asking i l (addr (svs ! i)))"
    if "i < length svs" "failures (svs ! i) = 0" for svs lv i l
    using that probe_ask [of svs "st svs lv" i rat_ops 1 l] by (intro prober_moves) (simp add: st_def)
  have "?step (st [A, B] ?L, ProbeIdle) (st [A, B] ?L, Probing 0 [])"
    by (intro prober_moves probe_start)
  moreover have "?step (st [A, B] ?L, Probing 0 []) (st [A, B] ?L, Asking 0 [] ''a'')"
    using ask [of 0 "[A, B]"] by (simp add: defs)
  moreover have "?step (st [A, B] ?L, Asking 0 [] ''a'') (st [A, B] ?L, Probing 1 [''a''])"
    using working [of "[A, B]" ?L 0 "[]" "''a''"] by (simp add: defs)
  moreover have "?step (st [A, B] ?L, Probing 1 [''a'']) (st [A', B] [''b''], Probing 1 [''a''])"
    using concurrent_mark [of rat_ops 1 1 "st [A, B] ?L" "Probing 1 [''a'']" "''a''"] by (simp add: mark)
  moreover have "?step (st [A', B] [''b''], Probing 1 [''a'']) (st [A', B] [''b''], Asking 1 [''a''] ''b'')"
    using ask [of 1 "[A', B]"] by (simp add: defs)
  moreover have "?step (st [A', B] [''b''], Asking 1 [''a''] ''b'') (st [A', B] [''b''], Probing 2 ?L)"
    using working [of "[A', B]" "[''b'']" 1 "[''a'']" "''b''"] by (simp add: defs numeral_2_eq_2)
  moreover have "?step (st [A', B] [''b''], Probing 2 ?L) (st [A', B] ?L, StoredLive)"
    using probe_store [of 2 "st [A', B] [''b'']" rat_ops 1 ?L] by (intro prober_moves) (simp add: st_def)
  moreover have "?step (st [A', B] ?L, StoredLive) (st [A', B] ?L, ProbeIdle)"
    using probe_reset [of rat_ops 1 "st [A', B] ?L"] by (intro prober_moves) (simp add: st_def resetRTT_def rat_ops_def)
  ultimately have "?step\<^sup>*\<^sup>* (st [A, B] ?L, ProbeIdle) (st [A', B] ?L, ProbeIdle)"
    by (meson converse_rtranclp_into_rtranclp rtranclp.rtrancl_refl)
  moreover have "markFailed rat_ops m ''a'' (st [A', B] ?L) = st [A', B] ?L" for m
    by (simp add: st_def defs markFailed_def)
  ultimately show ?thesis
    by (intro exI [of _ "st [A, B] ?L"] exI [of _ "st [A', B] ?L"]) (simp add: st_def defs parse_servers)
qed

end
