(* ===== verification/Jojo_Ring.thy ===== *)
theory Jojo_Ring
  imports Jojo_Upstream
begin

text \<open>
  The queue between jojo's request handlers and its resolver threads (\<open>resolverThread\<close> and
  \<open>resolveViaResolverThreads\<close> of \<open>src/jojo/jojo.go\<close>) as a state machine.

  A request is a number \<open>i\<close>; its message is \<open>reqs i\<close>, and what the servers answer while it is
  resolved is part of \<open>cfg i\<close>. The goroutine that submits it has a
  program counter, and so has each of the \<open>maxClients\<close> resolver threads. The ring is a
  buffered channel with room for \<open>maxClients\<close> requests, \<open>maxClients > 0\<close>. The response
  channels are unbuffered, so a reply is one joint step of the sender and of the goroutine
  that waits for it. A resolution is as many steps as \<open>syncResolve\<close> has sections under a lock,
  so the threads interleave as in the process. The age check of \<open>resolverThread\<close> depends on
  the clock and is a free choice of the machine.
\<close>

section \<open>State\<close>

type_synonym reply = "jojo_error + msg option \<times> duration"

text \<open>
  \<open>Selecting\<close> is the head of the submission loop, \<open>EvictRecv\<close> the blocking receive of its
  default branch, \<open>EvictSend old\<close> the send of the eviction notice, \<open>WaitReply\<close> the receive
  after the loop.
\<close>

datatype submitter_pc =
    NotStarted
  | Selecting
  | EvictRecv
  | EvictSend nat
  | WaitReply
  | Returned reply

text \<open>
  A resolver thread: at the receive, at the age check of a request, in \<open>syncResolve\<close> at the
  exchange with the server it picked or at a call of \<open>markFailed\<close>, at the send of the reply,
  and after the reply to a request that was too old.
\<close>

datatype thread_pc =
    ThreadIdle
  | Serving nat
  | Exchanging nat string
  | Marking nat string reply
  | Replying nat reply
  | Slipping

fun serves :: "thread_pc \<Rightarrow> nat option" where
  "serves (Serving i) = Some i"
| "serves (Exchanging i a) = Some i"
| "serves (Marking i a rep) = Some i"
| "serves (Replying i rep) = Some i"
| "serves _ = None"

record 'f ring_sys =
  resolverRing :: "nat list"
  submitter :: "nat \<Rightarrow> submitter_pc"
  thread :: "nat \<Rightarrow> thread_pc"
  upstream :: "'f upstream_state"
  slip_count :: uint32

definition ring_init :: "string \<Rightarrow> 'f ring_sys \<Rightarrow> bool" where
  "ring_init str s \<longleftrightarrow> pool_init str (upstream s) \<and> resolverRing s = [] \<and> submitter s = (\<lambda>_. NotStarted) \<and>
     thread s = (\<lambda>_. ThreadIdle)"

section \<open>Steps\<close>

inductive ring_step ::
  "'f float64_ops \<Rightarrow> (nat \<Rightarrow> 'f upstream_cfg) \<Rightarrow> nat \<Rightarrow> (nat \<Rightarrow> msg) \<Rightarrow> 'f ring_sys \<Rightarrow> 'f ring_sys \<Rightarrow> bool"
  for fl :: "'f float64_ops" and cfg :: "nat \<Rightarrow> 'f upstream_cfg" and maxClients :: nat
    and reqs :: "nat \<Rightarrow> msg"
where
  submit: "submitter s i = NotStarted \<Longrightarrow>
     ring_step fl cfg maxClients reqs s (s\<lparr>submitter := (submitter s)(i := Selecting)\<rparr>)"
| enqueue: "submitter s i = Selecting \<Longrightarrow> length (resolverRing s) < maxClients \<Longrightarrow>
     ring_step fl cfg maxClients reqs s
       (s\<lparr>resolverRing := resolverRing s @ [i], submitter := (submitter s)(i := WaitReply)\<rparr>)"
| ring_full: "submitter s i = Selecting \<Longrightarrow> \<not> length (resolverRing s) < maxClients \<Longrightarrow>
     ring_step fl cfg maxClients reqs s (s\<lparr>submitter := (submitter s)(i := EvictRecv)\<rparr>)"
| evict_recv: "submitter s i = EvictRecv \<Longrightarrow> resolverRing s = old # rest \<Longrightarrow>
     ring_step fl cfg maxClients reqs s
       (s\<lparr>resolverRing := rest, submitter := (submitter s)(i := EvictSend old)\<rparr>)"
| evict_send: "submitter s i = EvictSend old \<Longrightarrow> submitter s old = WaitReply \<Longrightarrow>
     ring_step fl cfg maxClients reqs s
       (s\<lparr>submitter := (submitter s)(old := Returned (Inl Evicted), i := Selecting)\<rparr>)"
| thread_recv: "t < maxClients \<Longrightarrow> thread s t = ThreadIdle \<Longrightarrow> resolverRing s = i # rest \<Longrightarrow>
     ring_step fl cfg maxClients reqs s
       (s\<lparr>resolverRing := rest, thread := (thread s)(t := Serving i)\<rparr>)"
| thread_too_old: "t < maxClients \<Longrightarrow> thread s t = Serving i \<Longrightarrow> submitter s i = WaitReply \<Longrightarrow>
     ring_step fl cfg maxClients reqs s
       (s\<lparr>submitter := (submitter s)(i := Returned (Inl RequestTooOld)),
          thread := (thread s)(t := Slipping)\<rparr>)"
| thread_slips: "t < maxClients \<Longrightarrow> thread s t = Slipping \<Longrightarrow>
     ring_step fl cfg maxClients reqs s
       (s\<lparr>thread := (thread s)(t := ThreadIdle), slip_count := slip_count s + 1\<rparr>)"
| thread_picks: "t < maxClients \<Longrightarrow> thread s t = Serving i \<Longrightarrow>
     pickUpstream (cfg_hash (cfg i)) (upstreamServers (upstream s)) (reqs i) = Inr a \<Longrightarrow>
     ring_step fl cfg maxClients reqs s (s\<lparr>thread := (thread s)(t := Exchanging i a)\<rparr>)"
| thread_pick_fails: "t < maxClients \<Longrightarrow> thread s t = Serving i \<Longrightarrow>
     pickUpstream (cfg_hash (cfg i)) (upstreamServers (upstream s)) (reqs i) = Inl e \<Longrightarrow>
     ring_step fl cfg maxClients reqs s (s\<lparr>thread := (thread s)(t := Replying i (Inl e))\<rparr>)"
| thread_exchange_fails: "t < maxClients \<Longrightarrow> thread s t = Exchanging i a \<Longrightarrow>
     ex_err (exchange (cfg i) (reqs i) a) = Some e \<Longrightarrow>
     ring_step fl cfg maxClients reqs s (s\<lparr>thread := (thread s)(t := Marking i a (Inl (ExchangeError e)))\<rparr>)"
| thread_exchanges: "t < maxClients \<Longrightarrow> thread s t = Exchanging i a \<Longrightarrow>
     r = exchange (cfg i) (reqs i) a \<Longrightarrow> ex_err r = None \<Longrightarrow>
     record_rtt fl (ex_rtt r) (upstream s) = (meanRTT, up) \<Longrightarrow>
     ring_step fl cfg maxClients reqs s
       (s\<lparr>upstream := up,
          thread := (thread s)(t := if f_less fl (cfg_maxRTT (cfg i)) meanRTT
                                    then Marking i a (Inr (ex_msg r, ex_rtt r))
                                    else Replying i (Inr (ex_msg r, ex_rtt r)))\<rparr>)"
| thread_marks: "t < maxClients \<Longrightarrow> thread s t = Marking i a rep \<Longrightarrow>
     ring_step fl cfg maxClients reqs s
       (s\<lparr>upstream := markFailed fl (cfg_maxFailures (cfg i)) a (upstream s),
          thread := (thread s)(t := Replying i rep)\<rparr>)"
| thread_reply: "t < maxClients \<Longrightarrow> thread s t = Replying i rep \<Longrightarrow> submitter s i = WaitReply \<Longrightarrow>
     ring_step fl cfg maxClients reqs s
       (s\<lparr>submitter := (submitter s)(i := Returned rep), thread := (thread s)(t := ThreadIdle)\<rparr>)"

inductive_cases ring_stepE: "ring_step fl cfg n reqs s t"

section \<open>The invariant\<close>

text \<open>
  A request is in the hands of the ring, of a thread that serves it or of a goroutine that
  evicts it; a waiting request is in the hands of exactly one of them, and nobody holds a
  request that does not wait.
\<close>

datatype holder = InRing | ByThread nat | ByEvictor nat

definition holds :: "'f ring_sys \<Rightarrow> holder \<Rightarrow> nat \<Rightarrow> bool" where
  "holds s h i = (case h of
      InRing \<Rightarrow> i \<in> set (resolverRing s)
    | ByThread t \<Rightarrow> serves (thread s t) = Some i
    | ByEvictor j \<Rightarrow> submitter s j = EvictSend i)"

definition waiting :: "'f ring_sys \<Rightarrow> nat set" where
  "waiting s = {i. submitter s i = WaitReply}"

definition custody :: "(holder \<Rightarrow> nat \<Rightarrow> bool) \<Rightarrow> nat set \<Rightarrow> bool" where
  "custody H W \<longleftrightarrow> (\<forall>i h. H h i \<longrightarrow> i \<in> W) \<and> (\<forall>i \<in> W. \<exists>!h. H h i)"

definition ring_inv :: "nat \<Rightarrow> 'f ring_sys \<Rightarrow> bool" where
  "ring_inv n s \<longleftrightarrow> length (resolverRing s) \<le> n \<and> distinct (resolverRing s) \<and>
     (\<forall>t. n \<le> t \<longrightarrow> thread s t = ThreadIdle) \<and> custody (holds s) (waiting s)"

text \<open>How custody of requests changes: one more, one handed over, one given up.\<close>

lemma custody_unique: "custody H W \<Longrightarrow> H h i \<Longrightarrow> H h' i \<Longrightarrow> h' = h"
  unfolding custody_def by blast

lemma custody_waiting: "custody H W \<Longrightarrow> H h i \<Longrightarrow> i \<in> W"
  unfolding custody_def by blast

lemma custody_acquire:
  "custody H W \<Longrightarrow> i \<notin> W \<Longrightarrow> (\<And>h' j. H' h' j \<longleftrightarrow> H h' j \<or> (h' = h \<and> j = i)) \<Longrightarrow>
   custody H' (insert i W)"
  unfolding custody_def by (intro conjI) (blast, metis insert_iff)

lemma custody_transfer:
  "custody H W \<Longrightarrow> H h i \<Longrightarrow>
   (\<And>h' j. H' h' j \<longleftrightarrow> (if j = i then h' = h2 else H h' j)) \<Longrightarrow> custody H' W"
  unfolding custody_def by (intro conjI) (metis, metis)

lemma custody_release:
  "custody H W \<Longrightarrow> (\<And>h' j. H' h' j \<longleftrightarrow> j \<noteq> i \<and> H h' j) \<Longrightarrow> custody H' (W - {i})"
  unfolding custody_def by (intro conjI) (blast, metis Diff_iff insertCI)

lemma holds_simps [simp]:
  "holds s InRing i \<longleftrightarrow> i \<in> set (resolverRing s)"
  "holds s (ByThread t) i \<longleftrightarrow> serves (thread s t) = Some i"
  "holds s (ByEvictor j) i \<longleftrightarrow> submitter s j = EvictSend i"
  by (simp_all add: holds_def)

lemma holds_eqI:
  "(i \<in> set (resolverRing s) \<longleftrightarrow> P InRing) \<Longrightarrow> (\<And>t. serves (thread s t) = Some i \<longleftrightarrow> P (ByThread t)) \<Longrightarrow>
   (\<And>j. submitter s j = EvictSend i \<longleftrightarrow> P (ByEvictor j)) \<Longrightarrow> holds s h i \<longleftrightarrow> P h"
  by (cases h) auto

lemma ring_inv_sole_holder:
  "ring_inv n s \<Longrightarrow> holds s h i \<Longrightarrow> holds s h' i \<Longrightarrow> h' = h"
  unfolding ring_inv_def by (blast intro: custody_unique)

lemma ring_inv_holds_waiting:
  "ring_inv n s \<Longrightarrow> holds s h i \<Longrightarrow> submitter s i = WaitReply"
  unfolding ring_inv_def by (auto simp: waiting_def dest: custody_waiting)

text \<open>A thread that moves without giving up its request changes nothing of this.\<close>

lemma ring_inv_thread_moves:
  assumes "ring_inv n s" and "t < n" and "serves pc = serves (thread s t)"
  shows "ring_inv n (s\<lparr>upstream := up, thread := (thread s)(t := pc), slip_count := k\<rparr>)" (is "ring_inv n ?s")
proof -
  have "holds ?s h i \<longleftrightarrow> holds s h i" for h i
    using assms(3) by (cases h) auto
  then have "holds ?s = holds s"
    by blast
  moreover have "waiting ?s = waiting s"
    by (simp add: waiting_def)
  ultimately show ?thesis
    using assms(1,2) by (simp add: ring_inv_def)
qed

lemma ring_inv_not_held:
  assumes "ring_inv n s" and "submitter s i \<in> {NotStarted, Selecting}" and "pc \<in> {Selecting, EvictRecv}"
  shows "ring_inv n (s\<lparr>submitter := (submitter s)(i := pc)\<rparr>)"
proof -
  let ?t = "s\<lparr>submitter := (submitter s)(i := pc)\<rparr>"
  have "holds ?t h j \<longleftrightarrow> holds s h j" for h j
    using assms(2,3) by (cases h) auto
  then have "holds ?t = holds s"
    by blast
  moreover have "waiting ?t = waiting s"
    using assms(2,3) by (auto simp: waiting_def)
  ultimately show ?thesis
    using assms(1) by (simp add: ring_inv_def)
qed

lemma ring_inv_enqueue:
  assumes "ring_inv n s" and "submitter s i = Selecting" and "length (resolverRing s) < n"
  shows "ring_inv n (s\<lparr>resolverRing := resolverRing s @ [i],
                       submitter := (submitter s)(i := WaitReply)\<rparr>)" (is "ring_inv n ?t")
proof -
  have i: "i \<notin> waiting s" "i \<notin> set (resolverRing s)"
    using assms ring_inv_holds_waiting [of n s InRing i] by (auto simp: waiting_def)
  then have "custody (holds ?t) (insert i (waiting s))"
    using assms
    by (intro custody_acquire [of "holds s" "waiting s" i "holds ?t" InRing] holds_eqI)
      (auto simp: ring_inv_def)
  moreover have "waiting ?t = insert i (waiting s)"
    by (auto simp: waiting_def)
  ultimately show ?thesis
    using assms i by (simp add: ring_inv_def)
qed

lemma ring_inv_evict_recv:
  assumes "ring_inv n s" and "submitter s i = EvictRecv" and "resolverRing s = old # rest"
  shows "ring_inv n (s\<lparr>resolverRing := rest, submitter := (submitter s)(i := EvictSend old)\<rparr>)"
    (is "ring_inv n ?t")
proof -
  note sole = ring_inv_sole_holder [OF assms(1), of InRing old, simplified assms(3), simplified]
  have "custody (holds ?t) (waiting s)"
    using assms sole [of "ByThread _"] sole [of "ByEvictor _"]
    by (intro custody_transfer [of "holds s" "waiting s" InRing old "holds ?t" "ByEvictor i"]
        holds_eqI) (auto simp: ring_inv_def)
  moreover have "waiting ?t = waiting s"
    using assms by (auto simp: waiting_def)
  ultimately show ?thesis
    using assms by (simp add: ring_inv_def)
qed

lemma ring_inv_thread_recv:
  assumes "ring_inv n s" and "t < n" and "thread s t = ThreadIdle" and "resolverRing s = i # rest"
  shows "ring_inv n (s\<lparr>resolverRing := rest, thread := (thread s)(t := Serving i)\<rparr>)"
    (is "ring_inv n ?t")
proof -
  note sole = ring_inv_sole_holder [OF assms(1), of InRing i, simplified assms(4), simplified]
  have "custody (holds ?t) (waiting s)"
    using assms sole [of "ByThread _"] sole [of "ByEvictor _"]
    by (intro custody_transfer [of "holds s" "waiting s" InRing i "holds ?t" "ByThread t"]
        holds_eqI) (auto simp: ring_inv_def)
  moreover have "waiting ?t = waiting s"
    by (auto simp: waiting_def)
  ultimately show ?thesis
    using assms by (simp add: ring_inv_def)
qed

text \<open>A reply ends the custody of its request: by an evictor, or by the thread that served it.\<close>

lemma ring_inv_evict_send:
  assumes "ring_inv n s" and "submitter s i = EvictSend old" and "submitter s old = WaitReply"
  shows "ring_inv n (s\<lparr>submitter := (submitter s)(old := Returned r, i := Selecting)\<rparr>)"
    (is "ring_inv n ?t")
proof -
  have sole: "holds s h old \<Longrightarrow> h = ByEvictor i" for h
    using assms ring_inv_sole_holder [of n s "ByEvictor i" old h] by simp
  have old: "old \<notin> set (resolverRing s)" "serves (thread s u) \<noteq> Some old"
    "j \<noteq> i \<Longrightarrow> submitter s j \<noteq> EvictSend old" for u j
    using sole [of InRing] sole [of "ByThread u"] sole [of "ByEvictor j"] assms(2) by auto
  have "holds ?t h j \<longleftrightarrow> j \<noteq> old \<and> holds s h j" for h j
    using assms(2,3) old by (cases h) auto
  then have "custody (holds ?t) (waiting s - {old})"
    using assms(1) by (auto simp: ring_inv_def intro: custody_release)
  moreover have "waiting ?t = waiting s - {old}"
    using assms by (auto simp: waiting_def)
  ultimately show ?thesis
    using assms by (simp add: ring_inv_def)
qed

lemma ring_inv_thread_reply:
  assumes "ring_inv n s" and "t < n" and "serves (thread s t) = Some i" and "submitter s i = WaitReply"
    and "serves pc = None"
  shows "ring_inv n (s\<lparr>submitter := (submitter s)(i := Returned r), thread := (thread s)(t := pc)\<rparr>)"
    (is "ring_inv n ?t")
proof -
  have sole: "holds s h i \<Longrightarrow> h = ByThread t" for h
    using assms ring_inv_sole_holder [of n s "ByThread t" i h] by simp
  have i: "i \<notin> set (resolverRing s)" "u \<noteq> t \<Longrightarrow> serves (thread s u) \<noteq> Some i"
    "submitter s j \<noteq> EvictSend i" for u j
    using sole [of InRing] sole [of "ByThread u"] sole [of "ByEvictor j"] assms(3) by auto
  have "holds ?t h j \<longleftrightarrow> j \<noteq> i \<and> holds s h j" for h j
    using assms(3-5) i by (cases h) auto
  then have "custody (holds ?t) (waiting s - {i})"
    using assms(1) by (auto simp: ring_inv_def intro: custody_release)
  moreover have "waiting ?t = waiting s - {i}"
    by (auto simp: waiting_def)
  ultimately show ?thesis
    using assms by (simp add: ring_inv_def)
qed

lemma ring_step_inv: "ring_step fl cfg n reqs s t \<Longrightarrow> ring_inv n s \<Longrightarrow> ring_inv n t"
proof (induction rule: ring_step.induct)
  case (thread_slips t s)
  then show ?case
    using ring_inv_thread_moves [of n s t ThreadIdle _ "upstream s"] by simp
next
  case (thread_exchanges t s i a r meanRTT up)
  then show ?case
    using ring_inv_thread_moves [of n s t "Marking i a (Inr (ex_msg r, ex_rtt r))" "slip_count s" up]
      ring_inv_thread_moves [of n s t "Replying i (Inr (ex_msg r, ex_rtt r))" "slip_count s" up]
    by simp
next
  case (thread_marks t s i a rep)
  then show ?case
    using ring_inv_thread_moves [of n s t "Replying i rep" "slip_count s"]
    by simp
qed (simp_all add: ring_inv_not_held ring_inv_enqueue ring_inv_evict_recv ring_inv_thread_recv
    ring_inv_evict_send ring_inv_thread_reply ring_inv_thread_moves [where up = "upstream s" and k = "slip_count s" and s = s for s, simplified])

lemma ring_inv_init: "ring_init str s \<Longrightarrow> ring_inv n s"
  by (auto simp: ring_init_def ring_inv_def custody_def waiting_def holds_def split: holder.splits)

interpretation ring: inductive_invariant "ring_init str" "ring_step fl cfg n reqs" "ring_inv n"
  by unfold_locales (fact ring_inv_init, fact ring_step_inv)

text \<open>One configuration of the pool, with the exchanges of each request.\<close>

definition with_net ::
  "'f upstream_cfg \<Rightarrow> (nat \<Rightarrow> msg \<Rightarrow> string \<Rightarrow> exchange_result) \<Rightarrow> (nat \<Rightarrow> msg \<Rightarrow> string \<Rightarrow> exchange_result)
   \<Rightarrow> nat \<Rightarrow> 'f upstream_cfg" where
  "with_net cfg udp tcp i = cfg\<lparr>udpExchange := udp i, tcpExchange := tcp i\<rparr>"

interpretation ring_pool: refinement "ring_init str" "ring_step fl (with_net cfg udp tcp) n reqs"
  "pool_init str" "pool_step fl (cfg_maxFailures cfg) (cfg_maxRTT cfg)" upstream
proof (unfold_locales, goal_cases)
  case (1 s)
  then show ?case
    by (simp add: ring_init_def)
next
  case (2 s t)
  then show ?case
  proof (induction rule: ring_step.induct)
    case (thread_exchanges t s i a r meanRTT up)
    then show ?case
      using pool_step.rtt_step [of fl _ _ "upstream s" "ex_rtt r"] by simp
  next
    case (thread_marks t s i a rep)
    then show ?case
      by (simp add: pool_step.mark_step with_net_def)
  qed simp_all
qed

section \<open>Replies are always possible\<close>

definition can_return ::
  "'f float64_ops \<Rightarrow> (nat \<Rightarrow> 'f upstream_cfg) \<Rightarrow> nat \<Rightarrow> (nat \<Rightarrow> msg) \<Rightarrow> 'f ring_sys \<Rightarrow> nat \<Rightarrow> bool" where
  "can_return fl cfg n reqs s i \<longleftrightarrow>
     (\<exists>s' r. (ring_step fl cfg n reqs)\<^sup>*\<^sup>* s s' \<and> submitter s' i = Returned r)"

lemma can_return_step:
  "ring_step fl cfg n reqs s s' \<Longrightarrow> submitter s' i = Returned r \<Longrightarrow> can_return fl cfg n reqs s i"
  unfolding can_return_def by blast

lemma can_return_path:
  "(ring_step fl cfg n reqs)\<^sup>*\<^sup>* s s' \<Longrightarrow> can_return fl cfg n reqs s' i \<Longrightarrow> can_return fl cfg n reqs s i"
  unfolding can_return_def by (meson rtranclp_trans)

text \<open>
  A thread that no other disturbs resolves its request as \<open>syncResolve\<close> does, from the age
  check or from the exchange on.
\<close>

lemma marking_resolves:
  assumes "t < n" and "thread s t = Marking i a rep"
  shows "(ring_step fl cfg n reqs)\<^sup>*\<^sup>* s
    (s\<lparr>upstream := markFailed fl (cfg_maxFailures (cfg i)) a (upstream s), thread := (thread s)(t := Replying i rep)\<rparr>)"
  by (rule r_into_rtranclp, rule ring_step.thread_marks) (fact assms)+

lemma exchanging_resolves:
  assumes "t < n" and "thread s t = Exchanging i a" and "resolve_at fl (cfg i) (reqs i) a (upstream s) = (res, up)"
  shows "(ring_step fl cfg n reqs)\<^sup>*\<^sup>* s (s\<lparr>upstream := up, thread := (thread s)(t := Replying i res)\<rparr>)"
proof (cases "ex_err (exchange (cfg i) (reqs i) a)")
  case None
  let ?r = "exchange (cfg i) (reqs i) a"
  obtain mean up1 where rtt: "record_rtt fl (ex_rtt ?r) (upstream s) = (mean, up1)"
    by fastforce
  let ?s = "\<lambda>pc. s\<lparr>upstream := up1, thread := (thread s)(t := pc)\<rparr>" and ?rep = "Inr (ex_msg ?r, ex_rtt ?r)"
  have step: "ring_step fl cfg n reqs s
      (?s (if f_less fl (cfg_maxRTT (cfg i)) mean then Marking i a ?rep else Replying i ?rep))"
    by (rule ring_step.thread_exchanges) (fact assms(1,2) refl None rtt)+
  have res: "res = ?rep" "up = (if f_less fl (cfg_maxRTT (cfg i)) mean then markFailed fl (cfg_maxFailures (cfg i)) a up1 else up1)"
    using assms(3) None rtt by (simp_all add: resolve_at_def Let_def)
  show ?thesis
  proof (cases "f_less fl (cfg_maxRTT (cfg i)) mean")
    case True
    have "(ring_step fl cfg n reqs)\<^sup>*\<^sup>* (?s (Marking i a ?rep)) (s\<lparr>upstream := up, thread := (thread s)(t := Replying i res)\<rparr>)"
      using marking_resolves [of t n "?s (Marking i a ?rep)" i a ?rep fl cfg reqs] assms(1) True by (simp add: res)
    with step True show ?thesis
      by (simp add: converse_rtranclp_into_rtranclp)
  qed (use step res in \<open>simp add: r_into_rtranclp\<close>)
next
  case (Some e)
  let ?s = "s\<lparr>thread := (thread s)(t := Marking i a (Inl (ExchangeError e)))\<rparr>"
  have step: "ring_step fl cfg n reqs s ?s"
    by (rule ring_step.thread_exchange_fails) (fact assms(1,2) Some)+
  have res: "res = Inl (ExchangeError e)" "up = markFailed fl (cfg_maxFailures (cfg i)) a (upstream s)"
    using assms(3) Some by (simp_all add: resolve_at_def Let_def)
  have "(ring_step fl cfg n reqs)\<^sup>*\<^sup>* ?s (s\<lparr>upstream := up, thread := (thread s)(t := Replying i res)\<rparr>)"
    using marking_resolves [of t n ?s i a "Inl (ExchangeError e)" fl cfg reqs] assms(1) by (simp add: res)
  with step show ?thesis
    by (rule converse_rtranclp_into_rtranclp)
qed

lemma thread_resolves:
  assumes "t < n" and "thread s t = Serving i" and "syncResolve fl (cfg i) (reqs i) (upstream s) = (res, up)"
  shows "(ring_step fl cfg n reqs)\<^sup>*\<^sup>* s (s\<lparr>upstream := up, thread := (thread s)(t := Replying i res)\<rparr>)"
proof (cases "pickUpstream (cfg_hash (cfg i)) (upstreamServers (upstream s)) (reqs i)")
  case (Inl e)
  have "ring_step fl cfg n reqs s (s\<lparr>thread := (thread s)(t := Replying i (Inl e))\<rparr>)"
    by (rule ring_step.thread_pick_fails) (fact assms(1,2) Inl)+
  moreover have "res = Inl e" "up = upstream s"
    using assms(3) Inl by (simp_all add: syncResolve_def)
  ultimately show ?thesis
    by simp
next
  case (Inr a)
  let ?s = "s\<lparr>thread := (thread s)(t := Exchanging i a)\<rparr>"
  have "ring_step fl cfg n reqs s ?s"
    by (rule ring_step.thread_picks) (fact assms(1,2) Inr)+
  then show ?thesis
    using exchanging_resolves [of t n ?s i a fl cfg reqs res up] assms(1,3) Inr
    by (simp add: syncResolve_def converse_rtranclp_into_rtranclp)
qed

lemma serving_to_reply:
  assumes "t < n" and "serves (thread s t) = Some i"
  shows "\<exists>up rep. (ring_step fl cfg n reqs)\<^sup>*\<^sup>* s (s\<lparr>upstream := up, thread := (thread s)(t := Replying i rep)\<rparr>)"
proof (cases "thread s t")
  case (Serving j)
  with assms show ?thesis
    using thread_resolves [of t n s i fl cfg reqs] by (metis option.inject prod.collapse serves.simps(1))
next
  case (Exchanging j a)
  with assms show ?thesis
    using exchanging_resolves [of t n s i a fl cfg reqs] by (metis option.inject prod.collapse serves.simps(2))
next
  case (Marking j a rep)
  with assms show ?thesis
    using marking_resolves [of t n s i a rep fl cfg reqs] by auto
next
  case (Replying j rep)
  then have "s\<lparr>upstream := upstream s, thread := (thread s)(t := Replying i rep)\<rparr> = s"
    using assms(2) by (simp add: fun_upd_idem)
  then show ?thesis
    by (metis rtranclp.rtrancl_refl)
qed (use assms(2) in simp_all)

lemma thread_can_answer:
  assumes "ring_inv n s" and "serves (thread s t) = Some i"
  obtains s' r where "(ring_step fl cfg n reqs)\<^sup>*\<^sup>* s s'" "submitter s' i = Returned r"
    "thread s' t = ThreadIdle" "resolverRing s' = resolverRing s"
proof -
  have w: "submitter s i = WaitReply" and t: "t < n"
    using assms ring_inv_holds_waiting [of n s "ByThread t" i]
    by (simp, metis not_less option.distinct(1) ring_inv_def serves.simps(5))
  obtain up rep where path: "(ring_step fl cfg n reqs)\<^sup>*\<^sup>* s (s\<lparr>upstream := up, thread := (thread s)(t := Replying i rep)\<rparr>)"
    (is "rtranclp _ _ ?s")
    using serving_to_reply [OF t assms(2), of fl cfg reqs] by blast
  let ?s' = "?s\<lparr>submitter := (submitter ?s)(i := Returned rep), thread := (thread ?s)(t := ThreadIdle)\<rparr>"
  have "ring_step fl cfg n reqs ?s ?s'"
    by (rule ring_step.thread_reply) (simp_all add: w t)
  with path have "(ring_step fl cfg n reqs)\<^sup>*\<^sup>* s ?s'"
    by (rule rtranclp.rtrancl_into_rtrancl)
  then show ?thesis
    by (rule that) simp_all
qed

text \<open>The head of the ring can always be taken: thread 0 ends what it does, then receives.\<close>

lemma head_can_be_served:
  assumes "ring_inv n s" and "resolverRing s = i # rest"
  obtains s' where "(ring_step fl cfg n reqs)\<^sup>*\<^sup>* s s'" "ring_inv n s'" "thread s' 0 = Serving i"
    "resolverRing s' = rest"
proof -
  have n: "0 < n"
    using assms by (auto simp: ring_inv_def)
  obtain s1 where s1: "(ring_step fl cfg n reqs)\<^sup>*\<^sup>* s s1" "thread s1 0 = ThreadIdle"
    "resolverRing s1 = i # rest"
  proof (cases "serves (thread s 0)")
    case (Some k)
    show thesis
      by (rule thread_can_answer [OF assms(1) Some, of fl cfg reqs], rule that) (simp_all add: assms(2))
  next
    case None
    then consider "thread s 0 = ThreadIdle" | "thread s 0 = Slipping"
      by (cases "thread s 0") auto
    then show thesis
    proof cases
      case 2
      then show thesis
        using ring_step.thread_slips [of 0 n s fl cfg reqs] n assms(2)
        by (intro that [of "s\<lparr>thread := (thread s)(0 := ThreadIdle), slip_count := slip_count s + 1\<rparr>"]) auto
    qed (use assms(2) that in auto)
  qed
  let ?s2 = "s1\<lparr>resolverRing := rest, thread := (thread s1)(0 := Serving i)\<rparr>"
  have "ring_step fl cfg n reqs s1 ?s2"
    by (rule ring_step.thread_recv [OF n s1(2,3)])
  with s1(1) have "(ring_step fl cfg n reqs)\<^sup>*\<^sup>* s ?s2"
    by simp
  then show ?thesis
    using ring.inv_path [OF _ assms(1)] by (intro that [of ?s2]) auto
qed

lemma served_can_return:
  "ring_inv n s \<Longrightarrow> serves (thread s t) = Some i \<Longrightarrow> can_return fl cfg n reqs s i"
  by (rule thread_can_answer [of n s t i fl cfg reqs]) (auto simp: can_return_def)

lemma queued_can_return:
  "ring_inv n s \<Longrightarrow> resolverRing s = pre @ i # post \<Longrightarrow> can_return fl cfg n reqs s i"
proof (induction pre arbitrary: s)
  case Nil
  then obtain s' where "(ring_step fl cfg n reqs)\<^sup>*\<^sup>* s s'" "ring_inv n s'" "thread s' 0 = Serving i"
    using head_can_be_served [of n s i post fl cfg reqs] by auto
  then show ?case
    using served_can_return [of n s' 0 i fl cfg reqs] by (auto intro: can_return_path)
next
  case (Cons k pre)
  then obtain s' where "(ring_step fl cfg n reqs)\<^sup>*\<^sup>* s s'" "ring_inv n s'"
    "resolverRing s' = pre @ i # post"
    using head_can_be_served [of n s k "pre @ i # post" fl cfg reqs] by auto
  then show ?case
    using Cons.IH by (blast intro: can_return_path)
qed

lemma evicted_can_return:
  assumes "ring_inv n s" and "submitter s j = EvictSend i"
  shows "can_return fl cfg n reqs s i"
proof -
  have w: "submitter s i = WaitReply"
    using assms ring_inv_holds_waiting [of n s "ByEvictor j" i] by simp
  with assms(2) have "i \<noteq> j"
    by auto
  then show ?thesis
    by (intro can_return_step [OF ring_step.evict_send [OF assms(2) w]]) simp
qed

section \<open>Properties\<close>

text \<open>
  (C3) In every reachable state of the queue, the ring holds at most \<open>maxClients\<close> requests,
  and a goroutine that waits for a reply has its request in exactly one place: queued in the
  ring, being served by one resolver thread, or taken by one goroutine that evicts it. No
  request is lost, answered twice or served by two threads.
\<close>

theorem ring_custody:
  assumes "reach (ring_init str) (ring_step fl cfg maxClients reqs) s"
    and "submitter s i = WaitReply"
  shows "length (resolverRing s) \<le> maxClients \<and> distinct (resolverRing s) \<and> (\<exists>!h. holds s h i)"
  using ring.inv_reach [OF assms(1)] assms(2) by (auto simp: ring_inv_def custody_def waiting_def)

text \<open>
  (C7) A goroutine that waits for a reply is never left without one: from every reachable
  state the steps of the machine can lead to a state in which it has returned, whatever the
  load and the upstream answers.
\<close>

theorem ring_can_return:
  assumes "reach (ring_init str) (ring_step fl cfg maxClients reqs) s"
    and "submitter s i = WaitReply"
  shows "\<exists>s' r. (ring_step fl cfg maxClients reqs)\<^sup>*\<^sup>* s s' \<and> submitter s' i = Returned r"
proof -
  have inv: "ring_inv maxClients s"
    using assms(1) by (rule ring.inv_reach)
  then obtain h where "holds s h i"
    using assms(2) by (auto simp: ring_inv_def custody_def waiting_def)
  with inv have "can_return fl cfg maxClients reqs s i"
    by (cases h)
      (auto dest!: split_list intro: queued_can_return served_can_return evicted_can_return)
  then show ?thesis
    by (simp add: can_return_def)
qed

definition start_sys :: "'f upstream_state \<Rightarrow> 'f ring_sys" where
  "start_sys up = \<lparr>resolverRing = [], submitter = (\<lambda>_. NotStarted), thread = (\<lambda>_. ThreadIdle),
     upstream = up, slip_count = 0\<rparr>"

definition queued_sys :: "'f upstream_state \<Rightarrow> 'f ring_sys" where
  "queued_sys up = (start_sys up)\<lparr>resolverRing := [0],
     submitter := (\<lambda>_. NotStarted)(0 := WaitReply)\<rparr>"

definition blocked_sys :: "'f upstream_state \<Rightarrow> 'f ring_sys" where
  "blocked_sys up = (start_sys up)\<lparr>slip_count := 1,
     submitter := (\<lambda>_. NotStarted)(0 := Returned (Inl RequestTooOld), 1 := EvictRecv)\<rparr>"

lemma queued_sys_reach:
  assumes "pool_init str up" and "0 < n"
  shows "reach (ring_init str) (ring_step fl cfg n reqs) (queued_sys up)"
proof -
  let ?R = "ring_step fl cfg n reqs" and ?s0 = "start_sys up"
  define s1 where "s1 = ?s0\<lparr>submitter := (submitter ?s0)(0 := Selecting)\<rparr>"
  define s2 where "s2 = s1\<lparr>resolverRing := resolverRing s1 @ [0], submitter := (submitter s1)(0 := WaitReply)\<rparr>"
  have "?R ?s0 s1"
    unfolding s1_def by (rule ring_step.submit) (simp add: start_sys_def)
  moreover have "?R s1 s2"
    unfolding s2_def by (rule ring_step.enqueue) (simp_all add: s1_def start_sys_def assms)
  moreover have "reach (ring_init str) ?R ?s0"
    by (rule reach_init) (simp add: ring_init_def start_sys_def assms)
  moreover have "s2 = queued_sys up"
    by (simp add: s2_def s1_def queued_sys_def start_sys_def)
  ultimately show ?thesis
    by (metis reach_step)
qed

lemma blocked_sys_reach:
  assumes "pool_init str up"
  shows "reach (ring_init str) (ring_step fl cfg 1 reqs) (blocked_sys up)"
proof -
  let ?R = "ring_step fl cfg 1 reqs" and ?s0 = "queued_sys up"
  define s1 where "s1 = ?s0\<lparr>submitter := (submitter ?s0)(1 := Selecting)\<rparr>"
  define s2 where "s2 = s1\<lparr>submitter := (submitter s1)(1 := EvictRecv)\<rparr>"
  define s3 where "s3 = s2\<lparr>resolverRing := [], thread := (thread s2)(0 := Serving 0)\<rparr>"
  define s4 where "s4 = s3\<lparr>submitter := (submitter s3)(0 := Returned (Inl RequestTooOld)),
          thread := (thread s3)(0 := Slipping)\<rparr>"
  define s5 where "s5 = s4\<lparr>thread := (thread s4)(0 := ThreadIdle), slip_count := slip_count s4 + 1\<rparr>"
  note defs = s4_def s3_def s2_def s1_def queued_sys_def start_sys_def
  have r1: "?R ?s0 s1"
    unfolding s1_def by (rule ring_step.submit) (simp add: defs)
  have r2: "?R s1 s2"
    unfolding s2_def by (rule ring_step.ring_full) (simp_all add: defs)
  have r3: "?R s2 s3"
    unfolding s3_def by (rule ring_step.thread_recv [where i = 0]) (simp_all add: defs)
  have r4: "?R s3 s4"
    unfolding s4_def by (rule ring_step.thread_too_old) (simp_all add: s3_def s2_def s1_def queued_sys_def start_sys_def)
  have r5: "?R s4 s5"
    unfolding s5_def by (rule ring_step.thread_slips) (simp_all add: defs)
  have "s5 = blocked_sys up"
    by (auto simp: s5_def defs blocked_sys_def fun_eq_iff)
  moreover have "?R\<^sup>*\<^sup>* ?s0 s5"
    using r1 r2 r3 r4 r5 by (meson converse_rtranclp_into_rtranclp rtranclp.rtrancl_refl)
  moreover have "reach (ring_init str) ?R ?s0"
    by (rule queued_sys_reach) (simp_all add: assms)
  ultimately show ?thesis
    by (metis reach_path)
qed

lemma blocked_sys_steps:
  "ring_step fl cfg 1 reqs (blocked_sys up) t \<longleftrightarrow>
   (\<exists>i. submitter (blocked_sys up) i = NotStarted \<and>
        t = (blocked_sys up)\<lparr>submitter := (submitter (blocked_sys up))(i := Selecting)\<rparr>)"
proof
  assume "ring_step fl cfg 1 reqs (blocked_sys up) t"
  then show "\<exists>i. submitter (blocked_sys up) i = NotStarted \<and>
        t = (blocked_sys up)\<lparr>submitter := (submitter (blocked_sys up))(i := Selecting)\<rparr>"
    by (rule ring_stepE) (auto simp: blocked_sys_def start_sys_def split: if_splits)
qed (auto intro: ring_step.submit)

text \<open>
  (C31) The eviction of \<open>resolveViaResolverThreads\<close> can block. With room for one request,
  request 1 finds the ring full, and before its blocking receive runs the thread takes and
  answers request 0. Request 1 then waits at the receive of an empty ring although every
  resolver thread is idle, and no step of the machine is possible but the arrival of another
  request, which request 1 will then evict.
\<close>

theorem evictor_blocks_on_empty_ring:
  "\<exists>s. reach (ring_init str) (ring_step fl cfg 1 reqs) s \<and>
     submitter s 1 = EvictRecv \<and> resolverRing s = [] \<and> thread s = (\<lambda>_. ThreadIdle) \<and>
     {t. ring_step fl cfg 1 reqs s t} =
       {s\<lparr>submitter := (submitter s)(i := Selecting)\<rparr> | i. submitter s i = NotStarted}"
proof -
  obtain up :: "'a upstream_state" where up: "pool_init str up"
    unfolding pool_init_def by (metis upstream_state.select_convs(1))
  have "submitter (blocked_sys up) 1 = EvictRecv" "resolverRing (blocked_sys up) = []"
    "thread (blocked_sys up) = (\<lambda>_. ThreadIdle)"
    by (simp_all add: blocked_sys_def start_sys_def)
  moreover have "{t. ring_step fl cfg 1 reqs (blocked_sys up) t} =
      {(blocked_sys up)\<lparr>submitter := (submitter (blocked_sys up))(i := Selecting)\<rparr> | i.
        submitter (blocked_sys up) i = NotStarted}"
    unfolding blocked_sys_steps by blast
  ultimately show ?thesis
    using blocked_sys_reach [OF up, of fl cfg reqs] by blast
qed



text \<open>Witnesses: one server, which times out, and one request in a ring with room for two.\<close>

definition sample_pool :: "rat upstream_state" where
  "sample_pool = \<lparr>upstreamServers = parseUpstreamServers ''a'', upstreamRtt = \<lparr>RTT = 0, count = 0\<rparr>\<rparr>"

definition sample_cfg :: "rat upstream_cfg" where
  "sample_cfg = \<lparr>cfg_hash = (\<lambda>_. 0), cfg_maxFailures = 1, cfg_maxRTT = 1,
     udpExchange = (\<lambda>_ _. \<lparr>ex_msg = None, ex_rtt = 0, ex_err = Some ''timeout''\<rparr>),
     tcpExchange = (\<lambda>_ _. \<lparr>ex_msg = None, ex_rtt = 0, ex_err = Some ''timeout''\<rparr>)\<rparr>"

lemma sample_queued_reach:
  "reach (ring_init ''a'') (ring_step rat_ops cfg 2 (\<lambda>_. new_msg)) (queued_sys sample_pool)"
  by (rule queued_sys_reach) (simp_all add: pool_init_def sample_pool_def)

lemma queued_sys_waits: "submitter (queued_sys up) 0 = WaitReply"
  by (simp add: queued_sys_def)

theorem ring_custody_witness:
  "length (resolverRing (queued_sys sample_pool)) \<le> 2 \<and> (\<exists>!h. holds (queued_sys sample_pool) h 0)"
  using ring_custody [OF sample_queued_reach queued_sys_waits] by blast

theorem ring_can_return_witness:
  "\<exists>s' r. (ring_step rat_ops (\<lambda>_. sample_cfg) 2 (\<lambda>_. new_msg))\<^sup>*\<^sup>* (queued_sys sample_pool) s' \<and>
     submitter s' 0 = Returned r"
  by (rule ring_can_return [OF sample_queued_reach queued_sys_waits])


end
