(* ===== verification/Jojo_Route.thy ===== *)
theory Jojo_Route
  imports Jojo_Ring
begin

text \<open>
  The request handler of jojo (\<open>route\<close> of \<open>src/jojo/jojo.go\<close>) with what it calls: local
  records and refused ANY queries, the response cache, the slipping of queries under load,
  the resolution of a miss, the size limit of a reply; and the start-up and housekeeping of
  the process.

  A handler run is a function of the request, of the state it finds and of what it reads
  from outside: the transport of the client, the two readings of the clock and what the
  resolver threads reply. The cache is \<open>lru.ARCCache\<close> of \<open>hashicorp/golang-lru\<close>, a
  parameter: a record of its operations on a state of type \<open>'c\<close>. Times are nanoseconds.
\<close>

section \<open>State and parameters\<close>

record cache_val =
  ValidUntil :: int
  cached_Response :: msg

record local_rr =
  local_Name :: string
  local_RR :: rr

record 'c cache_ops =
  cache_Get :: "cache_key \<Rightarrow> 'c \<Rightarrow> cache_val option \<times> 'c"
  cache_Add :: "cache_key \<Rightarrow> cache_val \<Rightarrow> 'c \<Rightarrow> 'c"
  cache_Purge :: "'c \<Rightarrow> 'c"

record 'c jojo_cfg =
  cfg_lib :: dns_lib
  cfg_cache :: "'c cache_ops"
  minLabelsCount :: int
  localRRS :: "local_rr list"

record 'c jojo_state =
  cache :: 'c
  slip :: uint32

record route_env =
  isTCP :: bool
  now_lookup :: int
  now_store :: int
  ring_reply :: "msg \<Rightarrow> reply"

text \<open>What a handler does with its \<open>dns.ResponseWriter\<close>.\<close>

datatype write_event = WriteMsg msg | HandleFailed msg | CloseConn

section \<open>Operations\<close>

definition resolve :: "dns_lib \<Rightarrow> (msg \<Rightarrow> reply) \<Rightarrow> msg \<Rightarrow> bool \<Rightarrow> (jojo_error + msg) \<times> msg" where
  "resolve lib ring req dnssec =
     (let req = req\<lparr>Extra := filter (\<lambda>extra. Rrtype (rr_hdr extra) \<noteq> TypeOPT) (Extra req)\<rparr>;
          req = SetEdns0 lib DefaultMsgSize dnssec req
      in (case ring req of
            Inl e \<Rightarrow> Inl e
          | Inr (None, _) \<Rightarrow> Inl Panic
          | Inr (Some resolved, _) \<Rightarrow> Inr (resolved\<lparr>Compress := True\<rparr>), req))"

definition sendTruncated :: "bool \<Rightarrow> msg_hdr \<Rightarrow> write_event" where
  "sendTruncated tcp msgHdr =
     (let emptyResp = new_msg\<lparr>MsgHdr := msgHdr\<lparr>Response := True\<rparr>\<rparr>
      in if tcp then HandleFailed emptyResp
         else WriteMsg (emptyResp\<lparr>MsgHdr := (MsgHdr emptyResp)\<lparr>Truncated := True\<rparr>\<rparr>))"

definition failWithRcode :: "dns_lib \<Rightarrow> msg \<Rightarrow> int \<Rightarrow> write_event" where
  "failWithRcode lib r rCode = WriteMsg (SetRcode lib r rCode)"

definition special_reply :: "msg \<Rightarrow> rr \<Rightarrow> write_event" where
  "special_reply req r =
     WriteMsg (new_msg\<lparr>MsgHdr := (MsgHdr new_msg)\<lparr>Id := Id (MsgHdr req), Response := True\<rparr>,
                       Answer := [r]\<rparr>)"

text \<open>\<open>None\<close> is the result false: nothing was written.\<close>

definition handleSpecialNames :: "local_rr list \<Rightarrow> msg \<Rightarrow> jojo_error + write_event option" where
  "handleSpecialNames rrs req =
     (case go_index (Question req) 0 of
        None \<Rightarrow> Inl Panic
      | Some question \<Rightarrow>
          let nameLC = ToLower (q_Name question)
          in (case find (\<lambda>localRR. nameLC = local_Name localRR) rrs of
                Some localRR \<Rightarrow> Inr (Some (special_reply req (local_RR localRR)))
              | None \<Rightarrow>
                  if Qtype question \<noteq> TypeANY then Inr None
                  else Inr (Some (special_reply req
                    (HINFO \<lparr>hdr_Name = q_Name question, Rrtype = TypeHINFO, hdr_Class = ClassINET,
                             Ttl = 86400\<rparr>
                       ''ANY is not supported any more'' ''See draft-jabley-dnsop-refuse-any'')))))"

definition answer_from :: "cache_val \<Rightarrow> msg \<Rightarrow> msg" where
  "answer_from v req =
     (cached_Response v)\<lparr>MsgHdr := (MsgHdr (cached_Response v))\<lparr>Id := Id (MsgHdr req)\<rparr>,
                        Question := Question req\<rparr>"

definition send_limited :: "dns_lib \<Rightarrow> bool \<Rightarrow> uint16 \<Rightarrow> msg \<Rightarrow> write_event" where
  "send_limited lib tcp maxPayloadSize resp =
     (if (of_nat (PackLen lib resp) :: uint16) > maxPayloadSize
      then sendTruncated tcp (MsgHdr resp) else WriteMsg resp)"

text \<open>Whether a miss is dropped: the counter is positive and even.\<close>

definition slips :: "uint32 \<Rightarrow> bool" where
  "slips slipValue \<longleftrightarrow> slipValue > 0 \<and> slipValue mod 2 = 0"

text \<open>
  The part of \<open>route\<close> for a query that no fresh entry answers: the slip check, the
  resolution, and the fallback to an expired entry \<open>cacheVal\<close> when it fails.
\<close>

definition route_miss ::
  "'c jojo_cfg \<Rightarrow> route_env \<Rightarrow> msg \<Rightarrow> cache_key \<Rightarrow> cache_val option \<Rightarrow> 'c jojo_state
   \<Rightarrow> (jojo_error + write_event) \<times> 'c jojo_state" where
  "route_miss cfg env req key cacheVal s =
     (let send = (\<lambda>resp. Inr (send_limited (cfg_lib cfg) (isTCP env)
                               (getMaxPayloadSize (cfg_lib cfg) req) resp))
      in if slips (slip s)
         then (Inr (if slip s mod 4 = 0 then sendTruncated (isTCP env) (MsgHdr req) else CloseConn),
               s\<lparr>slip := slip s + 1\<rparr>)
         else (case resolve (cfg_lib cfg) (ring_reply env) req (DNSSEC key) of
                 (Inr resp, _) \<Rightarrow>
                   (send resp,
                    s\<lparr>cache := cache_Add (cfg_cache cfg) key
                        \<lparr>ValidUntil = now_store env + getMinTTL resp,
                         cached_Response = resp\<rparr> (cache s)\<rparr>)
               | (Inl e, req) \<Rightarrow>
                   if e = Panic then (Inl Panic, s)
                   else (case cacheVal of
                           None \<Rightarrow> (Inr CloseConn, s)
                         | Some v \<Rightarrow> (send (answer_from v req), s))))"

definition route ::
  "'c jojo_cfg \<Rightarrow> route_env \<Rightarrow> msg \<Rightarrow> 'c jojo_state \<Rightarrow> (jojo_error + write_event) \<times> 'c jojo_state" where
  "route cfg env req s =
     (case getKey (cfg_lib cfg) (minLabelsCount cfg) req of
        Inl e \<Rightarrow> (if e = Panic then Inl Panic
                  else Inr (failWithRcode (cfg_lib cfg) req RcodeRefused), s)
      | Inr key \<Rightarrow>
          (case handleSpecialNames (localRRS cfg) req of
             Inl e \<Rightarrow> (Inl e, s)
           | Inr (Some ev) \<Rightarrow> (Inr ev, s)
           | Inr None \<Rightarrow>
               let (cacheVal, c) = cache_Get (cfg_cache cfg) key (cache s);
                   s = s\<lparr>cache := c\<rparr>;
                   resp = (case cacheVal of
                             Some v \<Rightarrow> if ValidUntil v - now_lookup env > 0
                                       then Some (answer_from v req) else None
                           | None \<Rightarrow> None)
               in (case resp of
                     Some resp \<Rightarrow>
                       (Inr (send_limited (cfg_lib cfg) (isTCP env)
                               (getMaxPayloadSize (cfg_lib cfg) req) resp), s)
                   | None \<Rightarrow> route_miss cfg env req key cacheVal s)))"

section \<open>Start-up and housekeeping\<close>

text \<open>
  \<open>parseLocalRRSFile\<close> over the lines that \<open>bufio.Scanner\<close> returns; \<open>dns.NewRR\<close> is the
  argument \<open>NewRR\<close> and gives an error, no record (an empty line or a comment) or a record.
  \<open>log.Fatal\<close> ends the process, here with the error.
\<close>

fun local_rrs_loop ::
  "(string \<Rightarrow> string + rr option) \<Rightarrow> local_rr list \<Rightarrow> string list \<Rightarrow> string + local_rr list" where
  "local_rrs_loop NewRR acc [] = Inr acc"
| "local_rrs_loop NewRR acc (l # ls) =
     (case NewRR l of
        Inl e \<Rightarrow> Inl (''failed to parse RR: '' @ e)
      | Inr None \<Rightarrow> local_rrs_loop NewRR acc ls
      | Inr (Some r) \<Rightarrow>
          local_rrs_loop NewRR
            (acc @ [\<lparr>local_Name = ToLower (hdr_Name (rr_hdr r)), local_RR = r\<rparr>]) ls)"

definition parseLocalRRSFile ::
  "(string \<Rightarrow> string + rr option) \<Rightarrow> (string \<Rightarrow> string + string list) \<Rightarrow> string \<Rightarrow> local_rr list
   \<Rightarrow> string + local_rr list" where
  "parseLocalRRSFile NewRR open_lines file rrs =
     (if file = [] then Inr rrs
      else case open_lines file of
             Inl e \<Rightarrow> Inl e
           | Inr ls \<Rightarrow> local_rrs_loop NewRR [] ls)"

text \<open>\<open>randUint64\<close>: what \<open>rand.Read\<close> filled, how many bytes, and whether it failed.\<close>

definition randUint64 :: "byte list \<Rightarrow> nat \<Rightarrow> bool \<Rightarrow> string + uint64" where
  "randUint64 buf len err =
     (if err \<or> len \<noteq> length buf then Inl ''RNG failure''
      else Inr (foldr (\<lambda>b acc. acc * 256 + ucast b) buf 0))"

text \<open>
  \<open>main\<close> up to the registration of the handler: the flags it reads, the local records, the
  cache of the given size, the pool, the two halves of the hash key, the timeout of an exchange
  (the float that is then converted to a duration) and the first probe of the pool.
\<close>

record ('c, 'f) main_env =
  flag_memSize :: uint64
  flag_cacheSize :: int
  flag_localRRSFile :: string
  flag_upstream :: string
  flag_maxRTT :: 'f
  rand_Read :: "nat \<Rightarrow> byte list \<times> nat \<times> bool"
  NewARC :: "int \<Rightarrow> 'c"
  main_NewRR :: "string \<Rightarrow> string + rr option"
  main_open :: "string \<Rightarrow> string + string list"
  first_probe :: "nat \<Rightarrow> string \<Rightarrow> exchange_result"

record ('c, 'f) started =
  st_memSize :: uint64
  st_localRRS :: "local_rr list"
  st_sipHashKey :: "uint64 \<times> uint64"
  st_globalTimeout :: 'f
  st_jojo :: "'c jojo_state"
  st_upstream :: "'f upstream_state"

definition main_start :: "'f float64_ops \<Rightarrow> ('c, 'f) main_env \<Rightarrow> string + ('c, 'f) started" where
  "main_start fl env =
     (let memSize = flag_memSize env * (1024 * 1024);
          rnd = (\<lambda>i. case rand_Read env i of (buf, len, err) \<Rightarrow> randUint64 buf len err)
      in if flag_cacheSize env < 2 then Inl ''Cache size too small''
         else (case parseLocalRRSFile (main_NewRR env) (main_open env) (flag_localRRSFile env) [] of
                 Inl e \<Rightarrow> Inl e
               | Inr rrs \<Rightarrow>
                   let up = \<lparr>upstreamServers = parseUpstreamServers (flag_upstream env),
                             upstreamRtt = \<lparr>RTT = f_of_int fl 0, count = f_of_int fl 0\<rparr>\<rparr>
                   in (case (rnd 0, rnd 1) of
                         (Inl e, _) \<Rightarrow> Inl e
                       | (Inr _, Inl e) \<Rightarrow> Inl e
                       | (Inr k1, Inr k2) \<Rightarrow>
                           Inr \<lparr>st_memSize = memSize, st_localRRS = rrs, st_sipHashKey = (k1, k2),
                                st_globalTimeout = f_mul fl (f_mul fl (flag_maxRTT env) (f_of_int fl 3))
                                                     (f_of_int fl Second),
                                st_jojo = \<lparr>cache = NewARC env (flag_cacheSize env), slip = 0\<rparr>,
                                st_upstream = probeUpstreamServers fl (flag_maxRTT env) (first_probe env) up\<rparr>)))"

text \<open>One round of \<open>vacuumThread\<close>, after its sleep; \<open>alloc\<close> is what the runtime reports.\<close>

definition vacuum_round ::
  "'f float64_ops \<Rightarrow> 'c cache_ops \<Rightarrow> uint64 \<Rightarrow> 'f \<Rightarrow> (nat \<Rightarrow> string \<Rightarrow> exchange_result) \<Rightarrow> uint64
   \<Rightarrow> 'c jojo_state \<times> 'f upstream_state \<Rightarrow> 'c jojo_state \<times> 'f upstream_state" where
  "vacuum_round fl cops memSize maxRTT ex alloc = (\<lambda>(s, up).
     let s = s\<lparr>slip := 0\<rparr>;
         up = probeUpstreamServers fl maxRTT ex up
     in (if alloc > memSize then s\<lparr>cache := cache_Purge cops (cache s)\<rparr> else s, up))"

section \<open>Lemmas\<close>

lemma getKey_question:
  "getKey lib n req = Inr key \<Longrightarrow>
   \<exists>q. Question req = [q] \<and> key_Name key = ToLower (q_Name q) \<and> key_Qtype key = Qtype q"
  by (auto simp: getKey_Inr_iff)

lemma handleSpecialNames_None_iff:
  "Question req = [q] \<Longrightarrow> handleSpecialNames rrs req = Inr None \<longleftrightarrow>
   find (\<lambda>l. ToLower (q_Name q) = local_Name l) rrs = None \<and> Qtype q \<noteq> TypeANY"
  by (simp add: handleSpecialNames_def Let_def go_simps split: option.split)

lemma special_same_key:
  assumes "getKey lib n req = Inr key" and "getKey lib n req' = Inr key"
  shows "handleSpecialNames rrs req = Inr None \<longleftrightarrow> handleSpecialNames rrs req' = Inr None"
proof -
  obtain q where q: "Question req = [q]" "key_Name key = ToLower (q_Name q)" "key_Qtype key = Qtype q"
    using getKey_question [OF assms(1)] by blast
  obtain q' where q': "Question req' = [q']" "key_Name key = ToLower (q_Name q')"
    "key_Qtype key = Qtype q'"
    using getKey_question [OF assms(2)] by blast
  show ?thesis
    unfolding handleSpecialNames_None_iff [OF q(1)] handleSpecialNames_None_iff [OF q'(1)]
      q(2,3) [symmetric] q'(2,3) [symmetric] ..
qed

text \<open>How \<open>route\<close> goes on past the special names: with a fresh entry, or as a miss.\<close>

lemma route_fresh:
  assumes "getKey (cfg_lib cfg) (minLabelsCount cfg) req = Inr key"
    and "handleSpecialNames (localRRS cfg) req = Inr None"
    and "cache_Get (cfg_cache cfg) key (cache s) = (Some v, c)" and "now_lookup env < ValidUntil v"
  shows "route cfg env req s =
    (Inr (send_limited (cfg_lib cfg) (isTCP env) (getMaxPayloadSize (cfg_lib cfg) req)
           (answer_from v req)), s\<lparr>cache := c\<rparr>)"
  using assms by (simp add: route_def)

lemma route_stale:
  assumes "getKey (cfg_lib cfg) (minLabelsCount cfg) req = Inr key"
    and "handleSpecialNames (localRRS cfg) req = Inr None"
    and "cache_Get (cfg_cache cfg) key (cache s) = (cv, c)"
    and "case cv of None \<Rightarrow> True | Some v \<Rightarrow> ValidUntil v \<le> now_lookup env"
  shows "route cfg env req s = route_miss cfg env req key cv (s\<lparr>cache := c\<rparr>)"
  using assms by (cases cv) (simp_all add: route_def)

lemma route_miss_resolved:
  assumes "\<not> slips (slip s)"
    and "resolve (cfg_lib cfg) (ring_reply env) req (DNSSEC key) = (Inr resp, req')"
  shows "route_miss cfg env req key cv s =
    (Inr (send_limited (cfg_lib cfg) (isTCP env) (getMaxPayloadSize (cfg_lib cfg) req) resp),
     s\<lparr>cache := cache_Add (cfg_cache cfg) key
        \<lparr>ValidUntil = now_store env + getMinTTL resp, cached_Response = resp\<rparr> (cache s)\<rparr>)"
  using assms by (simp add: route_miss_def)

lemma getMinTTL_ge: "60 * Second \<le> getMinTTL resp"
proof -
  have "60 \<le> uint (ttl :: uint32)" if "\<not> ttl < 60" for ttl
    using that by (simp add: word_less_alt)
  then show ?thesis
    by (auto simp: getMinTTL_def Let_def Second_def)
qed

lemma slips_next: "slips v \<Longrightarrow> \<not> slips (v + 1)"
  unfolding slips_def by (simp add: even_iff_mod_2_eq_zero [symmetric])

lemma route_miss_slip:
  "slip (snd (route_miss cfg env req key cv s)) = (if slips (slip s) then slip s + 1 else slip s)"
  by (simp add: route_miss_def Let_def split: sum.splits option.splits prod.splits)

lemma route_slip_cases:
  "slip (snd (route cfg env req s)) = slip s \<or>
   (slips (slip s) \<and> slip (snd (route cfg env req s)) = slip s + 1)"
proof (cases "getKey (cfg_lib cfg) (minLabelsCount cfg) req")
  case (Inr key)
  obtain cv c where get: "cache_Get (cfg_cache cfg) key (cache s) = (cv, c)"
    by fastforce
  show ?thesis
  proof (cases "handleSpecialNames (localRRS cfg) req = Inr None")
    case True
    show ?thesis
    proof (cases "case cv of None \<Rightarrow> True | Some v \<Rightarrow> ValidUntil v \<le> now_lookup env")
      case False
      with get Inr True show ?thesis
        by (auto simp: route_fresh split: option.splits)
    qed (simp add: route_stale [OF Inr True get] route_miss_slip)
  qed (use Inr in \<open>auto simp: route_def split: sum.splits option.splits\<close>)
qed (simp add: route_def)

lemma route_miss_event:
  "fst (route_miss cfg env req key cv s) = Inr ev \<Longrightarrow>
   ev = CloseConn \<or> ev = sendTruncated (isTCP env) (MsgHdr req) \<or>
   (\<exists>resp. ev = send_limited (cfg_lib cfg) (isTCP env) (getMaxPayloadSize (cfg_lib cfg) req) resp)"
  by (auto simp: route_miss_def Let_def split: if_splits prod.splits sum.splits option.splits)

lemma route_event:
  assumes "getKey (cfg_lib cfg) (minLabelsCount cfg) req = Inr key"
    and "handleSpecialNames (localRRS cfg) req = Inr None"
    and "fst (route cfg env req s) = Inr ev"
  shows "ev = CloseConn \<or> ev = sendTruncated (isTCP env) (MsgHdr req) \<or>
   (\<exists>resp. ev = send_limited (cfg_lib cfg) (isTCP env) (getMaxPayloadSize (cfg_lib cfg) req) resp)"
proof -
  obtain cv c where get: "cache_Get (cfg_cache cfg) key (cache s) = (cv, c)"
    by fastforce
  show ?thesis
  proof (cases "case cv of None \<Rightarrow> True | Some v \<Rightarrow> ValidUntil v \<le> now_lookup env")
    case True
    then show ?thesis
      using assms(3) route_miss_event by (simp add: route_stale [OF assms(1,2) get])
  next
    case False
    then show ?thesis
      using assms get by (auto simp: route_fresh split: option.splits)
  qed
qed

lemma sendTruncated_truncated: "sendTruncated tcp h = WriteMsg m \<Longrightarrow> Truncated (MsgHdr m)"
  by (auto simp: sendTruncated_def Let_def split: if_splits)

lemma send_limited_fits:
  "send_limited lib tcp mx resp = WriteMsg m \<Longrightarrow> PackLen lib m < 2 ^ 16 \<Longrightarrow>
   Truncated (MsgHdr m) \<or> PackLen lib m \<le> unat mx"
  by (auto simp: send_limited_def word_less_nat_alt unat_of_nat dest: sendTruncated_truncated
      split: if_splits)

lemma getMaxPayloadSize_unat:
  "unat (getMaxPayloadSize lib req) = (case IsEdns0 lib req of
     None \<Rightarrow> 512 | Some opt \<Rightarrow> max 512 (unat (UDPSize lib opt)))"
  by (auto simp: getMaxPayloadSize_def Let_def word_less_nat_alt split: option.splits)

section \<open>Properties\<close>



text \<open>
  (C34) A message that \<open>route\<close> writes for a query past the special names respects the size
  the client accepts: it is marked truncated or its packed length is at most the advertised
  payload size, and 512 bytes without one. The bound needs a length below 64 KiB, because
  the comparison is made on 16 bits.
\<close>

theorem route_respects_payload:
  assumes "getKey (cfg_lib cfg) (minLabelsCount cfg) req = Inr key"
    and "handleSpecialNames (localRRS cfg) req = Inr None"
    and "fst (route cfg env req s) = Inr (WriteMsg m)"
    and "PackLen (cfg_lib cfg) m < 2 ^ 16"
  shows "Truncated (MsgHdr m) \<or>
    PackLen (cfg_lib cfg) m \<le> (case IsEdns0 (cfg_lib cfg) req of
       None \<Rightarrow> 512 | Some opt \<Rightarrow> max 512 (unat (UDPSize (cfg_lib cfg) opt)))"
  using route_event [OF assms(1-3)] assms(4) send_limited_fits sendTruncated_truncated
  unfolding getMaxPayloadSize_unat [symmetric] by (metis write_event.distinct(3))


text \<open>
  A client that retries over TCP without EDNS cannot get a response of more than 512
  bytes: \<open>route\<close> applies the payload limit of UDP to it as well, and \<open>sendTruncated\<close> turns
  the reply into a failure instead of a truncated message.
\<close>

theorem route_fails_large_tcp:
  assumes "getKey (cfg_lib cfg) (minLabelsCount cfg) req = Inr key"
    and "handleSpecialNames (localRRS cfg) req = Inr None"
    and "cache_Get (cfg_cache cfg) key (cache s) = (Some v, c)" and "now_lookup env < ValidUntil v"
    and "isTCP env" and "IsEdns0 (cfg_lib cfg) req = None"
    and "512 < PackLen (cfg_lib cfg) (answer_from v req)"
    and "PackLen (cfg_lib cfg) (answer_from v req) < 2 ^ 16"
  shows "\<exists>m. fst (route cfg env req s) = Inr (HandleFailed m) \<and> Answer m = []"
proof -
  have "(of_nat (PackLen (cfg_lib cfg) (answer_from v req)) :: uint16) > 512"
    using assms(7,8) by (simp add: word_less_nat_alt unat_of_nat)
  then show ?thesis
    using assms(5,6) unfolding route_fresh [OF assms(1-4)]
    by (simp add: send_limited_def getMaxPayloadSize_def sendTruncated_def Let_def new_msg_def)
qed

section \<open>Witnesses\<close>

text \<open>A cache that is a map, a package that does nothing to a message, one query.\<close>

definition map_cache :: "(cache_key \<Rightarrow> cache_val option) cache_ops" where
  "map_cache = \<lparr>cache_Get = (\<lambda>k c. (c k, c)), cache_Add = (\<lambda>k v c. c(k \<mapsto> v)),
     cache_Purge = (\<lambda>_. Map.empty)\<rparr>"

definition sample_lib :: "nat \<Rightarrow> dns_lib" where
  "sample_lib len = \<lparr>CountLabel = (\<lambda>_. 2), Do = (\<lambda>_. False), UDPSize = (\<lambda>_. 4096),
     IsEdns0 = (\<lambda>_. None), SetEdns0 = (\<lambda>_ _ m. m), SetRcode = (\<lambda>m _. m), PackLen = (\<lambda>_. len)\<rparr>"

definition sample_jojo :: "nat \<Rightarrow> (cache_key \<Rightarrow> cache_val option) jojo_cfg" where
  "sample_jojo len = \<lparr>cfg_lib = sample_lib len, cfg_cache = map_cache, minLabelsCount = 2,
     localRRS = []\<rparr>"

definition sample_query :: "uint16 \<Rightarrow> string \<Rightarrow> msg" where
  "sample_query i n = new_msg\<lparr>MsgHdr := (MsgHdr new_msg)\<lparr>Id := i\<rparr>,
     Question := [\<lparr>q_Name = n, Qtype = 1, Qclass = ClassINET\<rparr>]\<rparr>"

definition sample_key :: cache_key where
  "sample_key = \<lparr>key_Name = ''x.org'', key_Qtype = 1, DNSSEC = False\<rparr>"

definition sample_env :: "int \<Rightarrow> route_env" where
  "sample_env t = \<lparr>isTCP = True, now_lookup = t, now_store = t, ring_reply = (\<lambda>m. Inr (Some m, 0))\<rparr>"

lemmas sample_defs = sample_jojo_def sample_lib_def sample_query_def sample_key_def sample_env_def
  map_cache_def new_msg_def

lemma sample_getKey:
  "getKey (cfg_lib (sample_jojo len)) (minLabelsCount (sample_jojo len)) (sample_query i ''x.org'') =
     Inr sample_key"
  "getKey (cfg_lib (sample_jojo len)) (minLabelsCount (sample_jojo len)) (sample_query i ''X.org'') =
     Inr sample_key"
  by (simp_all add: sample_defs getKey_def ToLower_def lower_char_def char_of_def bit_0)

lemma sample_special: "handleSpecialNames (localRRS (sample_jojo len)) (sample_query i n) = Inr None"
  by (simp add: handleSpecialNames_def sample_defs go_index_def Let_def)


theorem route_respects_payload_witness:
  "PackLen (sample_lib 100) ((sample_query 3 ''x.org'')\<lparr>Compress := True\<rparr>) \<le> 512"
proof -
  have "fst (route (sample_jojo 100) (sample_env 0) (sample_query 3 ''x.org'')
      \<lparr>cache = Map.empty, slip = 0\<rparr>) = Inr (WriteMsg ((sample_query 3 ''x.org'')\<lparr>Compress := True\<rparr>))"
    by (simp add: route_def sample_getKey sample_special route_miss_def slips_def)
      (simp add: sample_defs resolve_def send_limited_def getMaxPayloadSize_def)
  from route_respects_payload [OF sample_getKey(1) sample_special this] show ?thesis
    by (simp add: sample_defs)
qed

theorem route_fails_large_tcp_witness:
  "\<exists>m. fst (route (sample_jojo 600) (sample_env 0) (sample_query 3 ''x.org'')
     \<lparr>cache = [sample_key \<mapsto> \<lparr>ValidUntil = 5, cached_Response = new_msg\<rparr>], slip = 0\<rparr>) = Inr (HandleFailed m) \<and>
     Answer m = []"
  by (rule route_fails_large_tcp [where v = "\<lparr>ValidUntil = 5, cached_Response = new_msg\<rparr>",
        OF sample_getKey(1) sample_special])
    (simp_all add: sample_jojo_def sample_lib_def map_cache_def sample_env_def)

end
