(* ===== verification/Jojo_Cap.thy ===== *)
theory Jojo_Cap
  imports Go_Prelude
begin

text \<open>
  The capabilities of \<open>src/jojo/jojo_cap.go\<close>. The capability set and the process are values of
  arbitrary types, the functions of \<open>libcap\<close> are arguments. The methods have value receivers,
  so each works on a copy of the struct and returns none of it.
\<close>

record 's CapNetBindService =
  cap_set :: "'s option"

record ('s, 'p) cap_lib =
  GetProc_Dup :: "'p \<Rightarrow> string + 's"
  GetFlag :: "'s \<Rightarrow> bool \<times> string option"
  SetFlag :: "'s \<Rightarrow> string + 's"
  SetProc :: "'s option \<Rightarrow> 'p \<Rightarrow> string option \<times> 'p"

text \<open>\<open>AddCap\<close>: the error, the process, and the copy it assigned to, which its caller does not see.\<close>

definition AddCap_body ::
  "('s, 'p) cap_lib \<Rightarrow> 's CapNetBindService \<Rightarrow> 'p \<Rightarrow> string option \<times> 'p \<times> 's CapNetBindService" where
  "AddCap_body lib capabilities p =
     (case GetProc_Dup lib p of
        Inl err \<Rightarrow> (Some err, p, capabilities)
      | Inr dupCapabilities \<Rightarrow>
          (case GetFlag lib dupCapabilities of
             (False, Some err) \<Rightarrow> (Some err, p, capabilities)
           | (False, None) \<Rightarrow> (Some ''insufficient privilege to bind to low ports'', p, capabilities)
           | (True, _) \<Rightarrow>
               (case SetFlag lib dupCapabilities of
                  Inl err \<Rightarrow> (Some (''unable to set capability: '' @ err), p, capabilities)
                | Inr dupCapabilities \<Rightarrow>
                    (case SetProc lib (Some dupCapabilities) p of
                       (Some err, p) \<Rightarrow> (Some (''unable to raise capabilities: '' @ err), p, capabilities)
                     | (None, p) \<Rightarrow> (None, p, capabilities\<lparr>cap_set := Some dupCapabilities\<rparr>)))))"

text \<open>A call on a value: the caller keeps its own copy.\<close>

definition AddCap ::
  "('s, 'p) cap_lib \<Rightarrow> 's CapNetBindService \<Rightarrow> 'p \<Rightarrow> string option \<times> 'p \<times> 's CapNetBindService" where
  "AddCap lib capabilities p = (case AddCap_body lib capabilities p of (err, p, _) \<Rightarrow> (err, p, capabilities))"

text \<open>\<open>RemoveCap\<close>: \<open>None\<close> when the error is fatal.\<close>

definition RemoveCap :: "('s, 'p) cap_lib \<Rightarrow> 's CapNetBindService \<Rightarrow> 'p \<Rightarrow> 'p option" where
  "RemoveCap lib capabilities p =
     (case SetProc lib (cap_set capabilities) p of (Some err, _) \<Rightarrow> None | (None, p) \<Rightarrow> Some p)"

text \<open>
  The set that \<open>AddCap\<close> raised is lost with the copy: after the use the comment describes,
  \<open>RemoveCap\<close> calls \<open>SetProc\<close> on the nil set, and ends the program when that is an error.
\<close>

lemma RemoveCap_after_AddCap:
  assumes "AddCap lib \<lparr>cap_set = None\<rparr> p = (err, p', capabilities)"
  shows "RemoveCap lib capabilities p' = (case SetProc lib None p' of (Some _, _) \<Rightarrow> None | (None, p) \<Rightarrow> Some p)"
  using assms by (auto simp: AddCap_def RemoveCap_def split: prod.splits)

end
