(* ===== verification/Jojo_System.thy ===== *)
theory Jojo_System
  imports Jojo_Route Jojo_Cap
begin

text \<open>
  Jojo as a whole (\<open>src/jojo/jojo.go\<close>): the sockets that \<open>main\<close> opens, and the machine of all
  request handlers together with the resolver queue, the upstream pool, the response cache
  and the housekeeping of \<open>vacuumThread\<close>.

  A handler runs in the steps in which it touches what others touch too: the lookup in the
  cache, the load and the swap of the slip counter, the submission to the queue, and the end
  from the reply on. Between them the handlers of other queries, the resolver threads and the
  housekeeping take their steps. Queries are numbered; \<open>su_query su i\<close> is the message of query
  \<open>i\<close>, and what the upstream servers answer while it is resolved is \<open>su_udp su i\<close> and
  \<open>su_tcp su i\<close>.
\<close>

section \<open>The sockets\<close>

text \<open>
  The part of \<open>main\<close> after the start: the effects in their order, and the error when one is
  fatal. The servers run until they fail; a failure of one of them ends the process too.
\<close>

datatype main_event = HandleFunc | AddedCap | ListenUDP | SetBuffers nat | ListenTCP | ServeUDP | ServeTCP | Ready

record ('s, 'p) socket_env =
  ResolveUDPAddr_err :: "string option"
  cap_ops :: "('s, 'p) cap_lib"
  ListenUDP_err :: "string option"
  ResolveTCPAddr_err :: "string option"
  ListenTCP_err :: "string option"

abbreviation MaxUDPBufferSize :: nat where "MaxUDPBufferSize \<equiv> 16 * 1024 * 1024"

definition main_listen :: "('s, 'p) socket_env \<Rightarrow> 'p \<Rightarrow> (string + unit) \<times> main_event list \<times> 'p" where
  "main_listen env p =
     (case ResolveUDPAddr_err env of
        Some err \<Rightarrow> (Inl err, [HandleFunc], p)
      | None \<Rightarrow>
          (case AddCap (cap_ops env) \<lparr>cap_set = None\<rparr> p of
             (Some err, p, _) \<Rightarrow> (Inl err, [HandleFunc], p)
           | (None, p, capNetBind) \<Rightarrow>
               (case ListenUDP_err env of
                  Some err \<Rightarrow> (Inl err, [HandleFunc, AddedCap], p)
                | None \<Rightarrow>
                    let ev = [HandleFunc, AddedCap, ListenUDP, SetBuffers MaxUDPBufferSize]
                    in (case ResolveTCPAddr_err env of
                          Some err \<Rightarrow> (Inl err, ev, p)
                        | None \<Rightarrow>
                            (case ListenTCP_err env of
                               Some err \<Rightarrow> (Inl err, ev, p)
                             | None \<Rightarrow> (Inr (), ev @ [ListenTCP, ServeUDP, ServeTCP, Ready], p))))))"

text \<open>No socket is opened before the capability is raised, and no query served before both are open.\<close>

lemma main_listen_order:
  assumes "main_listen env p = (r, evs, p')"
  shows "(ListenUDP \<in> set evs \<longrightarrow> (\<exists>c. AddCap (cap_ops env) \<lparr>cap_set = None\<rparr> p = (None, p', c))) \<and>
    (Ready \<in> set evs \<longleftrightarrow> r = Inr ())"
  using assms by (auto simp: main_listen_def Let_def split: option.splits prod.splits)

section \<open>A handler in steps\<close>

definition ring_request :: "dns_lib \<Rightarrow> msg \<Rightarrow> bool \<Rightarrow> msg" where
  "ring_request lib req dnssec =
     SetEdns0 lib DefaultMsgSize dnssec
       (req\<lparr>Extra := filter (\<lambda>extra. Rrtype (rr_hdr extra) \<noteq> TypeOPT) (Extra req)\<rparr>)"

text \<open>
  \<open>Missed\<close>: no fresh entry, before the load of the slip counter; \<open>Dropping\<close>: before the swap
  of the loaded value.
\<close>

datatype handler_pc =
    NewQuery
  | Missed cache_key "cache_val option"
  | Dropping uint32
  | Resolving cache_key "cache_val option"
  | Finished "jojo_error + write_event"

definition route_begin ::
  "'c jojo_cfg \<Rightarrow> bool \<Rightarrow> int \<Rightarrow> msg \<Rightarrow> 'c jojo_state \<Rightarrow> handler_pc \<times> 'c jojo_state" where
  "route_begin cfg tcp now req s =
     (case getKey (cfg_lib cfg) (minLabelsCount cfg) req of
        Inl e \<Rightarrow> (Finished (if e = Panic then Inl Panic
                            else Inr (failWithRcode (cfg_lib cfg) req RcodeRefused)), s)
      | Inr key \<Rightarrow>
          (case handleSpecialNames (localRRS cfg) req of
             Inl e \<Rightarrow> (Finished (Inl e), s)
           | Inr (Some ev) \<Rightarrow> (Finished (Inr ev), s)
           | Inr None \<Rightarrow>
               (case cache_Get (cfg_cache cfg) key (cache s) of (cacheVal, c) \<Rightarrow>
                  let s = s\<lparr>cache := c\<rparr>;
                      resp = (case cacheVal of
                                Some v \<Rightarrow> if ValidUntil v - now > 0 then Some (answer_from v req) else None
                              | None \<Rightarrow> None)
                  in (case resp of
                        Some resp \<Rightarrow>
                          (Finished (Inr (send_limited (cfg_lib cfg) tcp
                             (getMaxPayloadSize (cfg_lib cfg) req) resp)), s)
                      | None \<Rightarrow> (Missed key cacheVal, s)))))"

definition route_load :: "cache_key \<Rightarrow> cache_val option \<Rightarrow> 'c jojo_state \<Rightarrow> handler_pc" where
  "route_load key cacheVal s = (if slips (slip s) then Dropping (slip s) else Resolving key cacheVal)"

definition route_drop :: "bool \<Rightarrow> msg \<Rightarrow> uint32 \<Rightarrow> 'c jojo_state \<Rightarrow> (jojo_error + write_event) \<times> 'c jojo_state" where
  "route_drop tcp req slipValue s =
     (Inr (if slipValue mod 4 = 0 then sendTruncated tcp (MsgHdr req) else CloseConn),
      if slip s = slipValue then s\<lparr>slip := slipValue + 1\<rparr> else s)"

definition route_end ::
  "'c jojo_cfg \<Rightarrow> bool \<Rightarrow> int \<Rightarrow> msg \<Rightarrow> cache_key \<Rightarrow> cache_val option \<Rightarrow> reply \<Rightarrow> 'c jojo_state
   \<Rightarrow> (jojo_error + write_event) \<times> 'c jojo_state" where
  "route_end cfg tcp now req key cacheVal rep s =
     (let send = (\<lambda>resp. Inr (send_limited (cfg_lib cfg) tcp (getMaxPayloadSize (cfg_lib cfg) req) resp))
      in case rep of
           Inr (Some resolved, _) \<Rightarrow>
             let resp = resolved\<lparr>Compress := True\<rparr>
             in (send resp,
                 s\<lparr>cache := cache_Add (cfg_cache cfg) key
                     \<lparr>ValidUntil = now + getMinTTL resp, cached_Response = resp\<rparr> (cache s)\<rparr>)
         | Inr (None, _) \<Rightarrow> (Inl Panic, s)
         | Inl e \<Rightarrow>
             if e = Panic then (Inl Panic, s)
             else (case cacheVal of
                     None \<Rightarrow> (Inr CloseConn, s)
                   | Some v \<Rightarrow> (send (answer_from v (ring_request (cfg_lib cfg) req (DNSSEC key))), s)))"

text \<open>The steps in a row are the handler \<open>route\<close>.\<close>

fun route_rest :: "'c jojo_cfg \<Rightarrow> route_env \<Rightarrow> msg \<Rightarrow> handler_pc \<times> 'c jojo_state
    \<Rightarrow> (jojo_error + write_event) \<times> 'c jojo_state" where
  "route_rest cfg env req (Finished out, s) = (out, s)"
| "route_rest cfg env req (Resolving key v, s) =
     route_end cfg (isTCP env) (now_store env) req key v
       (ring_reply env (ring_request (cfg_lib cfg) req (DNSSEC key))) s"
| "route_rest cfg env req (Dropping slipValue, s) = route_drop (isTCP env) req slipValue s"
| "route_rest cfg env req (_, s) = (Inl Panic, s)"

lemma route_split:
  "route cfg env req s =
     (case route_begin cfg (isTCP env) (now_lookup env) req s of
        (Missed key v, s') \<Rightarrow> route_rest cfg env req (route_load key v s', s')
      | (pc, s') \<Rightarrow> route_rest cfg env req (pc, s'))"
  unfolding route_def route_begin_def route_miss_def route_load_def resolve_def
  by (simp add: Let_def route_drop_def route_end_def ring_request_def split: sum.splits option.splits prod.splits)

section \<open>The system\<close>

record ('c, 'f) jojo_setup =
  su_fl :: "'f float64_ops"
  su_cfg :: "'c jojo_cfg"
  su_pool :: "'f upstream_cfg"
  su_udp :: "nat \<Rightarrow> msg \<Rightarrow> string \<Rightarrow> exchange_result"
  su_tcp :: "nat \<Rightarrow> msg \<Rightarrow> string \<Rightarrow> exchange_result"
  su_maxClients :: nat
  su_memSize :: uint64
  su_isTCP :: "nat \<Rightarrow> bool"
  su_query :: "nat \<Rightarrow> msg"

text \<open>
  \<open>vacuumThread\<close>: asleep, in \<open>probeUpstreamServers\<close> from the copy of the slice on, or past it
  with \<open>ProbeIdle\<close>.
\<close>

datatype vacuum_pc = Asleep | Awake probe_pc

record ('c, 'f) jojo_sys =
  sys_cache :: 'c
  ring :: "'f ring_sys"
  handler :: "nat \<Rightarrow> handler_pc"
  vacuum :: vacuum_pc

text \<open>What a handler sees; the slip counter is the one that the resolver threads increase.\<close>

definition jojo_view :: "('c, 'f) jojo_sys \<Rightarrow> 'c jojo_state" where
  "jojo_view s = \<lparr>cache = sys_cache s, slip = slip_count (ring s)\<rparr>"

definition jojo_store :: "'c jojo_state \<Rightarrow> ('c, 'f) jojo_sys \<Rightarrow> ('c, 'f) jojo_sys" where
  "jojo_store st s = s\<lparr>sys_cache := cache st, ring := (ring s)\<lparr>slip_count := slip st\<rparr>\<rparr>"

definition su_key :: "('c, 'f) jojo_setup \<Rightarrow> nat \<Rightarrow> jojo_error + cache_key" where
  "su_key su i = getKey (cfg_lib (su_cfg su)) (minLabelsCount (su_cfg su)) (su_query su i)"

definition su_request :: "('c, 'f) jojo_setup \<Rightarrow> nat \<Rightarrow> msg" where
  "su_request su i =
     (case su_key su i of
        Inl _ \<Rightarrow> su_query su i
      | Inr key \<Rightarrow> ring_request (cfg_lib (su_cfg su)) (su_query su i) (DNSSEC key))"

abbreviation su_net :: "('c, 'f) jojo_setup \<Rightarrow> nat \<Rightarrow> 'f upstream_cfg" where
  "su_net su \<equiv> with_net (su_pool su) (su_udp su) (su_tcp su)"

definition jojo_init :: "('c, 'f) main_env \<Rightarrow> ('c, 'f) jojo_setup \<Rightarrow> ('c, 'f) jojo_sys \<Rightarrow> bool" where
  "jojo_init env su s \<longleftrightarrow>
     (case main_start (su_fl su) env of
        Inl _ \<Rightarrow> False
      | Inr st \<Rightarrow>
          localRRS (su_cfg su) = st_localRRS st \<and> su_memSize su = st_memSize st \<and>
          cfg_maxRTT (su_pool su) = flag_maxRTT env \<and> jojo_view s = st_jojo st \<and>
          upstream (ring s) = st_upstream st \<and> resolverRing (ring s) = [] \<and>
          submitter (ring s) = (\<lambda>_. NotStarted) \<and> thread (ring s) = (\<lambda>_. ThreadIdle) \<and>
          handler s = (\<lambda>_. NewQuery) \<and> vacuum s = Asleep)"

inductive jojo_step :: "('c, 'f) jojo_setup \<Rightarrow> ('c, 'f) jojo_sys \<Rightarrow> ('c, 'f) jojo_sys \<Rightarrow> bool"
  for su :: "('c, 'f) jojo_setup"
where
  query_arrives: "handler s i = NewQuery \<Longrightarrow>
     route_begin (su_cfg su) (su_isTCP su i) now (su_query su i) (jojo_view s) = (pc, st) \<Longrightarrow>
     jojo_step su s ((jojo_store st s)\<lparr>handler := (handler s)(i := pc)\<rparr>)"
| slip_loaded: "handler s i = Missed key v \<Longrightarrow>
     jojo_step su s (s\<lparr>handler := (handler s)(i := route_load key v (jojo_view s))\<rparr>)"
| query_dropped: "handler s i = Dropping slipValue \<Longrightarrow>
     route_drop (su_isTCP su i) (su_query su i) slipValue (jojo_view s) = (out, st) \<Longrightarrow>
     jojo_step su s ((jojo_store st s)\<lparr>handler := (handler s)(i := Finished out)\<rparr>)"
| ring_moves: "ring_step (su_fl su) (su_net su) (su_maxClients su) (su_request su) (ring s) r \<Longrightarrow>
     (\<forall>i. submitter (ring s) i = NotStarted \<longrightarrow>
        submitter r i = NotStarted \<or> (\<exists>key v. handler s i = Resolving key v)) \<Longrightarrow>
     jojo_step su s (s\<lparr>ring := r\<rparr>)"
| reply_arrives: "handler s i = Resolving key v \<Longrightarrow> submitter (ring s) i = Returned rep \<Longrightarrow>
     route_end (su_cfg su) (su_isTCP su i) now (su_query su i) key v rep (jojo_view s) = (out, st) \<Longrightarrow>
     jojo_step su s ((jojo_store st s)\<lparr>handler := (handler s)(i := Finished out)\<rparr>)"
| vacuum_wakes: "vacuum s = Asleep \<Longrightarrow>
     jojo_step su s (s\<lparr>ring := (ring s)\<lparr>slip_count := 0\<rparr>, vacuum := Awake (Probing 0 [])\<rparr>)"
| vacuum_probes: "vacuum s = Awake pc \<Longrightarrow> pc \<noteq> ProbeIdle \<Longrightarrow>
     probe_pc_step (su_fl su) (cfg_maxRTT (su_pool su)) (upstream (ring s), pc) (up, pc') \<Longrightarrow>
     jojo_step su s (s\<lparr>ring := (ring s)\<lparr>upstream := up\<rparr>, vacuum := Awake pc'\<rparr>)"
| vacuum_purges: "vacuum s = Awake ProbeIdle \<Longrightarrow>
     c = (if alloc > su_memSize su then cache_Purge (cfg_cache (su_cfg su)) (sys_cache s) else sys_cache s) \<Longrightarrow>
     jojo_step su s (s\<lparr>sys_cache := c, vacuum := Asleep\<rparr>)"

text \<open>When nothing else moves, a round of the housekeeping is \<open>vacuum_round\<close>.\<close>

lemma vacuum_probe_path:
  assumes "(probe_run (su_fl su) (cfg_maxRTT (su_pool su)))\<^sup>*\<^sup>* (upstream (ring s), pc) (up, pc')" and "vacuum s = Awake pc"
  shows "(jojo_step su)\<^sup>*\<^sup>* s (s\<lparr>ring := (ring s)\<lparr>upstream := up\<rparr>, vacuum := Awake pc'\<rparr>)"
  using assms(1)
proof (induction "(up, pc')" arbitrary: up pc' rule: rtranclp_induct)
  case base
  have "s\<lparr>ring := (ring s)\<lparr>upstream := upstream (ring s)\<rparr>, vacuum := Awake pc\<rparr> = s"
    using assms(2) [symmetric] by simp
  then show ?case
    by simp
next
  case (step q)
  obtain u q' where q: "q = (u, q')"
    by fastforce
  let ?s = "s\<lparr>ring := (ring s)\<lparr>upstream := u\<rparr>, vacuum := Awake q'\<rparr>"
  have "jojo_step su ?s (?s\<lparr>ring := (ring ?s)\<lparr>upstream := up\<rparr>, vacuum := Awake pc'\<rparr>)"
    using step(2) by (intro jojo_step.vacuum_probes [of _ q']) (auto simp: probe_run_def q)
  then have "jojo_step su ?s (s\<lparr>ring := (ring s)\<lparr>upstream := up\<rparr>, vacuum := Awake pc'\<rparr>)"
    by simp
  with step(3) [OF q] show ?case
    by (rule rtranclp.rtrancl_into_rtrancl)
qed

lemma vacuum_alone:
  assumes "vacuum s = Asleep"
    and "vacuum_round (su_fl su) (cfg_cache (su_cfg su)) (su_memSize su) (cfg_maxRTT (su_pool su)) ex alloc
       (jojo_view s, upstream (ring s)) = (st, up)"
  shows "(jojo_step su)\<^sup>*\<^sup>* s ((jojo_store st s)\<lparr>ring := (ring (jojo_store st s))\<lparr>upstream := up\<rparr>\<rparr>)"
proof -
  let ?s = "\<lambda>up pc. s\<lparr>ring := (ring s)\<lparr>slip_count := 0, upstream := up\<rparr>, vacuum := pc\<rparr>"
  have up: "up = probeUpstreamServers (su_fl su) (cfg_maxRTT (su_pool su)) ex (upstream (ring s))"
    and st: "st = \<lparr>cache = if alloc > su_memSize su then cache_Purge (cfg_cache (su_cfg su)) (sys_cache s) else sys_cache s,
      slip = 0\<rparr>"
    using assms(2) by (auto simp: vacuum_round_def jojo_view_def Let_def)
  have "jojo_step su s (?s (upstream (ring s)) (Awake (Probing 0 [])))"
    using jojo_step.vacuum_wakes [of s su] assms(1) by simp
  also have "(jojo_step su)\<^sup>*\<^sup>* \<dots> (?s up (Awake ProbeIdle))"
    using vacuum_probe_path [of su "?s (upstream (ring s)) (Awake (Probing 0 []))" "Probing 0 []" up ProbeIdle]
      probe_alone [of "su_fl su" "cfg_maxRTT (su_pool su)" "upstream (ring s)" ex] by (simp add: up)
  also have "jojo_step su \<dots> ((?s up (Awake ProbeIdle))\<lparr>sys_cache := cache st, vacuum := Asleep\<rparr>)"
    by (rule jojo_step.vacuum_purges [where alloc = alloc]) (simp_all add: st)
  also have "(?s up (Awake ProbeIdle))\<lparr>sys_cache := cache st, vacuum := Asleep\<rparr> =
      (jojo_store st s)\<lparr>ring := (ring (jojo_store st s))\<lparr>upstream := up\<rparr>\<rparr>"
    using assms(1) by (simp add: jojo_store_def st)
  finally show ?thesis .
qed

section \<open>Where an answer comes from\<close>

text \<open>An answer to query \<open>j\<close>: what a configured server returned without an error for its request.\<close>

definition upstream_answer :: "('c, 'f) jojo_setup \<Rightarrow> string list \<Rightarrow> nat \<Rightarrow> msg \<Rightarrow> bool" where
  "upstream_answer su as j m \<longleftrightarrow>
     (\<exists>a \<in> set as. \<exists>r \<in> {su_udp su j (su_request su j) a, su_tcp su j (su_request su j) a}.
        ex_err r = None \<and> ex_msg r = Some m)"

text \<open>A response cached under a key: an answer to a query with that key, marked for compression.\<close>

definition cached_for :: "('c, 'f) jojo_setup \<Rightarrow> string list \<Rightarrow> cache_key \<Rightarrow> msg \<Rightarrow> bool" where
  "cached_for su as key resp \<longleftrightarrow>
     (\<exists>j m. su_key su j = Inr key \<and> upstream_answer su as j m \<and> resp = m\<lparr>Compress := True\<rparr>)"

text \<open>A message that answers query \<open>i\<close> with the records of an answer to a query with the same key.\<close>

definition genuine :: "('c, 'f) jojo_setup \<Rightarrow> string list \<Rightarrow> nat \<Rightarrow> msg \<Rightarrow> bool" where
  "genuine su as i m \<longleftrightarrow>
     (\<exists>key resp. su_key su i = Inr key \<and> cached_for su as key resp \<and>
        Answer m = Answer resp \<and> Ns m = Ns resp \<and> Extra m = Extra resp)"

definition refused :: "('c, 'f) jojo_setup \<Rightarrow> nat \<Rightarrow> msg \<Rightarrow> bool" where
  "refused su i m \<longleftrightarrow>
     (\<exists>e. su_key su i = Inl e) \<and> m = SetRcode (cfg_lib (su_cfg su)) (su_query su i) RcodeRefused"

definition is_local :: "('c, 'f) jojo_setup \<Rightarrow> nat \<Rightarrow> msg \<Rightarrow> bool" where
  "is_local su i m \<longleftrightarrow> handleSpecialNames (localRRS (su_cfg su)) (su_query su i) = Inr (Some (WriteMsg m))"

definition is_truncated :: "msg \<Rightarrow> bool" where
  "is_truncated m \<longleftrightarrow> Truncated (MsgHdr m) \<and> Answer m = [] \<and> Ns m = [] \<and> Extra m = []"

definition output_ok :: "('c, 'f) jojo_setup \<Rightarrow> string list \<Rightarrow> nat \<Rightarrow> jojo_error + write_event \<Rightarrow> bool" where
  "output_ok su as i out \<longleftrightarrow>
     (\<forall>m. out = Inr (WriteMsg m) \<longrightarrow>
        Id (MsgHdr m) = Id (MsgHdr (su_query su i)) \<and>
        (refused su i m \<or> is_local su i m \<or> is_truncated m \<or> genuine su as i m))"

text \<open>
  What is known of the packages: a cache returns under a key only what was added under it,
  \<open>SetEdns0\<close> changes the additional records only, and \<open>SetRcode\<close> and \<open>Exchange\<close> keep the
  identifier of the message they get.
\<close>

definition cache_sound :: "'c cache_ops \<Rightarrow> ('c \<Rightarrow> (cache_key \<times> cache_val) set) \<Rightarrow> bool" where
  "cache_sound ops stored \<longleftrightarrow>
     (\<forall>k c v c'. cache_Get ops k c = (v, c') \<longrightarrow>
        stored c' \<subseteq> stored c \<and> (\<forall>x. v = Some x \<longrightarrow> (k, x) \<in> stored c)) \<and>
     (\<forall>k v c. stored (cache_Add ops k v c) \<subseteq> insert (k, v) (stored c)) \<and>
     (\<forall>c. stored (cache_Purge ops c) = {})"

definition dns_ids :: "('c, 'f) jojo_setup \<Rightarrow> bool" where
  "dns_ids su \<longleftrightarrow>
     (\<forall>n d m. MsgHdr (SetEdns0 (cfg_lib (su_cfg su)) n d m) = MsgHdr m) \<and>
     (\<forall>m c. Id (MsgHdr (SetRcode (cfg_lib (su_cfg su)) m c)) = Id (MsgHdr m)) \<and>
     (\<forall>i a m r. ex_msg (su_udp su i m a) = Some r \<longrightarrow> Id (MsgHdr r) = Id (MsgHdr m)) \<and>
     (\<forall>i a m r. ex_msg (su_tcp su i m a) = Some r \<longrightarrow> Id (MsgHdr r) = Id (MsgHdr m))"

section \<open>The invariant\<close>

definition reply_ok :: "('c, 'f) jojo_setup \<Rightarrow> string list \<Rightarrow> nat \<Rightarrow> reply \<Rightarrow> bool" where
  "reply_ok su as i rep \<longleftrightarrow> (\<forall>m d. rep = Inr (Some m, d) \<longrightarrow> upstream_answer su as i m)"

definition thread_ok :: "('c, 'f) jojo_setup \<Rightarrow> string list \<Rightarrow> thread_pc \<Rightarrow> bool" where
  "thread_ok su as pc =
     (case pc of
        Exchanging i a \<Rightarrow> a \<in> set as
      | Marking i a rep \<Rightarrow> reply_ok su as i rep
      | Replying i rep \<Rightarrow> reply_ok su as i rep
      | _ \<Rightarrow> True)"

definition replies_ok :: "('c, 'f) jojo_setup \<Rightarrow> string list \<Rightarrow> 'f ring_sys \<Rightarrow> bool" where
  "replies_ok su as r \<longleftrightarrow>
     (\<forall>t. thread_ok su as (thread r t)) \<and> (\<forall>i rep. submitter r i = Returned rep \<longrightarrow> reply_ok su as i rep)"

definition prober :: "('c, 'f) jojo_sys \<Rightarrow> probe_pc" where
  "prober s = (case vacuum s of Asleep \<Rightarrow> ProbeIdle | Awake pc \<Rightarrow> pc)"

definition cache_ok ::
  "('c, 'f) jojo_setup \<Rightarrow> string list \<Rightarrow> ('c \<Rightarrow> (cache_key \<times> cache_val) set) \<Rightarrow> 'c \<Rightarrow> bool" where
  "cache_ok su as stored c \<longleftrightarrow> (\<forall>(k, v) \<in> stored c. cached_for su as k (cached_Response v))"

definition handler_ok :: "('c, 'f) jojo_setup \<Rightarrow> string list \<Rightarrow> nat \<Rightarrow> handler_pc \<Rightarrow> bool" where
  "handler_ok su as i pc =
     (case pc of
        NewQuery \<Rightarrow> True
      | Missed key v \<Rightarrow>
          su_key su i = Inr key \<and> (\<forall>x. v = Some x \<longrightarrow> cached_for su as key (cached_Response x))
      | Dropping slipValue \<Rightarrow> True
      | Resolving key v \<Rightarrow>
          su_key su i = Inr key \<and> (\<forall>x. v = Some x \<longrightarrow> cached_for su as key (cached_Response x))
      | Finished out \<Rightarrow> output_ok su as i out)"

definition jojo_inv ::
  "('c, 'f) jojo_setup \<Rightarrow> string list \<Rightarrow> ('c \<Rightarrow> (cache_key \<times> cache_val) set) \<Rightarrow> ('c, 'f) jojo_sys \<Rightarrow> bool" where
  "jojo_inv su as stored s \<longleftrightarrow>
     interleaved_inv as (upstream (ring s), prober s) \<and> replies_ok su as (ring s) \<and> cache_ok su as stored (sys_cache s) \<and>
     (\<forall>i. handler_ok su as i (handler s i))"

text \<open>The pool and the replies: every step of the queue keeps them.\<close>

lemma pickUpstream_live: "pickUpstream hash u req = Inr a \<Longrightarrow> a \<in> set (live u)"
  by (auto simp: pickUpstream_def Let_def dest: go_index_in_set split: option.splits if_splits)

lemma exchange_answer:
  assumes "a \<in> set as" and "ex_err (exchange (su_net su i) (su_request su i) a) = None"
  shows "reply_ok su as i (Inr (ex_msg (exchange (su_net su i) (su_request su i) a), d))"
proof -
  have "exchange (su_net su i) (su_request su i) a \<in> {su_udp su i (su_request su i) a, su_tcp su i (su_request su i) a}"
    by (simp add: exchange_def with_net_def Let_def)
  with assms show ?thesis
    unfolding reply_ok_def upstream_answer_def by blast
qed

lemma ring_step_pool:
  "ring_step (su_fl su) (su_net su) n (su_request su) r r' \<Longrightarrow>
   upstream r' = upstream r \<or>
   pool_sys_step (su_fl su) (cfg_maxFailures (su_pool su)) (cfg_maxRTT (su_pool su)) (upstream r, pc) (upstream r', pc)"
proof (induction rule: ring_step.induct)
  case (thread_exchanges t s i a r meanRTT up)
  then show ?case
    using pool_sys_step.concurrent_rtt [of "su_fl su" _ _ "upstream s" pc "ex_rtt r"] by simp
next
  case (thread_marks t s i a rep)
  then show ?case
    using pool_sys_step.concurrent_mark [of "su_fl su" _ _ "upstream s" pc a] by (simp add: with_net_def)
qed simp_all

lemma ring_step_replies:
  assumes "ring_step fl (su_net su) n (su_request su) r r'" and "set (live (upstreamServers (upstream r))) \<subseteq> set as"
    and "replies_ok su as r"
  shows "replies_ok su as r'"
  using assms
proof (induction rule: ring_step.induct)
  case (thread_picks t s i a)
  then show ?case
    by (auto simp: replies_ok_def thread_ok_def dest!: pickUpstream_live)
next
  case (thread_exchanges t s i a r meanRTT up)
  then have "thread_ok su as (Exchanging i a)"
    unfolding replies_ok_def by metis
  then have "reply_ok su as i (Inr (ex_msg r, ex_rtt r))"
    using thread_exchanges exchange_answer by (auto simp: thread_ok_def)
  then show ?case
    using thread_exchanges.prems by (auto simp: replies_ok_def thread_ok_def)
next
  case (thread_marks t s i a rep)
  then have "thread_ok su as (Marking i a rep)"
    unfolding replies_ok_def by metis
  then show ?case
    using thread_marks.prems by (auto simp: replies_ok_def thread_ok_def)
next
  case (thread_reply t s i rep)
  then have "thread_ok su as (Replying i rep)"
    unfolding replies_ok_def by metis
  then show ?case
    using thread_reply.prems by (auto simp: replies_ok_def thread_ok_def)
qed (auto simp: replies_ok_def thread_ok_def reply_ok_def)

lemma ring_step_keeps:
  assumes step: "ring_step (su_fl su) (su_net su) n (su_request su) r r'" and inv: "interleaved_inv as (upstream r, pc)"
    and ok: "replies_ok su as r"
  shows "interleaved_inv as (upstream r', pc) \<and> replies_ok su as r'"
proof
  show "interleaved_inv as (upstream r', pc)"
    using ring_step_pool [OF step, of pc] inv by (auto intro: interleaved_inv_step)
  have "set (live (upstreamServers (upstream r))) \<subseteq> set as"
    using inv by (auto simp: interleaved_inv_def dest: subseq_in_set)
  with step ok show "replies_ok su as r'"
    by (blast intro: ring_step_replies)
qed

text \<open>The outputs of a handler.\<close>

lemma send_limited_ok:
  assumes "Id (MsgHdr resp) = Id (MsgHdr (su_query su i))" and "genuine su as i resp"
  shows "output_ok su as i (Inr (send_limited lib tcp n resp))"
  using assms by (auto simp: output_ok_def send_limited_def sendTruncated_def is_truncated_def new_msg_def Let_def)

lemma answer_from_ok:
  assumes "su_key su i = Inr key" and "cached_for su as key (cached_Response v)"
    and "MsgHdr req = MsgHdr (su_query su i)"
  shows "output_ok su as i (Inr (send_limited lib tcp n (answer_from v req)))"
  using assms by (intro send_limited_ok) (auto simp: answer_from_def genuine_def)

lemma special_ok:
  assumes "handleSpecialNames (localRRS (su_cfg su)) (su_query su i) = Inr (Some ev)"
  shows "output_ok su as i (Inr ev)"
proof -
  obtain r where "ev = special_reply (su_query su i) r"
    using assms by (auto simp: handleSpecialNames_def Let_def split: option.splits if_splits)
  with assms show ?thesis
    by (auto simp: output_ok_def is_local_def special_reply_def)
qed

lemma refused_ok:
  assumes "dns_ids su" and "su_key su i = Inl e"
  shows "output_ok su as i (Inr (failWithRcode (cfg_lib (su_cfg su)) (su_query su i) RcodeRefused))"
  using assms by (auto simp: output_ok_def failWithRcode_def refused_def dns_ids_def)

lemma slip_ok: "output_ok su as i (Inr (if b then sendTruncated tcp (MsgHdr (su_query su i)) else CloseConn))"
  by (auto simp: output_ok_def sendTruncated_def is_truncated_def new_msg_def Let_def)

lemma panic_ok: "output_ok su as i (Inl e)"
  by (simp add: output_ok_def)

lemma route_begin_ok:
  assumes begun: "route_begin (su_cfg su) tcp now (su_query su i) st = (pc, st')"
    and laws: "dns_ids su" "cache_sound (cfg_cache (su_cfg su)) stored"
    and ok: "cache_ok su as stored (cache st)"
  shows "handler_ok su as i pc \<and> cache_ok su as stored (cache st')"
proof (cases "su_key su i")
  case (Inl e)
  then show ?thesis
    using begun ok refused_ok [OF laws(1) Inl]
    by (auto simp: route_begin_def su_key_def handler_ok_def panic_ok)
next
  case (Inr key)
  obtain v c where get: "cache_Get (cfg_cache (su_cfg su)) key (cache st) = (v, c)"
    by fastforce
  with laws(2) have get_laws: "stored c \<subseteq> stored (cache st)" "\<And>x. v = Some x \<Longrightarrow> (key, x) \<in> stored (cache st)"
    by (auto simp: cache_sound_def)
  then have c: "cache_ok su as stored c"
    and cached: "\<And>x. v = Some x \<Longrightarrow> cached_for su as key (cached_Response x)"
    using ok by (fastforce simp: cache_ok_def)+
  show ?thesis
  proof (cases "handleSpecialNames (localRRS (su_cfg su)) (su_query su i)")
    case (Inl e)
    with begun Inr ok show ?thesis
      by (auto simp: route_begin_def su_key_def handler_ok_def panic_ok)
  next
    case special: (Inr ev)
    show ?thesis
    proof (cases ev)
      case (Some w)
      with begun Inr ok special show ?thesis
        by (auto simp: route_begin_def su_key_def handler_ok_def intro: special_ok)
    next
      case None
      have pc: "pc = Finished (Inr (send_limited (cfg_lib (su_cfg su)) tcp
            (getMaxPayloadSize (cfg_lib (su_cfg su)) (su_query su i)) (answer_from x (su_query su i)))) \<and>
          v = Some x \<and> cache st' = c \<or>
        pc = Missed key v \<and> cache st' = c" if "\<And>y. v = Some y \<Longrightarrow> y = x" for x
        using begun Inr special None get that
        by (auto simp: route_begin_def su_key_def Let_def split: option.splits if_splits)
      then show ?thesis
        using c cached Inr answer_from_ok [OF Inr]
        by (cases v) (fastforce simp: handler_ok_def)+
    qed
  qed
qed

lemma route_end_ok:
  assumes ended: "route_end (su_cfg su) tcp now (su_query su i) key v rep st = (out, st')"
    and laws: "dns_ids su" "cache_sound (cfg_cache (su_cfg su)) stored"
    and ok: "cache_ok su as stored (cache st)" and pc: "handler_ok su as i (Resolving key v)"
    and rep: "reply_ok su as i rep"
  shows "output_ok su as i out \<and> cache_ok su as stored (cache st')"
proof -
  have key: "su_key su i = Inr key"
    using pc by (simp add: handler_ok_def)
  have hdr: "MsgHdr (ring_request (cfg_lib (su_cfg su)) (su_query su i) d) = MsgHdr (su_query su i)" for d
    using laws(1) by (simp add: dns_ids_def ring_request_def)
  show ?thesis
  proof (cases rep)
    case (Inl e)
    with ended ok pc key answer_from_ok [OF key _ hdr] show ?thesis
      by (auto simp: route_end_def Let_def handler_ok_def panic_ok output_ok_def [of _ _ _ "Inr CloseConn"]
          split: if_splits option.splits)
  next
    case (Inr md)
    obtain mo d where md: "md = (mo, d)"
      by fastforce
    show ?thesis
    proof (cases mo)
      case None
      with ended ok Inr md show ?thesis
        by (auto simp: route_end_def Let_def panic_ok)
    next
      case (Some m)
      with rep Inr md have answer: "upstream_answer su as i m"
        by (simp add: reply_ok_def)
      let ?resp = "m\<lparr>Compress := True\<rparr>"
      have cached: "cached_for su as key ?resp"
        using answer key by (auto simp: cached_for_def)
      have "Id (MsgHdr m) = Id (MsgHdr (su_query su i))"
        using answer laws(1) key hdr
        by (auto simp: upstream_answer_def dns_ids_def su_request_def)
      then have "output_ok su as i (Inr (send_limited lib tcp n ?resp))" for lib n
        using key cached by (intro send_limited_ok) (auto simp: genuine_def)
      moreover have "cache_ok su as stored (cache_Add (cfg_cache (su_cfg su)) key
          \<lparr>ValidUntil = vu, cached_Response = ?resp\<rparr> (cache st))" for vu
        using ok cached laws(2) unfolding cache_ok_def cache_sound_def by fastforce
      ultimately show ?thesis
        using ended Inr md Some by (auto simp: route_end_def Let_def)
    qed
  qed
qed

lemma jojo_step_inv:
  assumes "jojo_step su s t" and "jojo_inv su as stored s"
    and laws: "dns_ids su" "cache_sound (cfg_cache (su_cfg su)) stored"
  shows "jojo_inv su as stored t"
  using assms(1,2)
proof (induction rule: jojo_step.induct)
  case (query_arrives s i now pc st)
  then show ?case
    using route_begin_ok [OF query_arrives(2) laws, of as]
    by (simp add: jojo_inv_def jojo_store_def jojo_view_def replies_ok_def prober_def)
next
  case (slip_loaded s i key v)
  then have "handler_ok su as i (Missed key v)"
    unfolding jojo_inv_def by metis
  then show ?case
    using slip_loaded by (simp add: jojo_inv_def prober_def route_load_def handler_ok_def)
next
  case (query_dropped s i slipValue out st)
  then have "output_ok su as i out" "cache st = sys_cache s"
    using slip_ok [of su as i "slipValue mod 4 = 0" "su_isTCP su i"]
    by (auto simp: route_drop_def jojo_view_def split: if_splits)
  then show ?case
    using query_dropped by (simp add: jojo_inv_def jojo_store_def replies_ok_def prober_def handler_ok_def)
next
  case (ring_moves s r)
  then show ?case
    using ring_step_keeps [OF ring_moves(1), of as "prober s"] by (simp add: jojo_inv_def prober_def)
next
  case (reply_arrives s i key v rep now out st)
  moreover have "handler_ok su as i (Resolving key v)" "reply_ok su as i rep"
    using reply_arrives unfolding jojo_inv_def replies_ok_def by metis+
  ultimately show ?case
    using route_end_ok [OF reply_arrives(3) laws, of as]
    by (simp add: jojo_inv_def jojo_store_def jojo_view_def replies_ok_def handler_ok_def prober_def)
next
  case (vacuum_wakes s)
  then show ?case
    by (simp add: jojo_inv_def replies_ok_def prober_def interleaved_inv_def)
next
  case (vacuum_probes s pc up pc')
  then show ?case
    using interleaved_inv_probe [OF vacuum_probes(3), of as] by (simp add: jojo_inv_def replies_ok_def prober_def)
next
  case (vacuum_purges s c alloc)
  then show ?case
    using laws(2) by (auto simp: jojo_inv_def replies_ok_def prober_def cache_ok_def cache_sound_def interleaved_inv_def)
qed

lemma jojo_init_inv:
  assumes "jojo_init env su s" and "\<And>n. stored (NewARC env n) = {}"
  shows "jojo_inv su (split_on (CHR '','') (flag_upstream env)) stored s"
proof -
  obtain st where st: "main_start (su_fl su) env = Inr st" "jojo_view s = st_jojo st"
    "upstream (ring s) = st_upstream st" "submitter (ring s) = (\<lambda>_. NotStarted)" "handler s = (\<lambda>_. NewQuery)"
    "thread (ring s) = (\<lambda>_. ThreadIdle)" "vacuum s = Asleep"
    using assms(1) by (auto simp: jojo_init_def split: sum.splits)
  let ?up = "\<lparr>upstreamServers = parseUpstreamServers (flag_upstream env),
    upstreamRtt = \<lparr>RTT = f_of_int (su_fl su) 0, count = f_of_int (su_fl su) 0\<rparr>\<rparr>"
  have "interleaved_inv (split_on (CHR '','') (flag_upstream env))
      (probeUpstreamServers (su_fl su) (flag_maxRTT env) (first_probe env) ?up, ProbeIdle)"
    by (rule interleaved_inv_alone [OF interleaved_inv_init]) (simp add: pool_init_def)
  moreover have "st_upstream st = probeUpstreamServers (su_fl su) (flag_maxRTT env) (first_probe env) ?up"
    "cache (st_jojo st) = NewARC env (flag_cacheSize env)"
    using st(1) by (auto simp: main_start_def Let_def split: if_splits sum.splits)
  moreover have "sys_cache s = cache (st_jojo st)"
    using st(2) [symmetric] by (simp add: jojo_view_def)
  ultimately show ?thesis
    using st assms(2)
    by (auto simp: jojo_inv_def replies_ok_def cache_ok_def handler_ok_def thread_ok_def prober_def)
qed

definition jojo_laws ::
  "('c, 'f) main_env \<Rightarrow> ('c, 'f) jojo_setup \<Rightarrow> ('c \<Rightarrow> (cache_key \<times> cache_val) set) \<Rightarrow> bool" where
  "jojo_laws env su stored \<longleftrightarrow>
     dns_ids su \<and> cache_sound (cfg_cache (su_cfg su)) stored \<and> (\<forall>n. stored (NewARC env n) = {})"

interpretation jojo: inductive_invariant "\<lambda>s. jojo_laws env su stored \<and> jojo_init env su s" "jojo_step su"
  "\<lambda>s. jojo_laws env su stored \<and> jojo_inv su (split_on (CHR '','') (flag_upstream env)) stored s"
  by unfold_locales (auto simp: jojo_laws_def intro: jojo_init_inv jojo_step_inv)

section \<open>Properties\<close>


text \<open>Witness: one server, one thread, and one query that misses the cache and is resolved.\<close>

definition demo_reply :: "nat \<Rightarrow> msg \<Rightarrow> string \<Rightarrow> exchange_result" where
  "demo_reply i m a = \<lparr>ex_msg = Some m, ex_rtt = 0, ex_err = None\<rparr>"

definition demo_env :: "(cache_key \<Rightarrow> cache_val option, rat) main_env" where
  "demo_env = \<lparr>flag_memSize = 1, flag_cacheSize = 2, flag_localRRSFile = [], flag_upstream = ''a'', flag_maxRTT = 1,
     rand_Read = (\<lambda>_. (replicate 8 0, 8, False)), NewARC = (\<lambda>_. Map.empty), main_NewRR = (\<lambda>_. Inr None),
     main_open = (\<lambda>_. Inr []), first_probe = (\<lambda>i. demo_reply i new_msg)\<rparr>"

definition demo_setup :: "(cache_key \<Rightarrow> cache_val option, rat) jojo_setup" where
  "demo_setup = \<lparr>su_fl = rat_ops, su_cfg = sample_jojo 100, su_pool = sample_cfg, su_udp = demo_reply,
     su_tcp = demo_reply, su_maxClients = 1, su_memSize = 1024 * 1024, su_isTCP = (\<lambda>_. False),
     su_query = (\<lambda>_. sample_query 3 ''x.org'')\<rparr>"

definition demo_pool :: "rat upstream_state" where
  "demo_pool = probeUpstreamServers rat_ops 1 (\<lambda>i. demo_reply i new_msg) sample_pool"

definition demo_sys :: "nat list \<Rightarrow> submitter_pc \<Rightarrow> thread_pc \<Rightarrow> handler_pc \<Rightarrow> (cache_key \<Rightarrow> cache_val option)
    \<Rightarrow> rat upstream_state \<Rightarrow> (cache_key \<Rightarrow> cache_val option, rat) jojo_sys" where
  "demo_sys q sub th h c up = \<lparr>sys_cache = c,
     ring = \<lparr>resolverRing = q, submitter = (\<lambda>_. NotStarted)(0 := sub), thread = (\<lambda>_. ThreadIdle)(0 := th),
             upstream = up, slip_count = 0\<rparr>,
     handler = (\<lambda>_. NewQuery)(0 := h), vacuum = Asleep\<rparr>"

lemmas demo_defs = demo_setup_def demo_sys_def jojo_store_def jojo_view_def

lemma demo_laws: "jojo_laws demo_env demo_setup (\<lambda>c. {(k, v). c k = Some v})"
  by (auto simp: jojo_laws_def dns_ids_def cache_sound_def demo_env_def demo_setup_def demo_reply_def
      sample_jojo_def sample_lib_def map_cache_def split: if_splits)

lemma demo_init: "jojo_init demo_env demo_setup (demo_sys [] NotStarted ThreadIdle NewQuery Map.empty demo_pool)"
  by (simp add: jojo_init_def main_start_def demo_env_def demo_defs parseLocalRRSFile_def randUint64_def
      sample_jojo_def sample_cfg_def demo_pool_def sample_pool_def rat_ops_def fun_upd_idem)

lemma demo_begin:
  "(jojo_step demo_setup)\<^sup>*\<^sup>* (demo_sys [] NotStarted ThreadIdle NewQuery Map.empty demo_pool)
     (demo_sys [] NotStarted ThreadIdle (Resolving sample_key None) Map.empty demo_pool)"
proof -
  let ?S = "\<lambda>h. demo_sys [] NotStarted ThreadIdle h Map.empty demo_pool"
  have "route_begin (su_cfg demo_setup) False 0 (sample_query 3 ''x.org'') \<lparr>cache = Map.empty, slip = 0\<rparr> =
      (Missed sample_key None, \<lparr>cache = Map.empty, slip = 0\<rparr>)"
    by (simp add: route_begin_def demo_setup_def sample_getKey sample_special)
      (simp add: sample_jojo_def map_cache_def)
  then have "jojo_step demo_setup (?S NewQuery) (?S (Missed sample_key None))"
    using jojo_step.query_arrives [of "?S NewQuery" 0 demo_setup 0] by (simp add: demo_defs fun_upd_idem)
  moreover have "jojo_step demo_setup (?S (Missed sample_key None)) (?S (Resolving sample_key None))"
    using jojo_step.slip_loaded [of "?S (Missed sample_key None)" 0 sample_key None demo_setup]
    by (simp add: demo_defs route_load_def slips_def)
  ultimately show ?thesis
    by (meson converse_rtranclp_into_rtranclp r_into_rtranclp)
qed

text \<open>Steps of the queue between states of the sample, for the request of the one handler.\<close>

lemma demo_ring:
  assumes "ring_step rat_ops (su_net demo_setup) 1 (su_request demo_setup)
      (ring (demo_sys q sub th (Resolving k v) c up)) (ring (demo_sys q' sub' th' (Resolving k v) c up'))"
  shows "jojo_step demo_setup (demo_sys q sub th (Resolving k v) c up) (demo_sys q' sub' th' (Resolving k v) c up')"
proof -
  have "su_fl demo_setup = rat_ops" "su_maxClients demo_setup = 1"
    by (simp_all add: demo_setup_def)
  with assms have "jojo_step demo_setup (demo_sys q sub th (Resolving k v) c up)
      ((demo_sys q sub th (Resolving k v) c up)\<lparr>ring := ring (demo_sys q' sub' th' (Resolving k v) c up')\<rparr>)"
    by (intro jojo_step.ring_moves) (simp_all add: demo_sys_def)
  then show ?thesis
    by (simp add: demo_sys_def)
qed

lemma demo_resolves:
  assumes "pickUpstream (cfg_hash (su_net demo_setup 0)) (upstreamServers up) (su_request demo_setup 0) = Inr a"
    and "exchange (su_net demo_setup 0) (su_request demo_setup 0) a = r" and "ex_err r = None"
    and "record_rtt rat_ops (ex_rtt r) up = (mean, up')" and "\<not> f_less rat_ops (cfg_maxRTT (su_net demo_setup 0)) mean"
  shows "(jojo_step demo_setup)\<^sup>*\<^sup>* (demo_sys [] NotStarted ThreadIdle (Resolving k v) c up)
    (demo_sys [] (Returned (Inr (ex_msg r, ex_rtt r))) ThreadIdle (Resolving k v) c up')"
proof -
  let ?S = "\<lambda>q sub th. demo_sys q sub th (Resolving k v) c up"
  let ?T = "\<lambda>sub th. demo_sys [] sub th (Resolving k v) c up'" and ?rep = "Inr (ex_msg r, ex_rtt r)"
  let ?R = "ring_step rat_ops (su_net demo_setup) 1 (su_request demo_setup)"
  have "?R (ring (?S [] NotStarted ThreadIdle)) (ring (?S [] Selecting ThreadIdle))"
    using ring_step.submit [of "ring (?S [] NotStarted ThreadIdle)" 0] by (simp add: demo_sys_def)
  moreover have "?R (ring (?S [] Selecting ThreadIdle)) (ring (?S [0] WaitReply ThreadIdle))"
    using ring_step.enqueue [of "ring (?S [] Selecting ThreadIdle)" 0 1] by (simp add: demo_sys_def)
  moreover have "?R (ring (?S [0] WaitReply ThreadIdle)) (ring (?S [] WaitReply (Serving 0)))"
    using ring_step.thread_recv [of 0 1 "ring (?S [0] WaitReply ThreadIdle)" 0 "[]"] by (simp add: demo_sys_def)
  moreover have "?R (ring (?S [] WaitReply (Serving 0))) (ring (?S [] WaitReply (Exchanging 0 a)))"
    using ring_step.thread_picks [of 0 1 "ring (?S [] WaitReply (Serving 0))" 0 "su_net demo_setup" "su_request demo_setup" a]
      assms(1) by (simp add: demo_sys_def)
  moreover have "?R (ring (?S [] WaitReply (Exchanging 0 a))) (ring (?T WaitReply (Replying 0 ?rep)))"
    using ring_step.thread_exchanges [of 0 1 "ring (?S [] WaitReply (Exchanging 0 a))" 0 a r "su_net demo_setup"
        "su_request demo_setup" rat_ops mean up'] assms(2-5) by (simp add: demo_sys_def)
  moreover have "?R (ring (?T WaitReply (Replying 0 ?rep))) (ring (?T (Returned ?rep) ThreadIdle))"
    using ring_step.thread_reply [of 0 1 "ring (?T WaitReply (Replying 0 ?rep))" 0] by (simp add: demo_sys_def)
  ultimately show ?thesis
    using demo_ring by (meson converse_rtranclp_into_rtranclp rtranclp.rtrancl_refl)
qed

definition demo_answer :: msg where
  "demo_answer = (sample_query 3 ''x.org'')\<lparr>Compress := True\<rparr>"

lemma demo_end:
  "jojo_step demo_setup (demo_sys [] (Returned (Inr (Some (sample_query 3 ''x.org''), 0))) ThreadIdle
       (Resolving sample_key None) Map.empty up)
     (demo_sys [] (Returned (Inr (Some (sample_query 3 ''x.org''), 0))) ThreadIdle
       (Finished (Inr (WriteMsg demo_answer)))
       [sample_key \<mapsto> \<lparr>ValidUntil = getMinTTL demo_answer, cached_Response = demo_answer\<rparr>] up)"
proof -
  have "route_end (su_cfg demo_setup) False 0 (sample_query 3 ''x.org'') sample_key None
      (Inr (Some (sample_query 3 ''x.org''), 0)) \<lparr>cache = Map.empty, slip = 0\<rparr> =
    (Inr (WriteMsg demo_answer), \<lparr>cache = [sample_key \<mapsto> \<lparr>ValidUntil = getMinTTL demo_answer,
       cached_Response = demo_answer\<rparr>], slip = 0\<rparr>)"
    by (simp add: route_end_def demo_setup_def demo_answer_def [symmetric])
      (simp add: sample_jojo_def sample_lib_def map_cache_def send_limited_def getMaxPayloadSize_def)
  then show ?thesis
    using jojo_step.reply_arrives [of "demo_sys [] (Returned (Inr (Some (sample_query 3 ''x.org''), 0))) ThreadIdle
       (Resolving sample_key None) Map.empty up" 0 sample_key None "Inr (Some (sample_query 3 ''x.org''), 0)" demo_setup 0]
    by (simp add: demo_defs)
qed

lemma demo_resolved:
  obtains up where "(jojo_step demo_setup)\<^sup>*\<^sup>* (demo_sys [] NotStarted ThreadIdle (Resolving k v) c demo_pool)
    (demo_sys [] (Returned (Inr (Some (sample_query 3 ''x.org''), 0))) ThreadIdle (Resolving k v) c up)"
proof -
  have req: "su_request demo_setup 0 = sample_query 3 ''x.org''"
    by (simp add: su_request_def su_key_def demo_setup_def sample_getKey ring_request_def)
      (simp add: sample_jojo_def sample_lib_def sample_query_def new_msg_def)
  have up: "demo_pool = \<lparr>upstreamServers = \<lparr>servers = [\<lparr>addr = ''a'', failures = 0, offline = False\<rparr>], live = [''a'']\<rparr>,
      upstreamRtt = \<lparr>RTT = 0, count = 0\<rparr>\<rparr>"
    by (simp add: demo_pool_def sample_pool_def probeUpstreamServers_def parse_servers probe_server_def
        demo_reply_def resetRTT_def rat_ops_def Seconds_def go_quot_def go_rem_def)
  let ?r = "demo_reply 0 (sample_query 3 ''x.org'') ''a''"
  have pick: "pickUpstream (cfg_hash (su_net demo_setup 0)) (upstreamServers demo_pool) (su_request demo_setup 0) = Inr ''a''"
    unfolding req by (simp add: pickUpstream_def up go_index_def sample_query_def new_msg_def with_net_def
        demo_setup_def sample_cfg_def Let_def)
  have ex: "exchange (su_net demo_setup 0) (su_request demo_setup 0) ''a'' = ?r" "ex_err ?r = None"
    unfolding req by (simp_all add: exchange_def with_net_def demo_setup_def demo_reply_def)
  have mean: "record_rtt rat_ops (ex_rtt ?r) demo_pool = (0, snd (record_rtt rat_ops (ex_rtt ?r) demo_pool))"
    by (simp add: record_rtt_def up rat_ops_def demo_reply_def Seconds_def go_quot_def go_rem_def)
  have "\<not> f_less rat_ops (cfg_maxRTT (su_net demo_setup 0)) 0"
    by (simp add: rat_ops_def with_net_def demo_setup_def sample_cfg_def)
  from demo_resolves [OF pick ex mean this, of k v c] show ?thesis
    by (intro that) (simp add: demo_reply_def)
qed


end
