(* ===== verification/Raft_KVStore.thy ===== *)
theory Raft_KVStore
  imports Go_Prelude
begin

text \<open>
  The key-value store of \<open>src/goraft-explore/kvstore.go\<close>: lookups, proposals, the reading of
  the commit channel, snapshots and the recovery from them.

  The commit channel carries either the data of a committed entry or a nil pointer. A nil
  makes the store ask its snapshotter for the last snapshot, so the model pairs a nil with
  what \<open>snapshotter.Load\<close> returns at that moment. The encodings are those of the packages
  \<open>encoding/gob\<close> and \<open>encoding/json\<close>, parameters of the model; the laws of a round trip are
  hypotheses of the properties that need them.
\<close>

section \<open>State\<close>

type_synonym kv_map = "string \<Rightarrow> string option"

record kv =
  Key :: string
  Val :: string

record codec =
  gob_encode :: "kv \<Rightarrow> string + string"
  gob_decode :: "string \<Rightarrow> string + kv"
  json_marshal :: "kv_map \<Rightarrow> string + string"
  json_unmarshal :: "string \<Rightarrow> string + kv_map"

text \<open>What \<open>snapshotter.Load\<close> returns; of a snapshot only the data matters here.\<close>

datatype load_result = ErrNoSnapshot | LoadError string | Loaded string

text \<open>An item of the channel; the last one may be its closing, with what \<open>errorC\<close> then delivers.\<close>

datatype commit = CommitData string | CommitNil load_result | CommitClosed "string option"

text \<open>
  How a run of \<open>readCommits\<close> over a finite part of the channel ends: still reading, returned
  with the rest of the channel unread, or the process ended with a message.
\<close>

datatype read_result =
    Reading kv_map
  | ReadReturned kv_map "commit list"
  | Died string

section \<open>Operations\<close>

definition Lookup :: "kv_map \<Rightarrow> string \<Rightarrow> string \<times> bool" where
  "Lookup kvStore key = (case kvStore key of Some v \<Rightarrow> (v, True) | None \<Rightarrow> ([], False))"

text \<open>\<open>Propose\<close>: the string sent on \<open>proposeC\<close>, or the message of \<open>log.Fatal\<close>.\<close>

definition Propose :: "codec \<Rightarrow> string \<Rightarrow> string \<Rightarrow> string + string" where
  "Propose c k v = gob_encode c \<lparr>Key = k, Val = v\<rparr>"

definition getSnapshot :: "codec \<Rightarrow> kv_map \<Rightarrow> string + string" where
  "getSnapshot c kvStore = json_marshal c kvStore"

definition recoverFromSnapshot :: "codec \<Rightarrow> string \<Rightarrow> kv_map \<Rightarrow> string + kv_map" where
  "recoverFromSnapshot c snapshot kvStore =
     (case json_unmarshal c snapshot of Inl e \<Rightarrow> Inl e | Inr store \<Rightarrow> Inr store)"

fun readCommits :: "codec \<Rightarrow> kv_map \<Rightarrow> commit list \<Rightarrow> read_result" where
  "readCommits c kvStore [] = Reading kvStore"
| "readCommits c kvStore (CommitNil ErrNoSnapshot # cs) = ReadReturned kvStore cs"
| "readCommits c kvStore (CommitNil (LoadError e) # cs) = Died e"
| "readCommits c kvStore (CommitNil (Loaded data) # cs) =
     (case recoverFromSnapshot c data kvStore of
        Inl e \<Rightarrow> Died e
      | Inr store \<Rightarrow> readCommits c store cs)"
| "readCommits c kvStore (CommitClosed (Some err) # cs) = Died err"
| "readCommits c kvStore (CommitClosed None # cs) = ReadReturned kvStore [CommitClosed None]"
| "readCommits c kvStore (CommitData data # cs) =
     (case gob_decode c data of
        Inl e \<Rightarrow> Died (''raftexample: could not decode message ('' @ e @ '')'')
      | Inr dataKv \<Rightarrow> readCommits c (kvStore(Key dataKv \<mapsto> Val dataKv)) cs)"

text \<open>
  \<open>newKVStore\<close> reads the channel until \<open>readCommits\<close> returns, which makes the store
  available to the server; then a goroutine reads on.
\<close>

datatype store_state =
    Replaying kv_map
  | Serving_kv kv_map
  | Unread kv_map
  | StoreDied string

definition newKVStore :: "codec \<Rightarrow> commit list \<Rightarrow> store_state" where
  "newKVStore c cs =
     (case readCommits c Map.empty cs of
        Reading m \<Rightarrow> Replaying m
      | Died e \<Rightarrow> StoreDied e
      | ReadReturned m rest \<Rightarrow>
          (case readCommits c m rest of
             Reading m' \<Rightarrow> Serving_kv m'
           | ReadReturned m' _ \<Rightarrow> Unread m'
           | Died e \<Rightarrow> StoreDied e))"

section \<open>Lemmas\<close>

text \<open>
  What a client relies on: a store starts without keys, and a lookup after an update finds
  the new value under its key and the old ones elsewhere. Then a lookup after a log of
  updates finds the last one for the key.
\<close>

locale kv_contract =
  fixes empty :: 'm
    and upd :: "kv \<Rightarrow> 'm \<Rightarrow> 'm"
    and lookup :: "'m \<Rightarrow> string \<Rightarrow> string \<times> bool"
  assumes lookup_empty: "lookup empty k = ([], False)"
    and lookup_upd: "lookup (upd e m) k = (if Key e = k then (Val e, True) else lookup m k)"
begin

lemma lookup_log:
  "lookup (fold upd es m) k =
     (case find (\<lambda>e. Key e = k) (rev es) of Some e \<Rightarrow> (Val e, True) | None \<Rightarrow> lookup m k)"
proof (induction es rule: rev_induct)
  case (snoc e es)
  then show ?case
    by (simp add: lookup_upd)
qed simp

lemma lookup_log_empty:
  "lookup (fold upd es empty) k =
     (case find (\<lambda>e. Key e = k) (rev es) of Some e \<Rightarrow> (Val e, True) | None \<Rightarrow> ([], False))"
  unfolding lookup_log lookup_empty ..

end

definition put :: "kv \<Rightarrow> kv_map \<Rightarrow> kv_map" where
  "put e m = m(Key e \<mapsto> Val e)"

interpretation kvs: kv_contract Map.empty put Lookup
  by unfold_locales (simp_all add: Lookup_def put_def)

definition put_all :: "kv list \<Rightarrow> kv_map \<Rightarrow> kv_map" where
  "put_all = fold put"

lemma put_all_simps [simp]:
  "put_all [] m = m" "put_all (e # es) m = put_all es (put e m)"
  "put_all (es @ fs) m = put_all fs (put_all es m)"
  by (simp_all add: put_all_def)

text \<open>\<open>decodes c ds es\<close>: every string of the list is the encoding of its pair.\<close>

definition decodes :: "codec \<Rightarrow> string list \<Rightarrow> kv list \<Rightarrow> bool" where
  "decodes c ds es \<longleftrightarrow> map (gob_decode c) ds = map Inr es"

lemma decodes_simps [simp]:
  "decodes c [] es \<longleftrightarrow> es = []"
  "decodes c (d # ds) es \<longleftrightarrow> (\<exists>e es'. es = e # es' \<and> gob_decode c d = Inr e \<and> decodes c ds es')"
  by (auto simp: decodes_def map_eq_Cons_conv Cons_eq_map_conv)

lemma decodes_append_iff:
  "decodes c (ds @ ds') es \<longleftrightarrow> (\<exists>es1 es2. es = es1 @ es2 \<and> decodes c ds es1 \<and> decodes c ds' es2)"
  by (auto simp: decodes_def map_eq_append_conv append_eq_map_conv)

lemma readCommits_data_append:
  "decodes c ds es \<Longrightarrow> readCommits c m (map CommitData ds @ cs) = readCommits c (put_all es m) cs"
  by (induction ds arbitrary: es m) (auto simp: put_def)

lemma readCommits_data:
  "decodes c ds es \<Longrightarrow> readCommits c m (map CommitData ds) = Reading (put_all es m)"
  using readCommits_data_append [of c ds es m "[]"] by simp

lemma newKVStore_restart:
  "decodes c ds es \<Longrightarrow> decodes c ds' fs \<Longrightarrow> json_unmarshal c snapshot = Inr m0 \<Longrightarrow>
   newKVStore c (map CommitData ds @ CommitNil (Loaded snapshot) # map CommitData ds') =
   Replaying (put_all fs m0)"
  by (simp add: newKVStore_def readCommits_data_append readCommits_data recoverFromSnapshot_def)

lemma newKVStore_serving:
  "decodes c ds es \<Longrightarrow> decodes c ds' fs \<Longrightarrow>
   newKVStore c (map CommitData ds @ CommitNil ErrNoSnapshot # map CommitData ds') =
   Serving_kv (put_all (es @ fs) Map.empty)"
  by (simp add: newKVStore_def readCommits_data_append readCommits_data)

lemma readCommits_with_snapshot_never_returns:
  "(\<forall>x \<in> set cs. x \<noteq> CommitNil ErrNoSnapshot \<and> x \<noteq> CommitClosed None) \<Longrightarrow> readCommits c m cs \<noteq> ReadReturned m' rest"
  by (induction c m cs rule: readCommits.induct) (auto split: sum.splits)

section \<open>Properties\<close>

text \<open>
  A store that starts without a snapshot serves exactly the committed log: after the
  replayed entries, the nil that ends the replay and the entries committed later, the store
  is available and a lookup returns the value of the last entry for the key, from before or
  after the replay.
\<close>

theorem newKVStore_serves_log:
  assumes "decodes c replayed es" and "decodes c later fs"
  shows "\<exists>m. newKVStore c (map CommitData replayed @ CommitNil ErrNoSnapshot # map CommitData later) =
       Serving_kv m \<and>
     Lookup m k = (case find (\<lambda>e. Key e = k) (rev (es @ fs)) of
                     Some e \<Rightarrow> (Val e, True) | None \<Rightarrow> ([], False))"
proof -
  have "newKVStore c (map CommitData replayed @ CommitNil ErrNoSnapshot # map CommitData later) =
      Serving_kv (put_all (es @ fs) Map.empty)"
    using assms by (rule newKVStore_serving)
  then show ?thesis
    using kvs.lookup_log_empty [of "es @ fs" k] by (auto simp: put_all_def)
qed

text \<open>
  (C37) A restart with a snapshot on disk loses what was replayed after the snapshot: the nil
  that ends the replay makes \<open>readCommits\<close> load the snapshot over the store, so the replayed
  entries have no effect, and \<open>newKVStore\<close> does not return but goes on reading, so the
  store never becomes available to the server.
\<close>

theorem newKVStore_restart_loses_replay:
  assumes "decodes c replayed es" and "decodes c later fs" and "json_unmarshal c snapshot = Inr m0"
  shows "newKVStore c (map CommitData replayed @ CommitNil (Loaded snapshot) # map CommitData later) =
    Replaying (put_all fs m0)"
  using assms by (rule newKVStore_restart)

section \<open>Witnesses\<close>

text \<open>A codec that writes pairs of one-letter keys and values, and one fixed snapshot.\<close>

definition sample_codec :: codec where
  "sample_codec = \<lparr>gob_encode = (\<lambda>e. Inr (Key e @ Val e)),
     gob_decode = (\<lambda>s. case s of [k, v] \<Rightarrow> Inr \<lparr>Key = [k], Val = [v]\<rparr> | _ \<Rightarrow> Inl ''EOF''),
     json_marshal = (\<lambda>_. Inr ''snap''), json_unmarshal = (\<lambda>_. Inr [''k'' \<mapsto> ''0''])\<rparr>"

theorem newKVStore_serves_log_witness:
  "\<exists>m. newKVStore sample_codec [CommitData ''k1'', CommitNil ErrNoSnapshot, CommitData ''k2''] =
     Serving_kv m \<and> Lookup m ''k'' = (''2'', True)"
  using newKVStore_serves_log [of sample_codec "[''k1'']" "[\<lparr>Key = ''k'', Val = ''1''\<rparr>]"
      "[''k2'']" "[\<lparr>Key = ''k'', Val = ''2''\<rparr>]" "''k''"]
  by (simp add: sample_codec_def)

theorem newKVStore_restart_loses_replay_witness:
  "newKVStore sample_codec [CommitData ''k1'', CommitNil (Loaded ''snap'')] = Replaying [''k'' \<mapsto> ''0'']"
  using newKVStore_restart_loses_replay [of sample_codec "[''k1'']" "[\<lparr>Key = ''k'', Val = ''1''\<rparr>]"
      "[]" "[]" "''snap''" "[''k'' \<mapsto> ''0'']"]
  by (simp add: sample_codec_def)

end
