(* ===== verification/Raft_Node.thy ===== *)
theory Raft_Node
  imports Raft_KVStore
begin

text \<open>
  The raft node of \<open>src/goraft-explore/raft.go\<close>: which committed entries it still has to
  apply, their publication on the commit channel, snapshots and log compaction, the replay
  of the write-ahead log at start-up, the goroutine that forwards proposals and the event
  loop.

  The consensus algorithm, the log storage, the write-ahead log, the snapshot files and the
  transport are packages of \<open>coreos/etcd\<close>. The raft state machine and the memory storage
  are states \<open>'n\<close> and \<open>'s\<close> with their operations given by the records \<open>raft_lib\<close>; the
  effects on the channels, the disk and the network are collected in a list in program
  order. Log indexes are words of 64 bits, as in the code.
\<close>

section \<open>State\<close>

datatype entry_type = EntryNormal | EntryConfChange

record entry =
  Index :: uint64
  Type :: entry_type
  Data :: string

datatype conf_change_type = ConfChangeAddNode | ConfChangeRemoveNode | ConfChangeUpdateNode

record conf_change =
  cc_ID :: uint64
  cc_Type :: conf_change_type
  NodeID :: uint64
  Context :: string

type_synonym conf_state = "uint64 list"

record snapshot =
  snap_Index :: uint64
  snap_Term :: uint64
  snap_ConfState :: conf_state
  snap_Data :: string

record hard_state =
  hs_Term :: uint64
  hs_Vote :: uint64
  hs_Commit :: uint64

record ('n, 's) raft_lib =
  Unmarshal :: "string \<Rightarrow> conf_change"
  ApplyConfChange :: "conf_change \<Rightarrow> 'n \<Rightarrow> conf_state \<times> 'n"
  ApplySnapshot :: "snapshot \<Rightarrow> 's \<Rightarrow> 's"
  SetHardState :: "hard_state \<Rightarrow> 's \<Rightarrow> 's"
  Append :: "entry list \<Rightarrow> 's \<Rightarrow> 's"
  CreateSnapshot :: "uint64 \<Rightarrow> conf_state \<Rightarrow> string \<Rightarrow> 's \<Rightarrow> string + (snapshot \<times> 's)"
  Compact :: "uint64 \<Rightarrow> 's \<Rightarrow> string + 's"
  Step :: "string \<Rightarrow> 'n \<Rightarrow> string option \<times> 'n"

record ('n, 's) raft_node =
  rc_id :: int
  lastIndex :: uint64
  confState :: conf_state
  snapshotIndex :: uint64
  appliedIndex :: uint64
  snapCount :: uint64
  node :: 'n
  raftStorage :: 's

datatype effect =
    SendCommit "string option"
  | AddPeer uint64 string
  | RemovePeer uint64
  | WalSave hard_state "entry list"
  | WalSaveSnapshot uint64 uint64
  | SnapSave snapshot
  | WalReleaseLockTo uint64
  | SendMessages string
  | Advance
  | Tick

text \<open>\<open>log.Fatalf\<close> and the panics end the process.\<close>

datatype raft_error = Fatal string | Panic string

abbreviation defaultSnapCount :: uint64 where "defaultSnapCount \<equiv> 10000"
abbreviation snapshotCatchUpEntriesN :: uint64 where "snapshotCatchUpEntriesN \<equiv> 10000"

section \<open>Applying committed entries\<close>

definition entriesToApply :: "uint64 \<Rightarrow> entry list \<Rightarrow> raft_error + entry list" where
  "entriesToApply applied ents =
     (if length ents = 0 then Inr []
      else let firstIdx = Index (ents ! 0)
           in if firstIdx > applied + 1
              then Inl (Fatal ''first index of committed entry should <= progress.appliedIndex'')
              else if applied - firstIdx + 1 < of_nat (length ents)
              then Inr (drop (unat (applied - firstIdx + 1)) ents)
              else Inr [])"

text \<open>
  Each send on the commit channel is a choice between the send and the closed \<open>stopc\<close>; the
  argument \<open>stop\<close> counts the sends that succeed before \<open>stopc\<close> is chosen, \<open>None\<close> for a
  channel that stays open.
\<close>

definition try_send :: "nat option \<Rightarrow> nat option option" where
  "try_send stop = (case stop of None \<Rightarrow> Some None | Some 0 \<Rightarrow> None | Some (Suc n) \<Rightarrow> Some (Some n))"

text \<open>The switch on the entry's type: whether to go on, the sends left, the node, the effects.\<close>

definition publish_switch ::
  "('n, 's) raft_lib \<Rightarrow> nat option \<Rightarrow> entry \<Rightarrow> ('n, 's) raft_node
   \<Rightarrow> bool \<times> nat option \<times> ('n, 's) raft_node \<times> effect list" where
  "publish_switch lib stop e rc =
     (case Type e of
        EntryNormal \<Rightarrow>
          if length (Data e) = 0 then (True, stop, rc, [])
          else (case try_send stop of
                  None \<Rightarrow> (False, stop, rc, [])
                | Some stop' \<Rightarrow> (True, stop', rc, [SendCommit (Some (Data e))]))
      | EntryConfChange \<Rightarrow>
          let cc = Unmarshal lib (Data e);
              (cs, n) = ApplyConfChange lib cc (node rc);
              rc = rc\<lparr>confState := cs, node := n\<rparr>
          in (case cc_Type cc of
                ConfChangeAddNode \<Rightarrow>
                  (True, stop, rc, if length (Context cc) > 0 then [AddPeer (NodeID cc) (Context cc)] else [])
              | ConfChangeRemoveNode \<Rightarrow>
                  if NodeID cc = of_int (rc_id rc) then (False, stop, rc, [])
                  else (True, stop, rc, [RemovePeer (NodeID cc)])
              | ConfChangeUpdateNode \<Rightarrow> (True, stop, rc, [])))"

fun publishEntries ::
  "('n, 's) raft_lib \<Rightarrow> nat option \<Rightarrow> entry list \<Rightarrow> ('n, 's) raft_node
   \<Rightarrow> bool \<times> nat option \<times> ('n, 's) raft_node \<times> effect list" where
  "publishEntries lib stop [] rc = (True, stop, rc, [])"
| "publishEntries lib stop (e # es) rc =
     (case publish_switch lib stop e rc of
        (False, stop, rc, out) \<Rightarrow> (False, stop, rc, out)
      | (True, stop, rc, out) \<Rightarrow>
          let rc = rc\<lparr>appliedIndex := Index e\<rparr>
          in if Index e = lastIndex rc
             then (case try_send stop of
                     None \<Rightarrow> (False, stop, rc, out)
                   | Some stop \<Rightarrow>
                       (case publishEntries lib stop es rc of (ok, stop, rc, out') \<Rightarrow>
                          (ok, stop, rc, out @ SendCommit None # out')))
             else (case publishEntries lib stop es rc of (ok, stop, rc, out') \<Rightarrow>
                     (ok, stop, rc, out @ out')))"

section \<open>Snapshots\<close>

text \<open>What the disk answers to the three calls of \<open>saveSnap\<close>, and the callback for the data.\<close>

record io_env =
  SaveSnapshot_err :: "string option"
  SaveSnap_err :: "string option"
  ReleaseLockTo_err :: "string option"
  snapshot_data :: "string + string"

definition saveSnap :: "io_env \<Rightarrow> snapshot \<Rightarrow> string option \<times> effect list" where
  "saveSnap io snap =
     (case SaveSnapshot_err io of
        Some err \<Rightarrow> (Some err, [])
      | None \<Rightarrow>
          let out = [WalSaveSnapshot (snap_Index snap) (snap_Term snap)]
          in (case SaveSnap_err io of
                Some err \<Rightarrow> (Some err, out)
              | None \<Rightarrow>
                  let out = out @ [SnapSave snap]
                  in (case ReleaseLockTo_err io of
                        Some err \<Rightarrow> (Some err, out)
                      | None \<Rightarrow> (None, out @ [WalReleaseLockTo (snap_Index snap)]))))"

definition IsEmptySnap :: "snapshot \<Rightarrow> bool" where
  "IsEmptySnap snap \<longleftrightarrow> snap_Index snap = 0"

definition publishSnapshot ::
  "snapshot \<Rightarrow> ('n, 's) raft_node \<Rightarrow> raft_error + (('n, 's) raft_node \<times> effect list)" where
  "publishSnapshot snapshotToSave rc =
     (if IsEmptySnap snapshotToSave then Inr (rc, [])
      else if snap_Index snapshotToSave \<le> appliedIndex rc
      then Inl (Fatal ''snapshot index should > progress.appliedIndex + 1'')
      else Inr (rc\<lparr>confState := snap_ConfState snapshotToSave,
                    snapshotIndex := snap_Index snapshotToSave,
                    appliedIndex := snap_Index snapshotToSave\<rparr>, [SendCommit None]))"

definition compact_index :: "uint64 \<Rightarrow> uint64" where
  "compact_index applied =
     (if applied > snapshotCatchUpEntriesN then applied - snapshotCatchUpEntriesN else 1)"

definition maybeTriggerSnapshot ::
  "('n, 's) raft_lib \<Rightarrow> io_env \<Rightarrow> ('n, 's) raft_node
   \<Rightarrow> raft_error + (('n, 's) raft_node \<times> effect list)" where
  "maybeTriggerSnapshot lib io rc =
     (if appliedIndex rc - snapshotIndex rc \<le> snapCount rc then Inr (rc, [])
      else case snapshot_data io of
             Inl err \<Rightarrow> Inl (Panic err)
           | Inr data \<Rightarrow>
               (case CreateSnapshot lib (appliedIndex rc) (confState rc) data (raftStorage rc) of
                  Inl err \<Rightarrow> Inl (Panic err)
                | Inr (snapShot, st) \<Rightarrow>
                    (case saveSnap io snapShot of
                       (Some err, out) \<Rightarrow> Inl (Panic err)
                     | (None, out) \<Rightarrow>
                         (case Compact lib (compact_index (appliedIndex rc)) st of
                            Inl err \<Rightarrow> Inl (Panic err)
                          | Inr st' \<Rightarrow>
                              Inr (rc\<lparr>raftStorage := st', snapshotIndex := appliedIndex rc\<rparr>, out)))))"

section \<open>The event loop\<close>

record ready =
  rd_HardState :: hard_state
  rd_Entries :: "entry list"
  rd_Snapshot :: snapshot
  rd_CommittedEntries :: "entry list"
  rd_Messages :: string

text \<open>The snapshot part of a ready batch; the error of \<open>saveSnap\<close> is ignored, as in the code.\<close>

definition ready_snapshot ::
  "('n, 's) raft_lib \<Rightarrow> io_env \<Rightarrow> snapshot \<Rightarrow> ('n, 's) raft_node
   \<Rightarrow> raft_error + (('n, 's) raft_node \<times> effect list)" where
  "ready_snapshot lib io snap rc =
     (if IsEmptySnap snap then Inr (rc, [])
      else let (_, out) = saveSnap io snap;
               rc = rc\<lparr>raftStorage := ApplySnapshot lib snap (raftStorage rc)\<rparr>
           in (case publishSnapshot snap rc of
                 Inl err \<Rightarrow> Inl err
               | Inr (rc, out') \<Rightarrow> Inr (rc, out @ out')))"

text \<open>One ready batch. The flag is false when the node stops.\<close>

definition handle_ready ::
  "('n, 's) raft_lib \<Rightarrow> io_env \<Rightarrow> nat option \<Rightarrow> ready \<Rightarrow> ('n, 's) raft_node
   \<Rightarrow> raft_error + (bool \<times> ('n, 's) raft_node \<times> effect list)" where
  "handle_ready lib io stop rd rc =
     (case ready_snapshot lib io (rd_Snapshot rd) rc of
        Inl err \<Rightarrow> Inl err
      | Inr (rc, out1) \<Rightarrow>
          let rc = rc\<lparr>raftStorage := Append lib (rd_Entries rd) (raftStorage rc)\<rparr>;
              out1 = WalSave (rd_HardState rd) (rd_Entries rd) # out1 @ [SendMessages (rd_Messages rd)]
          in (case entriesToApply (appliedIndex rc) (rd_CommittedEntries rd) of
                Inl err \<Rightarrow> Inl err
              | Inr ents \<Rightarrow>
                  (case publishEntries lib stop ents rc of (ok, _, rc, out2) \<Rightarrow>
                     if \<not> ok then Inr (False, rc, out1 @ out2)
                     else (case maybeTriggerSnapshot lib io rc of
                             Inl err \<Rightarrow> Inl err
                           | Inr (rc, out3) \<Rightarrow> Inr (True, rc, out1 @ out2 @ out3 @ [Advance])))))"

text \<open>
  The events of \<open>serveChannels\<close>; the loop ends with \<open>stop\<close> or \<open>writeError\<close>. The result has
  the node and how the loop ended, \<open>None\<close> when it still runs; the effects of a batch that
  ends the process are left out.
\<close>

datatype loop_event =
    TickerFired
  | Ready io_env "nat option" ready
  | TransportError string
  | StopRequested

datatype loop_end = StoppedLoop | WroteError string | Crashed raft_error

fun serve_loop ::
  "('n, 's) raft_lib \<Rightarrow> loop_event list \<Rightarrow> ('n, 's) raft_node
   \<Rightarrow> loop_end option \<times> ('n, 's) raft_node \<times> effect list" where
  "serve_loop lib [] rc = (None, rc, [])"
| "serve_loop lib (TickerFired # evs) rc =
     (case serve_loop lib evs rc of (r, rc, out) \<Rightarrow> (r, rc, Tick # out))"
| "serve_loop lib (Ready io stop rd # evs) rc =
     (case handle_ready lib io stop rd rc of
        Inl err \<Rightarrow> (Some (Crashed err), rc, [])
      | Inr (ok, rc, out) \<Rightarrow>
          if \<not> ok then (Some StoppedLoop, rc, out)
          else (case serve_loop lib evs rc of (r, rc, out') \<Rightarrow> (r, rc, out @ out')))"
| "serve_loop lib (TransportError err # evs) rc = (Some (WroteError err), rc, [])"
| "serve_loop lib (StopRequested # evs) rc = (Some StoppedLoop, rc, [])"

text \<open>The start of \<open>serveChannels\<close>: the node takes its position from the stored snapshot.\<close>

definition serve_init :: "snapshot \<Rightarrow> ('n, 's) raft_node \<Rightarrow> ('n, 's) raft_node" where
  "serve_init snapShot rc =
     rc\<lparr>confState := snap_ConfState snapShot, snapshotIndex := snap_Index snapShot,
        appliedIndex := snap_Index snapShot\<rparr>"

section \<open>Proposals\<close>

text \<open>
  The goroutine that forwards proposals: it runs while both channels are open and numbers
  the configuration changes. The flag says whether it has closed \<open>stopc\<close>.
\<close>

datatype proposal_event = Proposed string | ProposeClosed | ConfChanged conf_change | ConfChangeClosed

datatype node_call = NodePropose string | NodeProposeConfChange conf_change

fun proposal_loop :: "uint64 \<Rightarrow> proposal_event list \<Rightarrow> node_call list \<times> bool" where
  "proposal_loop confChangeCount [] = ([], False)"
| "proposal_loop confChangeCount (Proposed prop # evs) =
     (case proposal_loop confChangeCount evs of (cs, st) \<Rightarrow> (NodePropose prop # cs, st))"
| "proposal_loop confChangeCount (ConfChanged cc # evs) =
     (let confChangeCount = confChangeCount + 1
      in case proposal_loop confChangeCount evs of (cs, st) \<Rightarrow>
           (NodeProposeConfChange (cc\<lparr>cc_ID := confChangeCount\<rparr>) # cs, st))"
| "proposal_loop confChangeCount (ProposeClosed # evs) = ([], True)"
| "proposal_loop confChangeCount (ConfChangeClosed # evs) = ([], True)"

section \<open>Start-up\<close>

text \<open>
  \<open>loadSnapshot\<close>, \<open>openWAL\<close> and \<open>replayWAL\<close>: \<open>load\<close> is what \<open>snapshotter.Load\<close> returns, a
  missing snapshot being no error. The write-ahead log is the record \<open>wal_env\<close> of what its
  operations answer; a log that is opened at a position gives the hard state and the entries
  after it.
\<close>

datatype snap_load = NoSnapshot | SnapLoadError string | SnapLoaded snapshot

definition loadSnapshot :: "snap_load \<Rightarrow> raft_error + snapshot option" where
  "loadSnapshot load =
     (case load of
        NoSnapshot \<Rightarrow> Inr None
      | SnapLoadError e \<Rightarrow> Inl (Fatal (''raftexample: error loading snapshot ('' @ e @ '')''))
      | SnapLoaded s \<Rightarrow> Inr (Some s))"

record wal_env =
  wal_Exist :: bool
  wal_Mkdir_err :: "string option"
  wal_Create_err :: "string option"
  wal_Open_err :: "uint64 \<times> uint64 \<Rightarrow> string option"
  wal_ReadAll :: "uint64 \<times> uint64 \<Rightarrow> string + hard_state \<times> entry list"

text \<open>The result is the position at which the log is open.\<close>

definition openWAL :: "wal_env \<Rightarrow> snapshot option \<Rightarrow> raft_error + uint64 \<times> uint64" where
  "openWAL w snapshot =
     (let walsnap = (case snapshot of None \<Rightarrow> (0, 0) | Some s \<Rightarrow> (snap_Index s, snap_Term s))
      in case (if wal_Exist w then None else wal_Mkdir_err w) of
           Some err \<Rightarrow> Inl (Fatal (''raftexample: cannot create dir for wal ('' @ err @ '')''))
         | None \<Rightarrow>
             (case (if wal_Exist w then None else wal_Create_err w) of
                Some err \<Rightarrow> Inl (Fatal (''raftexample: create wal error ('' @ err @ '')''))
              | None \<Rightarrow>
                  (case wal_Open_err w walsnap of
                     Some err \<Rightarrow> Inl (Fatal (''raftexample: error loading wal ('' @ err @ '')''))
                   | None \<Rightarrow> Inr walsnap)))"

definition replayWAL ::
  "('n, 's) raft_lib \<Rightarrow> snap_load \<Rightarrow> wal_env \<Rightarrow> 's
   \<Rightarrow> ('n, 's) raft_node \<Rightarrow> raft_error + (('n, 's) raft_node \<times> effect list)" where
  "replayWAL lib load w NewMemoryStorage rc =
     (case loadSnapshot load of
        Inl err \<Rightarrow> Inl err
      | Inr snapshot \<Rightarrow>
          (case openWAL w snapshot of
             Inl err \<Rightarrow> Inl err
           | Inr pos \<Rightarrow>
               (case wal_ReadAll w pos of
                  Inl err \<Rightarrow> Inl (Fatal (''raftexample: failed to read WAL ('' @ err @ '')''))
                | Inr (st, ents) \<Rightarrow>
                    let stor = (case snapshot of None \<Rightarrow> NewMemoryStorage
                                | Some s \<Rightarrow> ApplySnapshot lib s NewMemoryStorage);
                        rc = rc\<lparr>raftStorage := Append lib ents (SetHardState lib st stor)\<rparr>
                    in if length ents > 0
                       then Inr (rc\<lparr>lastIndex := Index (ents ! (length ents - 1))\<rparr>, [])
                       else Inr (rc, [SendCommit None]))))"

text \<open>The interface that the node offers to its transport.\<close>

definition Process :: "('n, 's) raft_lib \<Rightarrow> string \<Rightarrow> ('n, 's) raft_node \<Rightarrow> string option \<times> ('n, 's) raft_node" where
  "Process lib m rc = (case Step lib m (node rc) of (err, n) \<Rightarrow> (err, rc\<lparr>node := n\<rparr>))"

definition IsIDRemoved :: "uint64 \<Rightarrow> bool" where
  "IsIDRemoved i = False"

text \<open>\<open>startRaft\<close>: the identifiers of the peers and the connections to the others.\<close>

definition raft_peers :: "string list \<Rightarrow> uint64 list" where
  "raft_peers peers = map (\<lambda>i. of_nat (i + 1)) [0..<length peers]"

definition start_peers :: "bool \<Rightarrow> bool \<Rightarrow> string list \<Rightarrow> uint64 list" where
  "start_peers oldwal join peers = (if oldwal \<or> join then [] else raft_peers peers)"

definition transport_peers :: "int \<Rightarrow> string list \<Rightarrow> effect list" where
  "transport_peers self peers =
     map (\<lambda>i. AddPeer (of_nat (i + 1)) (peers ! i))
       (filter (\<lambda>i. int i + 1 \<noteq> self) [0..<length peers])"

definition newRaftNode :: "int \<Rightarrow> 'n \<Rightarrow> 's \<Rightarrow> ('n, 's) raft_node" where
  "newRaftNode self n st =
     \<lparr>rc_id = self, lastIndex = 0, confState = [], snapshotIndex = 0, appliedIndex = 0,
      snapCount = defaultSnapCount, node = n, raftStorage = st\<rparr>"

section \<open>Contiguous entries\<close>

text \<open>The log is a list of entries with the indexes 1, 2, 3, ...; a batch is a part of it.\<close>

definition contiguous :: "nat \<Rightarrow> entry list \<Rightarrow> bool" where
  "contiguous b es \<longleftrightarrow> map (\<lambda>e. unat (Index e)) es = [b..<b + length es]"

definition segment :: "nat \<Rightarrow> nat \<Rightarrow> 'a list \<Rightarrow> 'a list" where
  "segment i j xs = drop i (take j xs)"

lemma contiguous_nth: "contiguous b es \<Longrightarrow> k < length es \<Longrightarrow> unat (Index (es ! k)) = b + k"
  unfolding contiguous_def by (metis add.commute diff_add_inverse length_map length_upt nth_map nth_upt add_less_cancel_left)

lemma contiguous_simps [simp]:
  "contiguous b []"
  "contiguous b (e # es) \<longleftrightarrow> unat (Index e) = b \<and> contiguous (Suc b) es"
  by (auto simp: contiguous_def upt_conv_Cons simp del: upt_Suc)

lemma contiguous_drop: "contiguous b es \<Longrightarrow> contiguous (b + k) (drop k es)"
proof (induction k arbitrary: b es)
  case (Suc k)
  then show ?case
    by (cases es) (auto dest: Suc.IH)
qed simp

lemma contiguous_take: "contiguous b es \<Longrightarrow> contiguous b (take k es)"
proof (induction k arbitrary: b es)
  case (Suc k)
  then show ?case
    by (cases es) auto
qed simp

lemma contiguous_segment: "contiguous b es \<Longrightarrow> contiguous (b + i) (segment i j es)"
  by (simp add: segment_def contiguous_drop contiguous_take)

lemma contiguous_bound: "contiguous b es \<Longrightarrow> es \<noteq> [] \<Longrightarrow> b + length es \<le> 2 ^ 64"
  using contiguous_nth [of b es "length es - 1"] unat_less64 [of "Index (es ! (length es - 1))"] by auto

lemma contiguous_last: "contiguous b es \<Longrightarrow> es \<noteq> [] \<Longrightarrow> unat (Index (last es)) = b + length es - 1"
  by (cases "length es") (simp_all add: last_conv_nth contiguous_nth)

lemma filter_contiguous:
  "contiguous b es \<Longrightarrow> filter (\<lambda>e. a < unat (Index e)) es = drop (Suc a - b) es"
proof (induction es arbitrary: b)
  case (Cons e es)
  then show ?case
    by (cases "a < b") (auto simp: Suc_diff_le)
qed simp

text \<open>On contiguous entries \<open>entriesToApply\<close> keeps what is past the applied index.\<close>

lemma entriesToApply_contiguous:
  assumes "contiguous b es" and "es \<noteq> []" and "0 < b" and "unat applied < 2 ^ 64 - 1"
  shows "entriesToApply applied es =
    (if b \<le> unat applied + 1 then Inr (drop (unat applied + 1 - b) es)
     else Inl (Fatal ''first index of committed entry should <= progress.appliedIndex''))"
proof -
  have first: "unat (Index (es ! 0)) = b"
    using assms(1,2) contiguous_nth [of b es 0] by simp
  have next_a: "unat (applied + 1) = unat applied + 1"
    using assms(4) by (simp add: unat_plus_simple [THEN iffD1] unat_word_ariths)
  have gap: "Index (es ! 0) > applied + 1 \<longleftrightarrow> unat applied + 1 < b"
    by (simp add: word_less_nat_alt first next_a)
  have len: "length es < 2 ^ 64"
    using contiguous_bound [OF assms(1,2)] assms(3) by simp
  have pos: "unat (applied - Index (es ! 0) + 1) = unat applied + 1 - b" if "b \<le> unat applied + 1"
  proof -
    have "applied - Index (es ! 0) + 1 = (applied + 1) - Index (es ! 0)"
      by simp
    also have "unat \<dots> = unat (applied + 1) - unat (Index (es ! 0))"
      using that by (intro unat_sub) (simp add: word_le_nat_alt first next_a)
    finally show ?thesis
      by (simp add: first next_a)
  qed
  show ?thesis
    using assms(2) gap pos len
    by (auto simp: entriesToApply_def Let_def word_less_nat_alt unat_of_nat_small64)
qed

section \<open>Publication\<close>

text \<open>What an entry contributes to the commit channel: its data, if it is normal and not empty.\<close>

definition payload :: "entry \<Rightarrow> string list" where
  "payload e = (if Type e = EntryNormal \<and> Data e \<noteq> [] then [Data e] else [])"

definition publish_items :: "uint64 \<Rightarrow> entry list \<Rightarrow> string option list" where
  "publish_items lst es =
     concat (map (\<lambda>e. map Some (payload e) @ (if Index e = lst then [None] else [])) es)"

fun commit_of :: "effect \<Rightarrow> string option list" where
  "commit_of (SendCommit c) = [c]"
| "commit_of _ = []"

definition commits_of :: "effect list \<Rightarrow> string option list" where
  "commits_of out = concat (map commit_of out)"

lemma commits_of_simps [simp]:
  "commits_of [] = []" "commits_of (SendCommit c # out) = c # commits_of out"
  "commits_of (out @ out') = commits_of out @ commits_of out'"
  by (simp_all add: commits_of_def)

lemma commits_of_Cons_other: "commit_of ef = [] \<Longrightarrow> commits_of (ef # out) = commits_of out"
  by (simp add: commits_of_def)

lemma publish_items_simps [simp]:
  "publish_items lst [] = []"
  "publish_items lst (e # es) =
     map Some (payload e) @ (if Index e = lst then [None] else []) @ publish_items lst es"
  "publish_items lst (es @ fs) = publish_items lst es @ publish_items lst fs"
  by (simp_all add: publish_items_def)

text \<open>The switch publishes the payload and leaves the positions of the node alone.\<close>

lemma publish_switch_ok:
  assumes "publish_switch lib stop e rc = (True, stop', rc', out)"
  shows "commits_of out = map Some (payload e) \<and> appliedIndex rc' = appliedIndex rc \<and>
    lastIndex rc' = lastIndex rc \<and> snapshotIndex rc' = snapshotIndex rc \<and>
    snapCount rc' = snapCount rc \<and> rc_id rc' = rc_id rc"
  using assms
  by (auto simp: publish_switch_def payload_def Let_def commits_of_Cons_other
      split: entry_type.splits if_splits option.splits prod.splits conf_change_type.splits)

lemma publishEntries_ok:
  "publishEntries lib stop es rc = (True, stop', rc', out) \<Longrightarrow>
   commits_of out = publish_items (lastIndex rc) es \<and>
   appliedIndex rc' = (if es = [] then appliedIndex rc else Index (last es)) \<and>
   lastIndex rc' = lastIndex rc \<and> snapshotIndex rc' = snapshotIndex rc \<and> snapCount rc' = snapCount rc"
proof (induction es arbitrary: stop stop' rc rc' out)
  case (Cons e es)
  obtain st1 rc1 out1 where sw: "publish_switch lib stop e rc = (True, st1, rc1, out1)"
    using Cons.prems by (auto split: prod.splits bool.splits)
  let ?rc = "rc1\<lparr>appliedIndex := Index e\<rparr>"
  note s = publish_switch_ok [OF sw]
  show ?case
  proof (cases "Index e = lastIndex ?rc")
    case True
    then obtain st2 out2 where "try_send st1 = Some st2"
      "publishEntries lib st2 es ?rc = (True, stop', rc', out2)" "out = out1 @ SendCommit None # out2"
      using Cons.prems sw by (auto simp: Let_def split: option.splits prod.splits)
    with Cons.IH [of st2 ?rc stop' rc' out2] s True show ?thesis
      by simp
  next
    case False
    then obtain out2 where
      "publishEntries lib st1 es ?rc = (True, stop', rc', out2)" "out = out1 @ out2"
      using Cons.prems sw by (auto simp: Let_def split: prod.splits)
    with Cons.IH [of st1 ?rc stop' rc' out2] s False show ?thesis
      by simp
  qed
qed simp

lemma segment_simps:
  "segment i i xs = []"
  "i \<le> j \<Longrightarrow> j \<le> k \<Longrightarrow> segment i j xs @ segment j k xs = segment i k xs"
proof -
  show "segment i j xs @ segment j k xs = segment i k xs" if "i \<le> j" "j \<le> k"
  proof -
    have "take k xs = take j xs @ drop j (take k xs)"
      using that by (metis append_take_drop_id min.absorb1 take_take)
    then have "drop i (take k xs) = drop i (take j xs) @ drop (i - length (take j xs)) (drop j (take k xs))"
      by (metis drop_append)
    then show ?thesis
      using that by (cases "j \<le> length xs") (simp_all add: segment_def)
  qed
qed (simp add: segment_def)

lemma segment_applied:
  assumes log: "contiguous 1 L" "length L < 2 ^ 64 - 1" and a: "unat applied \<le> length L"
    and e: "entriesToApply applied (segment i j L) = Inr es"
  shows "\<exists>k. unat applied \<le> k \<and> k \<le> length L \<and> es = segment (unat applied) k L \<and>
    (es = [] \<longrightarrow> k = unat applied) \<and> (es \<noteq> [] \<longrightarrow> unat (Index (last es)) = k)"
proof (cases "segment i j L = []")
  case True
  with e a show ?thesis
    by (auto simp: entriesToApply_def segment_simps)
next
  case False
  have es: "es = segment (unat applied) j L"
    using entriesToApply_contiguous [OF contiguous_segment [OF log(1), of i j] False, of applied] e a log(2)
    by (auto simp: segment_def split: if_splits)
  show ?thesis
  proof (cases "es = []")
    case nonempty: False
    have "contiguous (1 + unat applied) es"
      unfolding es by (rule contiguous_segment [OF log(1)])
    then have "unat (Index (last es)) = unat applied + length es"
      using nonempty contiguous_last by fastforce
    moreover have "length es = min j (length L) - unat applied" "unat applied < min j (length L)"
      using nonempty by (auto simp: es segment_def)
    moreover have "es = segment (unat applied) (min j (length L)) L"
      by (simp add: es segment_def min_def)
    ultimately show ?thesis
      using nonempty by (intro exI [of _ "min j (length L)"]) simp
  qed (use a in \<open>auto simp: segment_simps\<close>)
qed

lemma maybeTriggerSnapshot_ok:
  assumes "maybeTriggerSnapshot lib io rc = Inr (rc', out)"
  shows "appliedIndex rc' = appliedIndex rc \<and> lastIndex rc' = lastIndex rc \<and>
    snapCount rc' = snapCount rc \<and> commits_of out = [] \<and>
    snapshotIndex rc' = (if appliedIndex rc - snapshotIndex rc \<le> snapCount rc
                         then snapshotIndex rc else appliedIndex rc)"
  using assms
  by (auto simp: maybeTriggerSnapshot_def saveSnap_def Let_def commits_of_Cons_other
      split: if_splits sum.splits option.splits prod.splits)

text \<open>A batch of committed entries without a snapshot, handled to its end.\<close>

lemma handle_readyE:
  assumes run: "handle_ready lib io stop rd rc = Inr (ok, rc', out)"
  obtains rc1 out1 es ok2 st rc2 out2 out3
  where "ready_snapshot lib io (rd_Snapshot rd) rc = Inr (rc1, out1)"
    "entriesToApply (appliedIndex rc1) (rd_CommittedEntries rd) = Inr es"
    "publishEntries lib stop es (rc1\<lparr>raftStorage := Append lib (rd_Entries rd) (raftStorage rc1)\<rparr>) =
       (ok, st, rc2, out2)"
    "if ok then maybeTriggerSnapshot lib io rc2 = Inr (rc', out3) else rc' = rc2"
    "out = WalSave (rd_HardState rd) (rd_Entries rd) # out1 @ [SendMessages (rd_Messages rd)] @ out2 @
       (if ok then out3 @ [Advance] else [])"
proof (cases "ready_snapshot lib io (rd_Snapshot rd) rc")
  case (Inr r1)
  obtain rc1 out1 where 1: "ready_snapshot lib io (rd_Snapshot rd) rc = Inr (rc1, out1)"
    using Inr by (cases r1) simp
  let ?rc = "rc1\<lparr>raftStorage := Append lib (rd_Entries rd) (raftStorage rc1)\<rparr>"
  note defs = handle_ready_def Let_def
  show thesis
  proof (cases "entriesToApply (appliedIndex rc1) (rd_CommittedEntries rd)")
    case 2: (Inr es)
    obtain ok2 st rc2 out2 where 3: "publishEntries lib stop es ?rc = (ok2, st, rc2, out2)"
      by (metis surj_pair)
    show thesis
    proof (cases "maybeTriggerSnapshot lib io rc2")
      case 4: (Inl e)
      show thesis
        using run 1 2 3 4 by (intro that [of rc1 out1 es st rc2 out2 "[]"]) (auto simp: defs split: if_splits)
    next
      case 4: (Inr r)
      then show thesis
        using run 1 2 3 by (cases r; intro that [of rc1 out1 es st rc2 out2 "snd r"]) (auto simp: defs split: if_splits)
    qed
  qed (use run 1 in \<open>simp add: defs\<close>)
qed (use run in \<open>simp add: handle_ready_def\<close>)

lemma handle_ready_ok:
  assumes log: "contiguous 1 L" "length L < 2 ^ 64 - 1" "unat (appliedIndex rc) \<le> length L"
    and rd: "IsEmptySnap (rd_Snapshot rd)" "rd_CommittedEntries rd = segment i j L"
    and run: "handle_ready lib io stop rd rc = Inr (True, rc', out)"
  shows "unat (appliedIndex rc) \<le> unat (appliedIndex rc') \<and> unat (appliedIndex rc') \<le> length L \<and>
    commits_of out =
      publish_items (lastIndex rc) (segment (unat (appliedIndex rc)) (unat (appliedIndex rc')) L) \<and>
    lastIndex rc' = lastIndex rc \<and> snapCount rc' = snapCount rc \<and>
    snapshotIndex rc' = (if appliedIndex rc' - snapshotIndex rc \<le> snapCount rc
                         then snapshotIndex rc else appliedIndex rc')"
proof -
  obtain es st rc2 out2 out3 where es: "entriesToApply (appliedIndex rc) (segment i j L) = Inr es"
    and pub: "publishEntries lib stop es (rc\<lparr>raftStorage := Append lib (rd_Entries rd) (raftStorage rc)\<rparr>) =
       (True, st, rc2, out2)"
    and trig: "maybeTriggerSnapshot lib io rc2 = Inr (rc', out3)"
    and out: "out = WalSave (rd_HardState rd) (rd_Entries rd) # SendMessages (rd_Messages rd) # out2 @ out3 @ [Advance]"
    using run by (rule handle_readyE) (use rd in \<open>auto simp: ready_snapshot_def\<close>)
  obtain k where k: "unat (appliedIndex rc) \<le> k" "k \<le> length L"
    "es = segment (unat (appliedIndex rc)) k L" "es = [] \<longrightarrow> k = unat (appliedIndex rc)"
    "es \<noteq> [] \<longrightarrow> unat (Index (last es)) = k"
    using segment_applied [OF log es] by blast
  note pub_ok = publishEntries_ok [OF pub, simplified] and trig_ok = maybeTriggerSnapshot_ok [OF trig]
  have "unat (appliedIndex rc') = k"
    using k(4,5) pub_ok trig_ok by (cases "es = []") simp_all
  then show ?thesis
    using k(1,2) pub_ok trig_ok by (simp add: out commits_of_Cons_other k(3) [symmetric])
qed

section \<open>Runs of the event loop\<close>

text \<open>A ready batch whose committed entries are a part of the log \<open>L\<close> and that has no snapshot.\<close>

definition from_log :: "entry list \<Rightarrow> loop_event \<Rightarrow> bool" where
  "from_log L ev = (case ev of
      Ready io stop rd \<Rightarrow> IsEmptySnap (rd_Snapshot rd) \<and> (\<exists>i j. rd_CommittedEntries rd = segment i j L)
    | _ \<Rightarrow> True)"

lemma serve_loop_ReadyE:
  assumes "serve_loop lib (Ready io stop rd # evs) rc = (None, rc', out)"
  obtains rc1 out1 out2 where "handle_ready lib io stop rd rc = Inr (True, rc1, out1)"
    "serve_loop lib evs rc1 = (None, rc', out2)" "out = out1 @ out2"
  using assms by (auto split: sum.splits prod.splits if_splits)

text \<open>How far the applied index and the snapshot are apart.\<close>

definition lag_ok :: "('n, 's) raft_node \<Rightarrow> bool" where
  "lag_ok rc \<longleftrightarrow> snapshotIndex rc \<le> appliedIndex rc \<and> appliedIndex rc - snapshotIndex rc \<le> snapCount rc"

lemma serve_loop_log:
  assumes log: "contiguous 1 L" "length L < 2 ^ 64 - 1"
  shows "\<forall>ev \<in> set evs. from_log L ev \<Longrightarrow> unat (appliedIndex rc) \<le> length L \<Longrightarrow>
    serve_loop lib evs rc = (None, rc', out) \<Longrightarrow>
    unat (appliedIndex rc) \<le> unat (appliedIndex rc') \<and> unat (appliedIndex rc') \<le> length L \<and>
    commits_of out =
      publish_items (lastIndex rc) (segment (unat (appliedIndex rc)) (unat (appliedIndex rc')) L) \<and>
    (lag_ok rc \<longrightarrow> lag_ok rc')"
proof (induction evs arbitrary: rc out)
  case Nil
  then show ?case
    by (auto simp: segment_simps)
next
  case (Cons ev evs)
  show ?case
  proof (cases ev)
    case TickerFired
    then obtain out' where "serve_loop lib evs rc = (None, rc', out')" "out = Tick # out'"
      using Cons.prems(3) by (auto split: prod.splits)
    then show ?thesis
      using Cons.IH [of rc out'] Cons.prems by (simp add: commits_of_Cons_other)
  next
    case (Ready io stop rd)
    obtain rc1 out1 out2 where run: "handle_ready lib io stop rd rc = Inr (True, rc1, out1)"
      "serve_loop lib evs rc1 = (None, rc', out2)" "out = out1 @ out2"
      using Cons.prems(3) unfolding Ready by (rule serve_loop_ReadyE)
    obtain i j where rd: "IsEmptySnap (rd_Snapshot rd)" "rd_CommittedEntries rd = segment i j L"
      using Cons.prems(1) Ready by (auto simp: from_log_def)
    note hd = handle_ready_ok [OF log Cons.prems(2) rd run(1)]
    note tl = Cons.IH [of rc1 out2, OF _ _ run(2)]
    have lag: "lag_ok rc \<longrightarrow> lag_ok rc1"
      using hd by (auto simp: lag_ok_def word_le_nat_alt)
    have "segment (unat (appliedIndex rc)) (unat (appliedIndex rc1)) L @
        segment (unat (appliedIndex rc1)) (unat (appliedIndex rc')) L =
        segment (unat (appliedIndex rc)) (unat (appliedIndex rc')) L"
      using hd tl Cons.prems(1) by (intro segment_simps(2)) auto
    then have "publish_items (lastIndex rc) (segment (unat (appliedIndex rc)) (unat (appliedIndex rc1)) L) @
        publish_items (lastIndex rc) (segment (unat (appliedIndex rc1)) (unat (appliedIndex rc')) L) =
        publish_items (lastIndex rc) (segment (unat (appliedIndex rc)) (unat (appliedIndex rc')) L)"
      by (metis publish_items_simps(3))
    then show ?thesis
      using hd tl Cons.prems(1) lag by (simp add: run(3))
  qed (use Cons.prems in auto)
qed

lemma publish_items_no_last:
  "\<forall>e \<in> set es. Index e \<noteq> lst \<Longrightarrow> publish_items lst es = map Some (concat (map payload es))"
  by (induction es) auto

lemma contiguous_Index_pos: "contiguous b es \<Longrightarrow> 0 < b \<Longrightarrow> e \<in> set es \<Longrightarrow> Index e \<noteq> 0"
  by (induction es arbitrary: b) auto

section \<open>The order of effects on the disk\<close>

text \<open>A snapshot file is written only after its position is in the write-ahead log.\<close>

fun logged_first :: "(uint64 \<times> uint64) set \<Rightarrow> effect list \<Rightarrow> bool" where
  "logged_first W [] = True"
| "logged_first W (WalSaveSnapshot i t # out) = logged_first (insert (i, t) W) out"
| "logged_first W (SnapSave s # out) = ((snap_Index s, snap_Term s) \<in> W \<and> logged_first W out)"
| "logged_first W (_ # out) = logged_first W out"

lemma logged_first_mono: "logged_first W out \<Longrightarrow> W \<subseteq> W' \<Longrightarrow> logged_first W' out"
  by (induction W out arbitrary: W' rule: logged_first.induct) auto

lemma logged_first_append: "logged_first W out \<Longrightarrow> logged_first {} out' \<Longrightarrow> logged_first W (out @ out')"
  by (induction W out rule: logged_first.induct) (auto intro: logged_first_mono)

lemma logged_first_prefix:
  "logged_first W (out @ out') \<Longrightarrow> SnapSave s \<in> set out \<Longrightarrow>
   (snap_Index s, snap_Term s) \<in> W \<or> WalSaveSnapshot (snap_Index s) (snap_Term s) \<in> set out"
  by (induction W out rule: logged_first.induct) auto

lemma logged_first_saveSnap: "saveSnap io s = (r, out) \<Longrightarrow> logged_first {} out"
  by (auto simp: saveSnap_def Let_def split: option.splits)

lemma logged_first_switch:
  "publish_switch lib stop e rc = (ok, stop', rc', out) \<Longrightarrow> logged_first W out"
  by (auto simp: publish_switch_def Let_def split: entry_type.splits if_splits option.splits
      prod.splits conf_change_type.splits)

lemma logged_first_publish:
  "logged_first {} (snd (snd (snd (publishEntries lib stop es rc))))"
proof (induction es arbitrary: stop rc)
  case (Cons e es)
  obtain ok1 st1 rc1 out1 where sw: "publish_switch lib stop e rc = (ok1, st1, rc1, out1)"
    by (metis surj_pair)
  moreover have "logged_first {} out1"
    using sw by (rule logged_first_switch)
  ultimately show ?case
    using Cons.IH
    by (cases ok1) (auto simp: Let_def case_prod_unfold logged_first_append split: option.split)
qed simp

lemma logged_first_ready_snapshot:
  "ready_snapshot lib io snap rc = Inr (rc', out) \<Longrightarrow> logged_first {} out"
  by (auto simp: ready_snapshot_def publishSnapshot_def split: if_splits prod.splits
      intro!: logged_first_append intro: logged_first_saveSnap)

lemma logged_first_trigger:
  "maybeTriggerSnapshot lib io rc = Inr (rc', out) \<Longrightarrow> logged_first {} out"
  by (auto simp: maybeTriggerSnapshot_def split: if_splits sum.splits option.splits prod.splits
      intro: logged_first_saveSnap)

lemma logged_first_handle_ready:
  assumes "handle_ready lib io stop rd rc = Inr (ok, rc', out)"
  shows "logged_first {} out"
  using assms
proof (rule handle_readyE)
  fix rc1 out1 es st rc2 out2 out3
  assume snap: "ready_snapshot lib io (rd_Snapshot rd) rc = Inr (rc1, out1)"
    and pub: "publishEntries lib stop es (rc1\<lparr>raftStorage := Append lib (rd_Entries rd) (raftStorage rc1)\<rparr>) =
       (ok, st, rc2, out2)"
    and trig: "if ok then maybeTriggerSnapshot lib io rc2 = Inr (rc', out3) else rc' = rc2"
    and out: "out = WalSave (rd_HardState rd) (rd_Entries rd) # out1 @ [SendMessages (rd_Messages rd)] @ out2 @
       (if ok then out3 @ [Advance] else [])"
  have "logged_first {} (if ok then out3 @ [Advance] else [])"
    using trig logged_first_trigger [of lib io rc2 rc' out3] by (simp add: logged_first_append)
  moreover have "logged_first {} out2"
    using logged_first_publish [of lib stop es] pub by (metis snd_conv)
  ultimately show "logged_first {} out"
    unfolding out using logged_first_ready_snapshot [OF snap]
    by (simp del: if_split add: logged_first_append)
qed

lemma logged_first_serve_loop: "logged_first {} (snd (snd (serve_loop lib evs rc)))"
proof (induction lib evs rc rule: serve_loop.induct)
  case (3 lib io stop rd evs rc)
  then show ?case
    by (auto simp: case_prod_unfold split: sum.split intro!: logged_first_append
        dest: logged_first_handle_ready)
qed (auto simp: case_prod_unfold)

section \<open>Properties\<close>




text \<open>
  (C19) A snapshot file never exists without its record in the write-ahead log, wherever a
  crash cuts the effects of the event loop: in every prefix of them, a saved snapshot comes
  with the log record of its index and term.
\<close>

theorem snapshot_logged_before_saved:
  assumes "snd (snd (serve_loop lib evs rc)) = out @ rest" and "SnapSave s \<in> set out"
  shows "WalSaveSnapshot (snap_Index s) (snap_Term s) \<in> set out"
  using logged_first_prefix [of "{}" out rest s] logged_first_serve_loop [of lib evs rc] assms by simp

section \<open>Witnesses\<close>

text \<open>A log of two entries, in two ready batches that overlap, and in one batch.\<close>

definition sample_raft :: "(unit, unit) raft_lib" where
  "sample_raft = \<lparr>Unmarshal = (\<lambda>_. \<lparr>cc_ID = 0, cc_Type = ConfChangeUpdateNode, NodeID = 0, Context = []\<rparr>),
     ApplyConfChange = (\<lambda>_ n. ([], n)), ApplySnapshot = (\<lambda>_ s. s), SetHardState = (\<lambda>_ s. s), Append = (\<lambda>_ s. s),
     CreateSnapshot = (\<lambda>i cs d s. Inr (\<lparr>snap_Index = i, snap_Term = 1, snap_ConfState = cs, snap_Data = d\<rparr>, s)),
     Compact = (\<lambda>_ s. Inr s), Step = (\<lambda>_ n. (None, n))\<rparr>"

definition no_hs :: hard_state where
  "no_hs = \<lparr>hs_Term = 0, hs_Vote = 0, hs_Commit = 0\<rparr>"

definition no_snap :: snapshot where
  "no_snap = \<lparr>snap_Index = 0, snap_Term = 0, snap_ConfState = [], snap_Data = []\<rparr>"

definition sample_log :: "entry list" where
  "sample_log = [\<lparr>Index = 1, Type = EntryNormal, Data = ''k1''\<rparr>,
                 \<lparr>Index = 2, Type = EntryNormal, Data = ''k2''\<rparr>]"

definition sample_io :: io_env where
  "sample_io = \<lparr>SaveSnapshot_err = None, SaveSnap_err = None, ReleaseLockTo_err = None,
     snapshot_data = Inr ''snap''\<rparr>"

definition batch :: "nat \<Rightarrow> nat \<Rightarrow> loop_event" where
  "batch i j = Ready sample_io None \<lparr>rd_HardState = no_hs, rd_Entries = [], rd_Snapshot = no_snap,
     rd_CommittedEntries = segment i j sample_log, rd_Messages = []\<rparr>"

definition sample_node :: "uint64 \<Rightarrow> (unit, unit) raft_node" where
  "sample_node n = \<lparr>rc_id = 1, lastIndex = 0, confState = [], snapshotIndex = 0, appliedIndex = 0,
     snapCount = n, node = (), raftStorage = ()\<rparr>"

lemma sample_log_ok: "contiguous 1 sample_log" "length sample_log < 2 ^ 64 - 1"
  "from_log sample_log (batch i j)"
  by (auto simp: sample_log_def from_log_def batch_def no_snap_def IsEmptySnap_def)

lemmas sample_run_defs = batch_def segment_def sample_log_def sample_node_def sample_raft_def no_snap_def
  handle_ready_def ready_snapshot_def IsEmptySnap_def entriesToApply_def publish_switch_def try_send_def
  maybeTriggerSnapshot_def saveSnap_def sample_io_def

lemma sample_two_batches:
  "serve_loop sample_raft [batch 0 1, batch 0 2] (sample_node 5) =
     (None, (sample_node 5)\<lparr>appliedIndex := 2\<rparr>,
      [WalSave no_hs [], SendMessages [], SendCommit (Some ''k1''), Advance,
       WalSave no_hs [], SendMessages [], SendCommit (Some ''k2''), Advance])"
  by (simp add: sample_run_defs)

lemma sample_one_batch:
  "serve_loop sample_raft [batch 0 2] (sample_node 5) =
     (None, (sample_node 5)\<lparr>appliedIndex := 2\<rparr>,
      [WalSave no_hs [], SendMessages [], SendCommit (Some ''k1''), SendCommit (Some ''k2''), Advance])"
  by (simp add: sample_run_defs)

lemma sample_snapshot:
  "snd (snd (serve_loop sample_raft [batch 0 2] (sample_node 1))) =
     [WalSave no_hs [], SendMessages [], SendCommit (Some ''k1''), SendCommit (Some ''k2''),
      WalSaveSnapshot 2 1,
      SnapSave \<lparr>snap_Index = 2, snap_Term = 1, snap_ConfState = [], snap_Data = ''snap''\<rparr>] @
     [WalReleaseLockTo 2, Advance]"
  by (simp add: sample_run_defs word_le_nat_alt)




theorem snapshot_logged_before_saved_witness:
  "WalSaveSnapshot 2 1 \<in> set [WalSave no_hs [], SendMessages [], SendCommit (Some ''k1''), SendCommit (Some ''k2''),
      WalSaveSnapshot 2 1,
      SnapSave \<lparr>snap_Index = 2, snap_Term = 1, snap_ConfState = [], snap_Data = ''snap''\<rparr>]"
  using snapshot_logged_before_saved [OF sample_snapshot,
      of "\<lparr>snap_Index = 2, snap_Term = 1, snap_ConfState = [], snap_Data = ''snap''\<rparr>"]
  by simp

end
