(* ===== verification/Raft_System.thy ===== *)
theory Raft_System
  imports Raft_Node
begin

text \<open>
  The server around the raft node and the store of \<open>src/goraft-explore\<close>: the HTTP interface
  (\<open>httpapi.go\<close>), the listener that can be stopped (\<open>listener.go\<close>), and how \<open>main.go\<close> wires
  the snapshot callback of the node to the store. The properties span the components: what a
  client reads after a restart, and what the node does when the store is not there yet.
\<close>

section \<open>Numbers in requests\<close>

text \<open>
  \<open>strconv.ParseUint(s, 0, 64)\<close>: a prefix \<open>0x\<close> selects base 16, a leading zero base 8. The
  handler only tests for an error, so the kinds of error are one.
\<close>

definition digit_val :: "char \<Rightarrow> nat option" where
  "digit_val c =
     (let n = of_char c :: nat
      in if 48 \<le> n \<and> n \<le> 57 then Some (n - 48)
         else if 97 \<le> n \<and> n \<le> 122 then Some (n - 97 + 10)
         else if 65 \<le> n \<and> n \<le> 90 then Some (n - 65 + 10)
         else None)"

fun parse_digits :: "nat \<Rightarrow> nat \<Rightarrow> string \<Rightarrow> nat option" where
  "parse_digits base acc [] = Some acc"
| "parse_digits base acc (c # cs) =
     (case digit_val c of
        None \<Rightarrow> None
      | Some d \<Rightarrow> if d \<ge> base then None
                  else if acc * base + d \<ge> 2 ^ 64 then None
                  else parse_digits base (acc * base + d) cs)"

definition ParseUint :: "string \<Rightarrow> uint64 option" where
  "ParseUint s =
     (let r = (case s of
                 [] \<Rightarrow> None
               | c # cs \<Rightarrow>
                   if c = CHR ''0'' \<and> (case cs of d # _ \<Rightarrow> d = CHR ''x'' \<or> d = CHR ''X'' | [] \<Rightarrow> False)
                   then (if length s < 3 then None else parse_digits 16 0 (drop 2 s))
                   else if c = CHR ''0'' then parse_digits 8 0 cs
                   else parse_digits 10 0 s)
      in map_option of_nat r)"

section \<open>The HTTP interface\<close>

record request =
  Method :: string
  RequestURI :: string
  Body :: "string + string"

record response =
  status :: nat
  body :: string
  Allow :: "string list"

datatype http_effect = ToProposeC string | ToConfChangeC conf_change

datatype http_error = HttpFatal string | HttpPanic

abbreviation StatusOK :: nat where "StatusOK \<equiv> 200"
abbreviation StatusNoContent :: nat where "StatusNoContent \<equiv> 204"
abbreviation StatusBadRequest :: nat where "StatusBadRequest \<equiv> 400"
abbreviation StatusNotFound :: nat where "StatusNotFound \<equiv> 404"
abbreviation StatusMethodNotAllowed :: nat where "StatusMethodNotAllowed \<equiv> 405"

definition http_Error :: "string \<Rightarrow> nat \<Rightarrow> response" where
  "http_Error msg code = \<lparr>status = code, body = msg @ [CHR 0x0A], Allow = []\<rparr>"

definition no_content :: response where
  "no_content = \<lparr>status = StatusNoContent, body = [], Allow = []\<rparr>"

text \<open>\<open>key[1:]\<close> panics on an empty key.\<close>

definition node_id :: "string \<Rightarrow> http_error + uint64 option" where
  "node_id key = (case key of [] \<Rightarrow> Inl HttpPanic | _ # cs \<Rightarrow> Inr (ParseUint cs))"

definition ServeHTTP ::
  "codec \<Rightarrow> kv_map \<Rightarrow> request \<Rightarrow> http_error + (response \<times> http_effect list)" where
  "ServeHTTP c kvStore r =
     (let key = RequestURI r
      in if Method r = ''PUT'' then
           (case Body r of
              Inl _ \<Rightarrow> Inr (http_Error ''Failed on PUT'' StatusBadRequest, [])
            | Inr v \<Rightarrow>
                (case Propose c key v of
                   Inl e \<Rightarrow> Inl (HttpFatal e)
                 | Inr p \<Rightarrow> Inr (no_content, [ToProposeC p])))
         else if Method r = ''GET'' then
           (case Lookup kvStore key of
              (v, True) \<Rightarrow> Inr (\<lparr>status = StatusOK, body = v, Allow = []\<rparr>, [])
            | (_, False) \<Rightarrow> Inr (http_Error ''Failed to GET'' StatusNotFound, []))
         else if Method r = ''POST'' then
           (case Body r of
              Inl _ \<Rightarrow> Inr (http_Error ''Failed on POST'' StatusBadRequest, [])
            | Inr url \<Rightarrow>
                (case node_id key of
                   Inl e \<Rightarrow> Inl e
                 | Inr None \<Rightarrow> Inr (http_Error ''Failed on POST'' StatusBadRequest, [])
                 | Inr (Some nodeId) \<Rightarrow>
                     Inr (no_content, [ToConfChangeC
                       \<lparr>cc_ID = 0, cc_Type = ConfChangeAddNode, NodeID = nodeId, Context = url\<rparr>])))
         else if Method r = ''DELETE'' then
           (case node_id key of
              Inl e \<Rightarrow> Inl e
            | Inr None \<Rightarrow> Inr (http_Error ''Failed on DELETE'' StatusBadRequest, [])
            | Inr (Some nodeId) \<Rightarrow>
                Inr (no_content, [ToConfChangeC
                  \<lparr>cc_ID = 0, cc_Type = ConfChangeRemoveNode, NodeID = nodeId, Context = []\<rparr>]))
         else Inr ((http_Error ''Method not allowed'' StatusMethodNotAllowed)
                     \<lparr>Allow := [''PUT'', ''GET'', ''POST'', ''DELETE'']\<rparr>, []))"

section \<open>The listener and the wiring of main\<close>

text \<open>
  \<open>newStoppableListener\<close>: \<open>Listen\<close> is \<open>net.Listen\<close>, a listener is a number, as is a channel.
\<close>

record stoppable_listener =
  TCPListener :: nat
  ln_stopc :: nat

definition newStoppableListener ::
  "(string \<Rightarrow> string \<Rightarrow> string + nat) \<Rightarrow> string \<Rightarrow> nat \<Rightarrow> string + stoppable_listener" where
  "newStoppableListener Listen address stop_ch =
     (case Listen ''tcp'' address of
        Inl err \<Rightarrow> Inl err
      | Inr lis \<Rightarrow> Inr \<lparr>TCPListener = lis, ln_stopc = stop_ch\<rparr>)"

text \<open>\<open>Accept\<close> waits for the first of three events; the connection gets its keep-alive period.\<close>

datatype accept_event = AcceptStopped | AcceptFailed string | AcceptedConn nat

definition Accept :: "accept_event \<Rightarrow> string + nat \<times> duration" where
  "Accept ev =
     (case ev of
        AcceptStopped \<Rightarrow> Inl ''server stopped''
      | AcceptFailed err \<Rightarrow> Inl err
      | AcceptedConn tc \<Rightarrow> Inr (tc, 3 * 60 * Second))"

text \<open>
  \<open>main\<close> passes to the node a closure over the variable \<open>kvs\<close>, which \<open>main\<close> assigns only
  when \<open>newKVStore\<close> returns. Until then the closure dereferences a nil pointer.
\<close>

definition main_getSnapshot :: "codec \<Rightarrow> store_state \<Rightarrow> string + string" where
  "main_getSnapshot c kvs =
     (case kvs of
        Serving_kv m \<Rightarrow> getSnapshot c m
      | Unread m \<Rightarrow> getSnapshot c m
      | _ \<Rightarrow> Inl ''invalid memory address or nil pointer dereference'')"

definition main_peers :: "string \<Rightarrow> string list" where
  "main_peers cluster = split_on (CHR '','') cluster"

text \<open>What the store finds on the commit channel, given what \<open>Load\<close> returns for a nil.\<close>

definition channel :: "load_result \<Rightarrow> string option list \<Rightarrow> commit list" where
  "channel load items = map (\<lambda>i. case i of Some d \<Rightarrow> CommitData d | None \<Rightarrow> CommitNil load) items"

section \<open>Lemmas\<close>

lemma channel_simps [simp]:
  "channel load [] = []" "channel load (None # is) = CommitNil load # channel load is"
  "channel load (map Some ds) = map CommitData ds"
  "channel load (is @ js) = channel load is @ channel load js"
  by (simp_all add: channel_def)

text \<open>The items of a log whose entry \<open>n\<close> ends the replay.\<close>

lemma publish_items_replay:
  assumes log: "contiguous 1 L" and n: "m < a" "a \<le> length L"
  shows "publish_items (Index (L ! m)) (take a L) =
    map Some (concat (map payload (take (Suc m) L))) @ None #
    map Some (concat (map payload (segment (Suc m) a L)))"
proof -
  have idx: "unat (Index (L ! k)) = Suc k" if "k < length L" for k
    using contiguous_nth [OF log that] by simp
  have other: "Index (L ! k) \<noteq> Index (L ! m)" if "k < length L" "k \<noteq> m" for k
    using idx [OF that(1)] idx [of m] n that(2) by auto
  have "publish_items (Index (L ! m)) (take m L) = map Some (concat (map payload (take m L)))"
    using n other by (intro publish_items_no_last) (auto simp: in_set_conv_nth)
  moreover have "publish_items (Index (L ! m)) (segment (Suc m) a L) =
      map Some (concat (map payload (segment (Suc m) a L)))"
    using n other by (intro publish_items_no_last) (auto simp: in_set_conv_nth segment_def)
  moreover have "take a L = take (Suc m) L @ segment (Suc m) a L"
    using n segment_simps(2) [of 0 "Suc m" a L] by (simp add: segment_def)
  moreover have "take (Suc m) L = take m L @ [L ! m]"
    using n by (simp add: take_Suc_conv_app_nth)
  ultimately show ?thesis
    by (simp only: publish_items_simps map_append concat_append list.map concat.simps append.simps
        append_Nil2 append_assoc if_True simp_thms)
qed

text \<open>The start of a node that has no snapshot and \<open>n\<close> entries in its write-ahead log.\<close>

definition wal_holds :: "wal_env \<Rightarrow> entry list \<Rightarrow> bool" where
  "wal_holds w es \<longleftrightarrow> (\<exists>hs. wal_ReadAll w (0, 0) = Inr (hs, es))"

lemma replayWAL_no_snapshot:
  assumes "replayWAL lib NoSnapshot w st rc = Inr (rc', out)" and "wal_holds w (take n L)" and "n \<le> length L"
  shows "commits_of out = (if n = 0 then [None] else []) \<and> appliedIndex rc' = appliedIndex rc \<and>
    lastIndex rc' = (if n = 0 then lastIndex rc else Index (L ! (n - 1)))"
  using assms
  by (auto simp: replayWAL_def loadSnapshot_def openWAL_def wal_holds_def Let_def split: if_splits option.splits)

lemma restart_items:
  assumes log: "contiguous 1 L" "length L < 2 ^ 64 - 1" and n: "n \<le> length L"
    and start: "replayWAL lib NoSnapshot w st (newRaftNode self nd st) = Inr (rc, out0)" "wal_holds w (take n L)"
    and run: "snap_Index s0 = 0" "serve_loop lib evs (serve_init s0 rc) = (None, rc', out)"
      "\<forall>ev \<in> set evs. from_log L ev" "n \<le> unat (appliedIndex rc')"
  shows "commits_of (out0 @ out) =
    map Some (concat (map payload (take n L))) @ None #
    map Some (concat (map payload (segment n (unat (appliedIndex rc')) L)))"
proof -
  let ?a = "unat (appliedIndex rc')"
  have a: "?a \<le> length L" and items: "commits_of out = publish_items (lastIndex rc) (take ?a L)"
    using serve_loop_log [OF log run(3) _ run(2)] run(1) by (simp_all add: serve_init_def segment_def)
  note rep = replayWAL_no_snapshot [OF start n]
  show ?thesis
  proof (cases "n = 0")
    case True
    then have "publish_items (lastIndex rc) (take ?a L) = map Some (concat (map payload (take ?a L)))"
      using rep contiguous_Index_pos [OF contiguous_take [OF log(1)]]
      by (intro publish_items_no_last) (auto simp: newRaftNode_def)
    with True rep items show ?thesis
      by (simp add: segment_def)
  next
    case False
    then obtain m where m: "n = Suc m"
      using not0_implies_Suc by blast
    then show ?thesis
      using rep items publish_items_replay [OF log(1) _ a, of m] run(4) by simp
  qed
qed

section \<open>Properties\<close>

text \<open>
  The whole node, restarted with no snapshot: whatever number \<open>n\<close> of entries the
  write-ahead log holds and however the committed entries arrive in batches, once they are
  applied at least up to \<open>n\<close>, the store is being served and holds the puts of the log up to
  the applied index, in order.
\<close>

theorem restart_serves_log:
  assumes "contiguous 1 L" and "length L < 2 ^ 64 - 1" and "n \<le> length L"
    and "replayWAL lib NoSnapshot w st (newRaftNode self nd st) = Inr (rc, out0)" and "wal_holds w (take n L)"
    and "snap_Index s0 = 0" and "serve_loop lib evs (serve_init s0 rc) = (None, rc', out)"
    and "\<forall>ev \<in> set evs. from_log L ev" and "n \<le> unat (appliedIndex rc')"
    and "decodes c (concat (map payload (take (unat (appliedIndex rc')) L))) es"
  shows "newKVStore c (channel ErrNoSnapshot (commits_of (out0 @ out))) =
    Serving_kv (put_all es Map.empty)"
proof -
  let ?a = "unat (appliedIndex rc')"
  have "take ?a L = take n L @ segment n ?a L"
    using assms(9) segment_simps(2) [of 0 n ?a L] by (simp add: segment_def)
  then have "decodes c (concat (map payload (take n L)) @ concat (map payload (segment n ?a L))) es"
    using assms(10) by simp
  then obtain es1 es2 where es: "es = es1 @ es2" "decodes c (concat (map payload (take n L))) es1"
    "decodes c (concat (map payload (segment n ?a L))) es2"
    unfolding decodes_append_iff by blast
  then show ?thesis
    unfolding restart_items [OF assms(1-9)] using newKVStore_serving [OF es(2,3)] by simp
qed

text \<open>
  (C21) A write is read back: a PUT is accepted and proposes an encoding of the pair, and once
  the store has read the committed proposal and other proposals for other keys, a GET of the
  key returns the value. The encoding is any one that decodes what it encodes.
\<close>

theorem http_put_get:
  assumes gob: "\<And>e. \<exists>d. gob_encode c e = Inr d \<and> gob_decode c d = Inr e"
    and others: "decodes c ds es" "\<forall>e \<in> set es. Key e \<noteq> k"
  shows "\<exists>p m'. ServeHTTP c m \<lparr>Method = ''PUT'', RequestURI = k, Body = Inr v\<rparr> =
      Inr (no_content, [ToProposeC p]) \<and>
    readCommits c m (CommitData p # map CommitData ds) = Reading m' \<and>
    ServeHTTP c m' \<lparr>Method = ''GET'', RequestURI = k, Body = b\<rparr> =
      Inr (\<lparr>status = StatusOK, body = v, Allow = []\<rparr>, [])"
proof -
  obtain p where p: "gob_encode c \<lparr>Key = k, Val = v\<rparr> = Inr p" "gob_decode c p = Inr \<lparr>Key = k, Val = v\<rparr>"
    using gob by blast
  have "find (\<lambda>e. Key e = k) (rev es) = None"
    using others(2) by (simp add: find_None_iff)
  then have "Lookup (put_all es (put \<lparr>Key = k, Val = v\<rparr> m)) k = (v, True)"
    unfolding put_all_def kvs.lookup_log by (simp add: kvs.lookup_upd)
  then show ?thesis
    using p readCommits_data [of c "p # ds" "\<lparr>Key = k, Val = v\<rparr> # es" m] others(1)
    by (intro exI [of _ p] exI [of _ "put_all es (put \<lparr>Key = k, Val = v\<rparr> m)"])
      (simp add: ServeHTTP_def Propose_def)
qed

text \<open>
  After a restart with a snapshot the node dies at its next snapshot. The store never
  becomes available, so the variable \<open>kvs\<close> that the snapshot callback reads stays nil, and
  \<open>maybeTriggerSnapshot\<close> panics as soon as more than \<open>snapCount\<close> entries are applied past
  the last snapshot, whatever was replayed or committed.
\<close>

theorem restart_with_snapshot_panics:
  assumes "decodes c replayed es" and "decodes c later fs" and "json_unmarshal c snapshot = Inr m0"
    and "snapshot_data io = main_getSnapshot c
           (newKVStore c (map CommitData replayed @ CommitNil (Loaded snapshot) # map CommitData later))"
    and "appliedIndex rc - snapshotIndex rc > snapCount rc"
  shows "maybeTriggerSnapshot lib io rc =
    Inl (Panic ''invalid memory address or nil pointer dereference'')"
  using assms(5) assms(4) [unfolded newKVStore_restart [OF assms(1-3)]]
  by (simp add: maybeTriggerSnapshot_def main_getSnapshot_def)

section \<open>Witnesses\<close>

definition sample_wal :: wal_env where
  "sample_wal = \<lparr>wal_Exist = True, wal_Mkdir_err = None, wal_Create_err = None, wal_Open_err = (\<lambda>_. None),
     wal_ReadAll = (\<lambda>_. Inr (no_hs, take 1 sample_log))\<rparr>"

lemma sample_wal_holds: "wal_holds sample_wal (take 1 sample_log)"
  by (simp add: wal_holds_def sample_wal_def)

lemma sample_replay:
  "replayWAL sample_raft NoSnapshot sample_wal () (newRaftNode 1 () ()) =
     Inr ((newRaftNode 1 () ())\<lparr>lastIndex := 1\<rparr>, [])"
  by (simp add: replayWAL_def loadSnapshot_def openWAL_def sample_wal_def sample_raft_def sample_log_def newRaftNode_def)

lemma sample_restart_run:
  "serve_loop sample_raft [batch 0 1, batch 0 2] (serve_init no_snap ((newRaftNode 1 () ())\<lparr>lastIndex := 1\<rparr>)) =
     (None, (newRaftNode 1 () ())\<lparr>lastIndex := 1, appliedIndex := 2\<rparr>,
      [WalSave no_hs [], SendMessages [], SendCommit (Some ''k1''), SendCommit None, Advance,
       WalSave no_hs [], SendMessages [], SendCommit (Some ''k2''), Advance])"
  by (simp add: sample_run_defs serve_init_def newRaftNode_def)

theorem restart_serves_log_witness:
  "newKVStore sample_codec [CommitData ''k1'', CommitNil ErrNoSnapshot, CommitData ''k2''] =
     Serving_kv (put_all [\<lparr>Key = ''k'', Val = ''1''\<rparr>, \<lparr>Key = ''k'', Val = ''2''\<rparr>] Map.empty)"
proof -
  have "\<forall>ev \<in> set [batch 0 1, batch 0 2]. from_log sample_log ev"
    by (simp add: sample_log_ok(3))
  moreover have "decodes sample_codec (concat (map payload (take (unat (appliedIndex
      ((newRaftNode 1 () ())\<lparr>lastIndex := 1, appliedIndex := 2\<rparr>))) sample_log)))
      [\<lparr>Key = ''k'', Val = ''1''\<rparr>, \<lparr>Key = ''k'', Val = ''2''\<rparr>]"
    by (simp add: sample_log_def payload_def sample_codec_def)
  moreover have "1 \<le> length sample_log" "snap_Index no_snap = 0"
    "1 \<le> unat (appliedIndex ((newRaftNode 1 () ())\<lparr>lastIndex := 1, appliedIndex := 2\<rparr>))"
    by (simp_all add: sample_log_def no_snap_def)
  ultimately show ?thesis
    using restart_serves_log [OF sample_log_ok(1,2) _ sample_replay sample_wal_holds _ sample_restart_run]
    by (simp add: commits_of_Cons_other channel_def)
qed

text \<open>An encoding that decodes what it encodes: the length of the key in unary, a zero, the pair.\<close>

definition unary_codec :: codec where
  "unary_codec = \<lparr>gob_encode = (\<lambda>e. Inr (replicate (length (Key e)) (CHR ''1'') @ CHR ''0'' # Key e @ Val e)),
     gob_decode = (\<lambda>s. let n = length (takeWhile (\<lambda>ch. ch = CHR ''1'') s); r = drop (Suc n) s
                       in Inr \<lparr>Key = take n r, Val = drop n r\<rparr>),
     json_marshal = (\<lambda>_. Inr []), json_unmarshal = (\<lambda>_. Inr Map.empty)\<rparr>"

lemma unary_codec_law: "\<exists>d. gob_encode unary_codec e = Inr d \<and> gob_decode unary_codec d = Inr e"
  by (simp add: unary_codec_def takeWhile_append takeWhile_replicate)

theorem http_put_get_witness:
  "\<exists>p m'. ServeHTTP unary_codec Map.empty \<lparr>Method = ''PUT'', RequestURI = ''/a'', Body = Inr ''1''\<rparr> =
      Inr (no_content, [ToProposeC p]) \<and>
    readCommits unary_codec Map.empty [CommitData p] = Reading m' \<and>
    ServeHTTP unary_codec m' \<lparr>Method = ''GET'', RequestURI = ''/a'', Body = Inr []\<rparr> =
      Inr (\<lparr>status = 200, body = ''1'', Allow = []\<rparr>, [])"
  using http_put_get [OF unary_codec_law, where ds = "[]" and es = "[]" and k = "''/a''" and v = "''1''"
      and m = Map.empty and b = "Inr []"] by simp

theorem restart_with_snapshot_panics_witness:
  "maybeTriggerSnapshot sample_raft
     (sample_io\<lparr>snapshot_data := main_getSnapshot sample_codec
        (newKVStore sample_codec [CommitData ''k1'', CommitNil (Loaded ''snap'')])\<rparr>)
     ((sample_node 1)\<lparr>appliedIndex := 5\<rparr>) =
   Inl (Panic ''invalid memory address or nil pointer dereference'')"
  by (rule restart_with_snapshot_panics [of sample_codec "[''k1'']" "[\<lparr>Key = ''k'', Val = ''1''\<rparr>]" "[]" "[]"
        "''snap''" "[''k'' \<mapsto> ''0'']"])
    (simp_all add: sample_codec_def sample_node_def word_less_nat_alt)

end
