(* ===== verification/Raft_Cluster.thy ===== *)
theory Raft_Cluster
  imports Raft_System
begin

text \<open>
  A replica of \<open>src/goraft-explore\<close> from its start to the answers of its HTTP interface: the
  whole of \<open>startRaft\<close>, the head of \<open>serveChannels\<close>, \<open>serveHttpKVAPI\<close> and \<open>main\<close>, composed
  with the event loop and the store; and the replicas of one cluster side by side.

  The directories, the write-ahead log and the start of the consensus algorithm are an
  environment; the cluster is the log that its nodes agree on, of which every replica
  receives parts in its own batches.
\<close>

section \<open>Start\<close>

record 's raft_config =
  cf_ID :: uint64
  ElectionTick :: nat
  HeartbeatTick :: nat
  cf_Storage :: 's
  MaxSizePerMsg :: nat
  MaxInflightMsgs :: nat

record ('n, 's) start_env =
  snapdir_Exist :: bool
  Mkdir_err :: "string option"
  wal :: wal_env
  snap_Load :: snap_load
  NewMemoryStorage :: 's
  storage_Snapshot :: "'s \<Rightarrow> string + snapshot"
  RestartNode :: "'s raft_config \<Rightarrow> 'n"
  StartNode :: "'s raft_config \<Rightarrow> uint64 list \<Rightarrow> 'n"

definition startRaft ::
  "('n, 's) raft_lib \<Rightarrow> ('n, 's) start_env \<Rightarrow> bool \<Rightarrow> string list \<Rightarrow> ('n, 's) raft_node
   \<Rightarrow> raft_error + (('n, 's) raft_node \<times> effect list)" where
  "startRaft lib env joins peers rc =
     (case (if snapdir_Exist env then None else Mkdir_err env) of
        Some err \<Rightarrow> Inl (Fatal (''raftexample: cannot create dir for snapshot ('' @ err @ '')''))
      | None \<Rightarrow>
          let oldwal = wal_Exist (wal env)
          in (case replayWAL lib (snap_Load env) (wal env) (NewMemoryStorage env) rc of
                Inl err \<Rightarrow> Inl err
              | Inr (rc, out) \<Rightarrow>
                  let c = \<lparr>cf_ID = of_int (rc_id rc), ElectionTick = 10, HeartbeatTick = 1,
                           cf_Storage = raftStorage rc, MaxSizePerMsg = 1024 * 1024, MaxInflightMsgs = 256\<rparr>;
                      n = (if oldwal then RestartNode env c else StartNode env c (start_peers oldwal joins peers))
                  in Inr (rc\<lparr>node := n\<rparr>, out @ transport_peers (rc_id rc) peers)))"

text \<open>\<open>serveChannels\<close>: the position of the stored snapshot, then the event loop.\<close>

definition serveChannels ::
  "('n, 's) raft_lib \<Rightarrow> ('n, 's) start_env \<Rightarrow> loop_event list \<Rightarrow> ('n, 's) raft_node
   \<Rightarrow> loop_end option \<times> ('n, 's) raft_node \<times> effect list" where
  "serveChannels lib env evs rc =
     (case storage_Snapshot env (raftStorage rc) of
        Inl err \<Rightarrow> (Some (Crashed (Panic err)), rc, [])
      | Inr snapShot \<Rightarrow> serve_loop lib evs (serve_init snapShot rc))"

text \<open>
  \<open>serveHttpKVAPI\<close> starts the server and waits for the node: the address it listens on, and
  what ends it. A fatal error is \<open>Some\<close>; the closed channel lets \<open>main\<close> return.
\<close>

datatype api_event = ListenAndServe_failed string | ErrorReceived string | ErrorC_closed

definition serveHttpKVAPI :: "int \<Rightarrow> api_event \<Rightarrow> string \<times> string option" where
  "serveHttpKVAPI port ev =
     (CHR '':'' # Itoa port,
      case ev of ListenAndServe_failed err \<Rightarrow> Some err | ErrorReceived err \<Rightarrow> Some err | ErrorC_closed \<Rightarrow> None)"

record raft_flags =
  flag_cluster :: string
  flag_id :: int
  flag_port :: int
  flag_join :: bool

definition default_flags :: raft_flags where
  "default_flags = \<lparr>flag_cluster = ''http://127.0.0.1:9021'', flag_id = 1, flag_port = 9121, flag_join = False\<rparr>"

text \<open>
  \<open>main\<close>: the node is created and started, its event loop runs over the events received so
  far, and the store reads what the node has published. The results are how the loop ended
  if it did, the node, and the store.
\<close>

definition raft_main ::
  "('n, 's) raft_lib \<Rightarrow> ('n, 's) start_env \<Rightarrow> codec \<Rightarrow> load_result \<Rightarrow> raft_flags \<Rightarrow> 'n \<Rightarrow> loop_event list
   \<Rightarrow> raft_error + (loop_end option \<times> ('n, 's) raft_node \<times> store_state)" where
  "raft_main lib env c load flags n0 evs =
     (case startRaft lib env (flag_join flags) (main_peers (flag_cluster flags))
             (newRaftNode (flag_id flags) n0 (NewMemoryStorage env)) of
        Inl err \<Rightarrow> Inl err
      | Inr (rc, out0) \<Rightarrow>
          (case serveChannels lib env evs rc of (r, rc, out) \<Rightarrow>
             Inr (r, rc, newKVStore c (channel load (commits_of (out0 @ out))))))"

section \<open>Lemmas\<close>

lemma transport_peers_commits [simp]: "commits_of (transport_peers self peers) = []"
  by (simp add: transport_peers_def commits_of_def comp_def)

text \<open>A replica on a log: no snapshot, the first \<open>n\<close> entries in its write-ahead log.\<close>

definition on_log :: "('n, 's) raft_lib \<Rightarrow> ('n, 's) start_env \<Rightarrow> entry list \<Rightarrow> nat \<Rightarrow> bool" where
  "on_log lib env L n \<longleftrightarrow>
     n \<le> length L \<and> snap_Load env = NoSnapshot \<and> wal_holds (wal env) (take n L) \<and>
     (\<forall>hs. \<exists>s. storage_Snapshot env (Append lib (take n L) (SetHardState lib hs (NewMemoryStorage env))) = Inr s \<and>
        snap_Index s = 0)"

lemma startRaft_on_log:
  assumes "startRaft lib env joins peers rc = Inr (rc', out)" and "on_log lib env L n"
  obtains rc1 out1 hs where "replayWAL lib NoSnapshot (wal env) (NewMemoryStorage env) rc = Inr (rc1, out1)"
    and "rc' = rc1\<lparr>node := node rc'\<rparr>" and "commits_of out = commits_of out1"
    and "raftStorage rc' = Append lib (take n L) (SetHardState lib hs (NewMemoryStorage env))"
proof -
  obtain rc1 out1 where rep: "replayWAL lib NoSnapshot (wal env) (NewMemoryStorage env) rc = Inr (rc1, out1)"
    and rc: "rc' = rc1\<lparr>node := node rc'\<rparr>" "out = out1 @ transport_peers (rc_id rc1) peers"
    using assms by (auto simp: startRaft_def on_log_def Let_def split: option.splits sum.splits prod.splits)
  have "\<exists>hs. raftStorage rc1 = Append lib (take n L) (SetHardState lib hs (NewMemoryStorage env))"
    using rep assms(2)
    by (auto simp: replayWAL_def loadSnapshot_def openWAL_def on_log_def wal_holds_def Let_def
        split: option.splits if_splits)
  moreover have "raftStorage rc' = raftStorage rc1"
    by (subst rc(1)) simp
  ultimately show ?thesis
    using that [OF rep rc(1)] rc(2) by auto
qed

text \<open>The loop does not look at how the consensus node came to be.\<close>

lemma replayWAL_node:
  "replayWAL lib load ow st rc = Inr (rc1, out) \<Longrightarrow> replayWAL lib load ow st (rc\<lparr>node := n\<rparr>) = Inr (rc1\<lparr>node := n\<rparr>, out)"
  by (auto simp: replayWAL_def Let_def split: sum.splits prod.splits if_splits option.splits)

lemma newRaftNode_node: "(newRaftNode self n0 st)\<lparr>node := n\<rparr> = newRaftNode self n st"
  by (simp add: newRaftNode_def)

lemma raft_main_store:
  assumes log: "contiguous 1 L" "length L < 2 ^ 64 - 1"
    and run: "raft_main lib env c ErrNoSnapshot flags n0 evs = Inr (None, rc', kv)"
    and env: "on_log lib env L n" and evs: "\<forall>ev \<in> set evs. from_log L ev" "n \<le> unat (appliedIndex rc')"
    and dec: "decodes c (concat (map payload (take (unat (appliedIndex rc')) L))) es"
  shows "kv = Serving_kv (put_all es Map.empty)"
proof -
  let ?st = "NewMemoryStorage env"
  obtain rc out0 where start: "startRaft lib env (flag_join flags) (main_peers (flag_cluster flags)) (newRaftNode (flag_id flags) n0 ?st) =
      Inr (rc, out0)"
    using run by (auto simp: raft_main_def split: sum.splits prod.splits)
  then obtain rc1 out1 hs where rep: "replayWAL lib NoSnapshot (wal env) ?st (newRaftNode (flag_id flags) n0 ?st) = Inr (rc1, out1)"
    and rc: "rc = rc1\<lparr>node := node rc\<rparr>" "commits_of out0 = commits_of out1"
    and sto: "raftStorage rc = Append lib (take n L) (SetHardState lib hs ?st)"
    using env by (rule startRaft_on_log)
  obtain s0 where s0: "storage_Snapshot env (raftStorage rc) = Inr s0" "snap_Index s0 = 0"
    using env sto by (auto simp: on_log_def)
  obtain out where loop: "serve_loop lib evs (serve_init s0 rc) = (None, rc', out)"
    and kv: "kv = newKVStore c (channel ErrNoSnapshot (commits_of (out0 @ out)))"
    using run start s0(1) by (auto simp: raft_main_def serveChannels_def split: prod.splits)
  have "replayWAL lib NoSnapshot (wal env) ?st (newRaftNode (flag_id flags) (node rc) ?st) = Inr (rc, out1)"
    using replayWAL_node [OF rep, of "node rc"] rc(1) by (simp add: newRaftNode_node)
  then show ?thesis
    using restart_serves_log [OF log _ _ _ s0(2) loop evs dec] env rc(2) kv by (simp add: on_log_def)
qed

lemma ServeHTTP_GET:
  "ServeHTTP c (put_all es Map.empty) \<lparr>Method = ''GET'', RequestURI = k, Body = b\<rparr> =
     Inr (case find (\<lambda>e. Key e = k) (rev es) of
            Some e \<Rightarrow> \<lparr>status = StatusOK, body = Val e, Allow = []\<rparr>
          | None \<Rightarrow> http_Error ''Failed to GET'' StatusNotFound, [])"
  using kvs.lookup_log_empty [of es k]
  by (auto simp: ServeHTTP_def put_all_def split: option.splits)

text \<open>
  How a node comes up: a node with an old log restarts from it, a new node of the cluster
  starts with the identifiers 1, 2, ... of all peers, and a joining node with none; in each
  case it connects to every peer but itself.
\<close>

lemma startRaft_peers:
  assumes "startRaft lib env joins peers rc = Inr (rc', out)"
  shows "\<exists>cf. cf_ID cf = of_int (rc_id rc) \<and> cf_Storage cf = raftStorage rc' \<and>
    node rc' = (if wal_Exist (wal env) then RestartNode env cf
                else StartNode env cf (if joins then [] else map of_nat [1..<length peers + 1]))"
    and "AddPeer j a \<in> set out \<longleftrightarrow>
      (\<exists>i < length peers. int i + 1 \<noteq> rc_id rc \<and> j = of_nat (i + 1) \<and> a = peers ! i)"
proof -
  have ids: "raft_peers peers = map of_nat [1..<length peers + 1]"
    unfolding raft_peers_def by (simp add: map_Suc_upt [symmetric] comp_def del: upt_Suc)
  obtain rc1 out1 where r: "replayWAL lib (snap_Load env) (wal env) (NewMemoryStorage env) rc = Inr (rc1, out1)"
    using assms by (auto simp: startRaft_def Let_def split: option.splits sum.splits prod.splits)
  then have rc1: "rc_id rc1 = rc_id rc" "out1 = [] \<or> out1 = [SendCommit None]"
    by (auto simp: replayWAL_def Let_def split: sum.splits prod.splits if_splits)
  have o: "out = out1 @ transport_peers (rc_id rc) peers" and n: "rc' = rc1\<lparr>node := node rc'\<rparr>"
    "node rc' = (let cf = \<lparr>cf_ID = of_int (rc_id rc), ElectionTick = 10, HeartbeatTick = 1,
        cf_Storage = raftStorage rc1, MaxSizePerMsg = 1024 * 1024, MaxInflightMsgs = 256\<rparr>
      in if wal_Exist (wal env) then RestartNode env cf else StartNode env cf (start_peers False joins peers))"
    using assms r rc1(1) by (auto simp: startRaft_def Let_def split: option.splits)
  show "\<exists>cf. cf_ID cf = of_int (rc_id rc) \<and> cf_Storage cf = raftStorage rc' \<and>
    node rc' = (if wal_Exist (wal env) then RestartNode env cf
                else StartNode env cf (if joins then [] else map of_nat [1..<length peers + 1]))"
    using n(2) arg_cong [OF n(1), of raftStorage]
    by (intro exI [of _ "\<lparr>cf_ID = of_int (rc_id rc), ElectionTick = 10, HeartbeatTick = 1,
        cf_Storage = raftStorage rc1, MaxSizePerMsg = 1024 * 1024, MaxInflightMsgs = 256\<rparr>"])
      (simp add: start_peers_def ids Let_def)
  show "AddPeer j a \<in> set out \<longleftrightarrow>
      (\<exists>i < length peers. int i + 1 \<noteq> rc_id rc \<and> j = of_nat (i + 1) \<and> a = peers ! i)"
    using rc1(2) by (auto simp: o transport_peers_def)
qed

section \<open>Properties\<close>

text \<open>
  (C8) The replicas of a cluster serve one history. Two nodes start without a snapshot, each
  with its own part of the agreed log on disk, and run on batches of it of their own. Then both
  stores are being served; the one that has applied less holds the puts of a prefix of the
  history that the other one holds, and the same puts when both have applied equally far; and a
  GET at a replica is answered with the value of the last put of its history for the key, or
  with 404 when there is none.
\<close>

theorem replicas_serve_one_history:
  assumes log: "contiguous 1 L" "length L < 2 ^ 64 - 1"
    and A: "raft_main lib env c ErrNoSnapshot flags n0 evs = Inr (None, rc, kv)"
      "on_log lib env L n" "\<forall>ev \<in> set evs. from_log L ev" "n \<le> unat (appliedIndex rc)"
    and B: "raft_main lib' env' c ErrNoSnapshot flags' n0' evs' = Inr (None, rd, kv')"
      "on_log lib' env' L n'" "\<forall>ev \<in> set evs'. from_log L ev" "n' \<le> unat (appliedIndex rd)"
    and slower: "appliedIndex rc \<le> appliedIndex rd"
    and puts: "decodes c (concat (map payload (take (unat (appliedIndex rd)) L))) es"
  shows "\<exists>early late. es = early @ late \<and> kv = Serving_kv (put_all early Map.empty) \<and>
    kv' = Serving_kv (put_all es Map.empty) \<and> (appliedIndex rc = appliedIndex rd \<longrightarrow> late = []) \<and>
    (\<forall>k b. ServeHTTP c (put_all es Map.empty) \<lparr>Method = ''GET'', RequestURI = k, Body = b\<rparr> =
       Inr (case find (\<lambda>e. Key e = k) (rev es) of
              Some e \<Rightarrow> \<lparr>status = StatusOK, body = Val e, Allow = []\<rparr>
            | None \<Rightarrow> http_Error ''Failed to GET'' StatusNotFound, []))"
proof -
  let ?a = "unat (appliedIndex rc)" and ?b = "unat (appliedIndex rd)"
  have ab: "?a \<le> ?b"
    using slower by (simp add: word_le_nat_alt)
  then have "take ?b L = take ?a L @ segment ?a ?b L"
    using segment_simps(2) [of 0 ?a ?b L] by (simp add: segment_def)
  then obtain early late where es: "es = early @ late" "decodes c (concat (map payload (take ?a L))) early"
    "decodes c (concat (map payload (segment ?a ?b L))) late"
    using puts decodes_append_iff [of c "concat (map payload (take ?a L))" "concat (map payload (segment ?a ?b L))" es]
    by auto
  have "late = []" if "appliedIndex rc = appliedIndex rd"
    using es(3) that by (simp add: segment_def)
  then show ?thesis
    using es(1) raft_main_store [OF log A es(2)] raft_main_store [OF log B puts] ServeHTTP_GET by blast
qed

section \<open>Witness\<close>

text \<open>Two nodes with one entry on disk; the second one has applied one entry more.\<close>

definition demo_start :: "(unit, unit) start_env" where
  "demo_start = \<lparr>snapdir_Exist = False, Mkdir_err = None, wal = sample_wal, snap_Load = NoSnapshot,
     NewMemoryStorage = (), storage_Snapshot = (\<lambda>_. Inr no_snap),
     RestartNode = (\<lambda>_. ()), StartNode = (\<lambda>_ _. ())\<rparr>"

lemma demo_on_log: "on_log sample_raft demo_start sample_log 1"
  using sample_wal_holds by (simp add: on_log_def demo_start_def sample_log_def no_snap_def)

lemma demo_startRaft:
  "startRaft sample_raft demo_start False (main_peers (flag_cluster default_flags)) (newRaftNode 1 () ()) =
     Inr ((newRaftNode 1 () ())\<lparr>lastIndex := 1\<rparr>, [])"
  using sample_replay
  by (simp add: startRaft_def demo_start_def transport_peers_def main_peers_def default_flags_def newRaftNode_def)

lemma demo_main:
  assumes "serve_loop sample_raft evs (serve_init no_snap ((newRaftNode 1 () ())\<lparr>lastIndex := 1\<rparr>)) = (r, rc, out)"
  shows "raft_main sample_raft demo_start sample_codec ErrNoSnapshot default_flags () evs =
    Inr (r, rc, newKVStore sample_codec (channel ErrNoSnapshot (commits_of out)))"
  using demo_startRaft assms by (simp add: raft_main_def serveChannels_def demo_start_def default_flags_def)

lemma demo_short_run:
  "serve_loop sample_raft [batch 0 1] (serve_init no_snap ((newRaftNode 1 () ())\<lparr>lastIndex := 1\<rparr>)) =
     (None, (newRaftNode 1 () ())\<lparr>lastIndex := 1, appliedIndex := 1\<rparr>,
      [WalSave no_hs [], SendMessages [], SendCommit (Some ''k1''), SendCommit None, Advance])"
  by (simp add: sample_run_defs serve_init_def newRaftNode_def)

theorem replicas_serve_one_history_witness:
  "newKVStore sample_codec [CommitData ''k1'', CommitNil ErrNoSnapshot] = Serving_kv [''k'' \<mapsto> ''1''] \<and>
   newKVStore sample_codec [CommitData ''k1'', CommitNil ErrNoSnapshot, CommitData ''k2''] = Serving_kv [''k'' \<mapsto> ''2'']"
proof -
  let ?rc = "(newRaftNode 1 () ())\<lparr>lastIndex := 1, appliedIndex := 1\<rparr>"
  let ?rd = "(newRaftNode 1 () ())\<lparr>lastIndex := 1, appliedIndex := 2\<rparr>"
  let ?es = "[\<lparr>Key = ''k'', Val = ''1''\<rparr>, \<lparr>Key = ''k'', Val = ''2''\<rparr>]"
  have evs: "\<forall>ev \<in> set [batch 0 1]. from_log sample_log ev" "\<forall>ev \<in> set [batch 0 1, batch 0 2]. from_log sample_log ev"
    by (simp_all add: sample_log_ok(3))
  have "decodes sample_codec (concat (map payload (take (unat (appliedIndex ?rd)) sample_log))) ?es"
    by (simp add: sample_log_def payload_def sample_codec_def)
  moreover have "1 \<le> unat (appliedIndex ?rc)" "1 \<le> unat (appliedIndex ?rd)" "appliedIndex ?rc \<le> appliedIndex ?rd"
    by simp_all
  ultimately have "\<exists>early.
    newKVStore sample_codec [CommitData ''k1'', CommitNil ErrNoSnapshot] = Serving_kv (put_all early Map.empty) \<and>
    newKVStore sample_codec [CommitData ''k1'', CommitNil ErrNoSnapshot, CommitData ''k2''] =
       Serving_kv (put_all ?es Map.empty)"
    using replicas_serve_one_history [OF sample_log_ok(1,2) demo_main [OF demo_short_run] demo_on_log evs(1) _
        demo_main [OF sample_restart_run] demo_on_log evs(2), of ?es]
    by (simp add: commits_of_Cons_other channel_def) blast
  then show ?thesis
    by (auto simp: put_def newKVStore_def sample_codec_def)
qed

end
