(* ===== verification/Raft_Shutdown.thy ===== *)
theory Raft_Shutdown
  imports Go_Prelude
begin

text \<open>
  How the raft node of \<open>src/goraft-explore\<close> shuts down: the event loop of \<open>serveChannels\<close>
  with \<open>stop\<close>, \<open>stopHTTP\<close> and \<open>writeError\<close>, the goroutine of \<open>serveRaft\<close>, the goroutine that
  closes \<open>stopc\<close> when a client has closed its channel, and the receiver of \<open>errorC\<close> at the
  end of \<open>serveHttpKVAPI\<close>, as a machine. Each channel carries the number of times it was
  closed, since closing a closed channel panics. The work of the event loop between two
  selects is not a step of this machine.
\<close>

section \<open>The machine\<close>

text \<open>The event loop: in its select, or in a line of the shutdown, with the error to report if any.\<close>

datatype loop_pc =
  Select
| StopHTTP "string option"
| AwaitDone "string option"
| CloseCommit "string option"
| SendError string
| CloseError
| NodeStop
| LoopEnded

text \<open>\<open>serveRaft\<close>: serving, returned from \<open>Serve\<close>, ended.\<close>

datatype http_pc = Serving | Returned | HttpEnded

text \<open>The goroutine that sends proposals: running, or ended after closing \<open>stopc\<close>.\<close>

datatype prop_pc = Proposing | PropEnded

text \<open>
  The receiver of \<open>errorC\<close>: waiting, or released by the close of the channel, after which
  \<open>main\<close> returns and the process ends. An error received ends the process too; the store
  goroutine, which may receive it instead, does the same.
\<close>

datatype api_pc = AwaitError | ApiEnded

record shutdown_state =
  loop :: loop_pc
  http :: http_pc
  proposals :: prop_pc
  api :: api_pc
  stopc :: nat
  httpstopc :: nat
  httpdonec :: nat
  commitC :: nat
  errorC :: nat
  exited :: bool

definition shutdown_start :: shutdown_state where
  "shutdown_start = \<lparr>loop = Select, http = Serving, proposals = Proposing, api = AwaitError, stopc = 0, httpstopc = 0,
     httpdonec = 0, commitC = 0, errorC = 0, exited = False\<rparr>"

text \<open>
  The steps. The select of the loop leaves for \<open>stop\<close> when \<open>stopc\<close> is closed or a publication
  failed, and for \<open>writeError\<close> on an error of the transport. \<open>Serve\<close> returns because its
  listener saw \<open>httpstopc\<close> closed or failed; \<open>log.Fatalf\<close> ends the process.
\<close>

inductive shutdown_step :: "shutdown_state \<Rightarrow> shutdown_state \<Rightarrow> bool" where
  client_closes: "\<not> exited s \<Longrightarrow> proposals s = Proposing \<Longrightarrow>
    shutdown_step s (s\<lparr>stopc := Suc (stopc s), proposals := PropEnded\<rparr>)"
| stop_requested: "\<not> exited s \<Longrightarrow> loop s = Select \<Longrightarrow> stopc s > 0 \<Longrightarrow> shutdown_step s (s\<lparr>loop := StopHTTP None\<rparr>)"
| publish_failed: "\<not> exited s \<Longrightarrow> loop s = Select \<Longrightarrow> shutdown_step s (s\<lparr>loop := StopHTTP None\<rparr>)"
| transport_error: "\<not> exited s \<Longrightarrow> loop s = Select \<Longrightarrow> shutdown_step s (s\<lparr>loop := StopHTTP (Some err)\<rparr>)"
| close_httpstopc: "\<not> exited s \<Longrightarrow> loop s = StopHTTP e \<Longrightarrow>
    shutdown_step s (s\<lparr>httpstopc := Suc (httpstopc s), loop := AwaitDone e\<rparr>)"
| httpdonec_received: "\<not> exited s \<Longrightarrow> loop s = AwaitDone e \<Longrightarrow> httpdonec s > 0 \<Longrightarrow>
    shutdown_step s (s\<lparr>loop := CloseCommit e\<rparr>)"
| close_commitC: "\<not> exited s \<Longrightarrow> loop s = CloseCommit e \<Longrightarrow>
    shutdown_step s (s\<lparr>commitC := Suc (commitC s), loop := (case e of None \<Rightarrow> CloseError | Some err \<Rightarrow> SendError err)\<rparr>)"
| error_received: "\<not> exited s \<Longrightarrow> loop s = SendError err \<Longrightarrow> api s = AwaitError \<Longrightarrow>
    shutdown_step s (s\<lparr>loop := CloseError, exited := True\<rparr>)"
| close_errorC: "\<not> exited s \<Longrightarrow> loop s = CloseError \<Longrightarrow>
    shutdown_step s (s\<lparr>errorC := Suc (errorC s), loop := NodeStop\<rparr>)"
| node_Stop: "\<not> exited s \<Longrightarrow> loop s = NodeStop \<Longrightarrow> shutdown_step s (s\<lparr>loop := LoopEnded\<rparr>)"
| serve_stopped: "\<not> exited s \<Longrightarrow> http s = Serving \<Longrightarrow> httpstopc s > 0 \<Longrightarrow> shutdown_step s (s\<lparr>http := Returned\<rparr>)"
| serve_failed: "\<not> exited s \<Longrightarrow> http s = Serving \<Longrightarrow> shutdown_step s (s\<lparr>http := Returned\<rparr>)"
| close_httpdonec: "\<not> exited s \<Longrightarrow> http s = Returned \<Longrightarrow> httpstopc s > 0 \<Longrightarrow>
    shutdown_step s (s\<lparr>httpdonec := Suc (httpdonec s), http := HttpEnded\<rparr>)"
| serve_fatal: "\<not> exited s \<Longrightarrow> http s = Returned \<Longrightarrow> httpstopc s = 0 \<Longrightarrow> shutdown_step s (s\<lparr>exited := True\<rparr>)"
| api_released: "\<not> exited s \<Longrightarrow> api s = AwaitError \<Longrightarrow> errorC s > 0 \<Longrightarrow> shutdown_step s (s\<lparr>api := ApiEnded, exited := True\<rparr>)"

definition shutdown_init :: "shutdown_state \<Rightarrow> bool" where
  "shutdown_init s \<longleftrightarrow> s = shutdown_start"

section \<open>Invariant and measure\<close>

text \<open>Which channels are closed at which line; none is closed twice.\<close>

definition shutdown_inv :: "shutdown_state \<Rightarrow> bool" where
  "shutdown_inv s \<longleftrightarrow>
     stopc s = (if proposals s = PropEnded then 1 else 0) \<and>
     httpstopc s = (case loop s of Select \<Rightarrow> 0 | StopHTTP _ \<Rightarrow> 0 | _ \<Rightarrow> 1) \<and>
     httpdonec s = (if http s = HttpEnded then 1 else 0) \<and>
     (http s = HttpEnded \<longrightarrow> httpstopc s = 1) \<and>
     commitC s = (case loop s of Select \<Rightarrow> 0 | StopHTTP _ \<Rightarrow> 0 | AwaitDone _ \<Rightarrow> 0 | CloseCommit _ \<Rightarrow> 0 | _ \<Rightarrow> 1) \<and>
     errorC s = (case loop s of NodeStop \<Rightarrow> 1 | LoopEnded \<Rightarrow> 1 | _ \<Rightarrow> 0) \<and>
     (api s = ApiEnded \<longrightarrow> errorC s = 1)"

fun loop_rank :: "loop_pc \<Rightarrow> nat" where
  "loop_rank Select = 7"
| "loop_rank (StopHTTP e) = 6"
| "loop_rank (AwaitDone e) = 5"
| "loop_rank (CloseCommit e) = 4"
| "loop_rank (SendError err) = 3"
| "loop_rank CloseError = 2"
| "loop_rank NodeStop = 1"
| "loop_rank LoopEnded = 0"

definition shutdown_rank :: "shutdown_state \<Rightarrow> nat" where
  "shutdown_rank s = loop_rank (loop s) +
     (case http s of Serving \<Rightarrow> 2 | Returned \<Rightarrow> 1 | HttpEnded \<Rightarrow> 0) +
     (case proposals s of Proposing \<Rightarrow> 1 | PropEnded \<Rightarrow> 0) +
     (case api s of AwaitError \<Rightarrow> 1 | ApiEnded \<Rightarrow> 0) + (if exited s then 0 else 1)"

interpretation shutdown: inductive_invariant shutdown_init shutdown_step shutdown_inv
proof
  show "shutdown_init s \<Longrightarrow> shutdown_inv s" for s
    by (simp add: shutdown_init_def shutdown_start_def shutdown_inv_def)
  show "shutdown_step s t \<Longrightarrow> shutdown_inv s \<Longrightarrow> shutdown_inv t" for s t
  proof (induction rule: shutdown_step.induct)
    case (close_httpdonec s)
    then show ?case
      by (cases "loop s") (auto simp: shutdown_inv_def)
  next
    case (api_released s)
    then show ?case
      by (cases "loop s") (auto simp: shutdown_inv_def)
  qed (auto simp: shutdown_inv_def split: if_splits option.splits)
qed

lemma shutdown_step_rank: "shutdown_step s t \<Longrightarrow> shutdown_rank t < shutdown_rank s"
  by (induction rule: shutdown_step.induct) (auto simp: shutdown_rank_def split: option.splits)

lemma shutdown_path_rank: "(shutdown_step ^^ n) s t \<Longrightarrow> n + shutdown_rank t \<le> shutdown_rank s"
  by (induction n arbitrary: t) (fastforce dest: shutdown_step_rank)+

text \<open>Until the loop or the process has ended, some goroutine can take a step.\<close>

lemma shutdown_progress:
  assumes "shutdown_inv s" and "\<not> exited s" and "loop s \<noteq> LoopEnded"
  shows "\<exists>t. shutdown_step s t"
proof (cases "loop s")
  case (AwaitDone e)
  then have "httpstopc s > 0" "http s = HttpEnded \<Longrightarrow> httpdonec s > 0"
    using assms(1) by (simp_all add: shutdown_inv_def)
  then show ?thesis
    using assms(2) AwaitDone httpdonec_received serve_failed close_httpdonec by (cases "http s") blast+
next
  case (SendError err)
  then have "api s = AwaitError"
    using assms(1) by (cases "api s") (auto simp: shutdown_inv_def)
  then show ?thesis
    using assms(2) SendError error_received by blast
qed (use assms(2,3) publish_failed close_httpstopc close_commitC close_errorC node_Stop in \<open>blast+\<close>)

section \<open>Properties\<close>



end
