(* ===== verification/Dhcp_Handler.thy ===== *)
theory Dhcp_Handler
  imports Go_Prelude
begin

text \<open>
  The DHCP server of \<open>src/opendhcpd\<close>: the choice of the local address (\<open>helper/helper.go\<close>),
  the construction of the handler and its checks (\<open>dhcpv4/dhcp_handler.go\<close>), and the answers
  to the messages of clients with the table of leases (\<open>dhcpv4/dhcp_internal.go\<close>).

  Addresses are byte lists; \<open>None\<close> is a nil address. The packets and the address arithmetic
  belong to the package \<open>krolaw/dhcp4\<close>: the fields of a packet that the handler reads are a
  record, \<open>IPAdd\<close>, \<open>IPRange\<close> and \<open>SelectOrderOrAll\<close> are the record \<open>dhcp_lib\<close>, and a reply
  packet is a value of the type \<open>dhcp_reply\<close>. A Go map is iterated in an arbitrary order, so
  an operation that iterates takes the order as an argument. Times are nanoseconds.
\<close>

section \<open>Addresses\<close>

type_synonym ip = "byte list"

definition v4InV6Prefix :: ip where
  "v4InV6Prefix = replicate 10 0 @ [255, 255]"

definition To4 :: "ip \<Rightarrow> ip option" where
  "To4 i =
     (if length i = 4 then Some i
      else if length i = 16 \<and> take 12 i = v4InV6Prefix then Some (drop 12 i)
      else None)"

definition ip_Equal :: "ip \<Rightarrow> ip \<Rightarrow> bool" where
  "ip_Equal i x =
     (if length i = length x then i = x
      else if length i = 4 \<and> length x = 16 then take 12 x = v4InV6Prefix \<and> i = drop 12 x
      else if length i = 16 \<and> length x = 4 then take 12 i = v4InV6Prefix \<and> drop 12 i = x
      else False)"

abbreviation IPv4zero :: ip where "IPv4zero \<equiv> v4InV6Prefix @ [0, 0, 0, 0]"
abbreviation IPv4bcast :: ip where "IPv4bcast \<equiv> v4InV6Prefix @ [255, 255, 255, 255]"

definition IsUnspecified :: "ip \<Rightarrow> bool" where
  "IsUnspecified i \<longleftrightarrow> ip_Equal i IPv4zero \<or> ip_Equal i (replicate 16 0)"

definition IsLoopback :: "ip \<Rightarrow> bool" where
  "IsLoopback i = (case To4 i of Some i4 \<Rightarrow> i4 ! 0 = 127 | None \<Rightarrow> ip_Equal i (replicate 15 0 @ [1]))"

definition IsMulticast :: "ip \<Rightarrow> bool" where
  "IsMulticast i = (case To4 i of Some i4 \<Rightarrow> i4 ! 0 div 16 = 14 | None \<Rightarrow> length i = 16 \<and> i ! 0 = 255)"

definition IsLinkLocalUnicast :: "ip \<Rightarrow> bool" where
  "IsLinkLocalUnicast i =
     (case To4 i of
        Some i4 \<Rightarrow> i4 ! 0 = 169 \<and> i4 ! 1 = 254
      | None \<Rightarrow> length i = 16 \<and> i ! 0 = 254 \<and> i ! 1 div 64 = 2)"

definition IsGlobalUnicast :: "ip \<Rightarrow> bool" where
  "IsGlobalUnicast i \<longleftrightarrow> (length i = 4 \<or> length i = 16) \<and> \<not> ip_Equal i IPv4bcast \<and>
     \<not> IsUnspecified i \<and> \<not> IsLoopback i \<and> \<not> IsMulticast i \<and> \<not> IsLinkLocalUnicast i"

text \<open>
  \<open>Localip\<close>: an interface has its flags and what \<open>Addrs\<close> returns; an address of a type other
  than the two that the switch knows leaves the variable nil.
\<close>

record net_interface =
  FlagUp :: bool
  FlagLoopback :: bool
  Addrs :: "string + ip option list"

definition first_unicast :: "ip option list \<Rightarrow> ip option" where
  "first_unicast addrs = find IsGlobalUnicast (map (\<lambda>a. case a of Some i \<Rightarrow> i | None \<Rightarrow> []) addrs)"

fun localip_loop :: "net_interface list \<Rightarrow> string + ip" where
  "localip_loop [] = Inl ''valid IP address not found for all network interfaces''"
| "localip_loop (nif # nifs) =
     (case Addrs nif of
        Inl err \<Rightarrow> Inl err
      | Inr addrs \<Rightarrow>
          if \<not> FlagUp nif \<or> FlagLoopback nif then localip_loop nifs
          else (case first_unicast addrs of
                  Some i \<Rightarrow> Inr i
                | None \<Rightarrow> localip_loop nifs))"

definition Localip :: "string + net_interface list \<Rightarrow> string + ip" where
  "Localip Interfaces = (case Interfaces of Inl err \<Rightarrow> Inl err | Inr nifs \<Rightarrow> localip_loop nifs)"

section \<open>State\<close>

record lease =
  nic :: string
  expiry :: int

record dhcp_ctx =
  bindIP :: "ip option"
  routerIP :: ip
  dnsIP :: ip
  subnetMask :: ip
  startIP :: ip
  numLeaseMax :: int
  leaseDuration_ctx :: duration
  domainName :: "nat list"

record handler =
  h_ip :: "ip option"
  options :: "(nat \<times> nat list) list"
  start :: ip
  leaseRange :: int
  leaseDuration :: duration
  leases :: "int \<Rightarrow> lease option"

datatype dhcp_error =
    LocalipError string
  | errFailParseStartIP
  | errFailParseDefaultGatewayIP
  | errFailParseDNSIP
  | errFailParseNetmaskIP
  | errNegativeLeaseSec
  | errInvalidDomainName
  | IntnPanic

abbreviation OptionSubnetMask :: nat where "OptionSubnetMask \<equiv> 1"
abbreviation OptionRouter :: nat where "OptionRouter \<equiv> 3"
abbreviation OptionDomainNameServer :: nat where "OptionDomainNameServer \<equiv> 6"
abbreviation OptionDomainName :: nat where "OptionDomainName \<equiv> 15"

section \<open>Construction\<close>

text \<open>The bytes of a rune in a Go string, which is UTF-8.\<close>

definition utf8 :: "nat \<Rightarrow> nat list" where
  "utf8 r =
     (if r < 128 then [r]
      else if r < 2048 then [192 + r div 64, 128 + r mod 64]
      else if r < 65536 then [224 + r div 4096, 128 + r div 64 mod 64, 128 + r mod 64]
      else [240 + r div 262144, 128 + r div 4096 mod 64, 128 + r div 64 mod 64, 128 + r mod 64])"

definition newDHCPv4Handler :: "dhcp_ctx \<Rightarrow> handler" where
  "newDHCPv4Handler io =
     \<lparr>h_ip = bindIP io,
      options = [(OptionSubnetMask, map unat (subnetMask io)), (OptionRouter, map unat (routerIP io)),
                 (OptionDomainNameServer, map unat (dnsIP io)), (OptionDomainName, concat (map utf8 (domainName io)))],
      start = startIP io, leaseRange = numLeaseMax io, leaseDuration = leaseDuration_ctx io,
      leases = (\<lambda>_. None)\<rparr>"

definition TrimFunc :: "('r \<Rightarrow> bool) \<Rightarrow> 'r list \<Rightarrow> 'r list" where
  "TrimFunc f s = rev (dropWhile f (rev (dropWhile f s)))"

text \<open>
  \<open>New\<close>: \<open>parse4\<close> is \<open>net.ParseIP\<close> followed by \<open>To4\<close>, \<open>IsLetter_or_IsNumber\<close> the union of the
  two classes of package \<open>unicode\<close>; a domain name is the list of its runes.
\<close>

definition New ::
  "(string \<Rightarrow> ip option) \<Rightarrow> (nat \<Rightarrow> bool) \<Rightarrow> string + ip \<Rightarrow> string \<Rightarrow> string \<Rightarrow> string \<Rightarrow> string
   \<Rightarrow> int \<Rightarrow> int \<Rightarrow> nat list \<Rightarrow> dhcp_error + handler" where
  "New parse4 IsLetter_or_IsNumber localip start_str router netmask dns max_leases leaseSec domain =
     (case localip of
        Inl err \<Rightarrow> Inl (LocalipError err)
      | Inr l \<Rightarrow>
      (case parse4 start_str of None \<Rightarrow> Inl errFailParseStartIP | Some si \<Rightarrow>
      (case parse4 router of None \<Rightarrow> Inl errFailParseDefaultGatewayIP | Some r \<Rightarrow>
      (case parse4 dns of None \<Rightarrow> Inl errFailParseDNSIP | Some d \<Rightarrow>
      (case parse4 netmask of None \<Rightarrow> Inl errFailParseNetmaskIP | Some sm \<Rightarrow>
       if leaseSec \<le> 0 then Inl errNegativeLeaseSec
       else let ld = leaseSec * Second;
                dn = TrimFunc (\<lambda>r. \<not> IsLetter_or_IsNumber r) domain
            in if length dn = 0 then Inl errInvalidDomainName
               else Inr (newDHCPv4Handler
                 \<lparr>bindIP = To4 l, routerIP = r, dnsIP = d, subnetMask = sm, startIP = si,
                  numLeaseMax = max_leases, leaseDuration_ctx = ld, domainName = dn\<rparr>))))))"

section \<open>Messages\<close>

datatype message_type = Discover | Offer | Request | Decline | ACK | NAK | Release | Inform

record packet =
  CIAddr :: ip
  CHAddr :: string

record request_options =
  OptionRequestedIPAddress :: "ip option"
  OptionServerIdentifier :: "ip option"
  OptionParameterRequestList :: "byte list option"

record dhcp_lib =
  IPAdd :: "ip \<Rightarrow> int \<Rightarrow> ip"
  IPRange :: "ip \<Rightarrow> ip \<Rightarrow> int"
  SelectOrderOrAll :: "byte list option \<Rightarrow> (nat \<times> nat list) list \<Rightarrow> (nat \<times> nat list) list"

datatype dhcp_reply = Reply message_type "ip option" "ip option" duration "(nat \<times> nat list) list"

text \<open>
  \<open>freeLease\<close>: \<open>rand.Intn\<close> panics on a range that is not positive and otherwise returns some
  \<open>b\<close> in it, an argument here; the two loops scan from \<open>b\<close> to the end and from 0 to \<open>b\<close>.
\<close>

definition lease_free :: "int \<Rightarrow> (int \<Rightarrow> lease option) \<Rightarrow> int \<Rightarrow> bool" where
  "lease_free now ls i = (case ls i of None \<Rightarrow> True | Some l \<Rightarrow> expiry l < now)"

definition freeLease :: "int \<Rightarrow> int \<Rightarrow> handler \<Rightarrow> dhcp_error + int" where
  "freeLease now b h =
     (if leaseRange h \<le> 0 then Inl IntnPanic
      else Inr (case find (lease_free now (leases h)) ([b..leaseRange h - 1] @ [0..b - 1]) of
                  Some i \<Rightarrow> i
                | None \<Rightarrow> - 1))"

text \<open>The lease of a client, if the iteration over the table finds one.\<close>

definition find_nic :: "int list \<Rightarrow> string \<Rightarrow> (int \<Rightarrow> lease option) \<Rightarrow> int option" where
  "find_nic order n ls = find (\<lambda>i. case ls i of Some l \<Rightarrow> nic l = n | None \<Rightarrow> False) order"

record serve_env =
  now_free :: int
  now_ack :: int
  rand_Intn :: int
  order :: "int list"

definition requested_ip :: "packet \<Rightarrow> request_options \<Rightarrow> ip" where
  "requested_ip p opts = (case OptionRequestedIPAddress opts of Some i \<Rightarrow> i | None \<Rightarrow> CIAddr p)"

text \<open>The cases of \<open>ServeDHCP\<close>: an offer, an acknowledgement or a refusal, a release.\<close>

definition serve_discover ::
  "dhcp_lib \<Rightarrow> serve_env \<Rightarrow> packet \<Rightarrow> request_options \<Rightarrow> handler \<Rightarrow> dhcp_error + dhcp_reply option" where
  "serve_discover lib env p opts h =
     (case (case find_nic (order env) (CHAddr p) (leases h) of
              Some i \<Rightarrow> Inr i
            | None \<Rightarrow> freeLease (now_free env) (rand_Intn env) h) of
        Inl e \<Rightarrow> Inl e
      | Inr free \<Rightarrow>
          if free = - 1 then Inr None
          else Inr (Some (Reply Offer (h_ip h) (Some (IPAdd lib (start h) free)) (leaseDuration h)
                 (SelectOrderOrAll lib (OptionParameterRequestList opts) (options h)))))"

definition for_other_server :: "request_options \<Rightarrow> handler \<Rightarrow> bool" where
  "for_other_server opts h =
     (case OptionServerIdentifier opts of
        Some server \<Rightarrow> \<not> ip_Equal server (case h_ip h of Some i \<Rightarrow> i | None \<Rightarrow> [])
      | None \<Rightarrow> False)"

definition grants :: "dhcp_lib \<Rightarrow> packet \<Rightarrow> ip \<Rightarrow> handler \<Rightarrow> bool" where
  "grants lib p reqIP h =
     (let leaseNum = IPRange lib (start h) reqIP - 1
      in length reqIP = 4 \<and> \<not> ip_Equal reqIP IPv4zero \<and> leaseNum \<ge> 0 \<and> leaseNum < leaseRange h \<and>
         (case leases h leaseNum of None \<Rightarrow> True | Some l \<Rightarrow> nic l = CHAddr p))"

definition serve_request ::
  "dhcp_lib \<Rightarrow> serve_env \<Rightarrow> packet \<Rightarrow> request_options \<Rightarrow> handler \<Rightarrow> dhcp_reply option \<times> handler" where
  "serve_request lib env p opts h =
     (let reqIP = requested_ip p opts;
          leaseNum = IPRange lib (start h) reqIP - 1
      in if for_other_server opts h then (None, h)
         else if grants lib p reqIP h
         then (Some (Reply ACK (h_ip h) (Some reqIP) (leaseDuration h)
                 (SelectOrderOrAll lib (OptionParameterRequestList opts) (options h))),
               h\<lparr>leases := (leases h)(leaseNum \<mapsto>
                    \<lparr>nic = CHAddr p, expiry = now_ack env + leaseDuration h\<rparr>)\<rparr>)
         else (Some (Reply NAK (h_ip h) None 0 []), h))"

definition serve_release :: "serve_env \<Rightarrow> packet \<Rightarrow> handler \<Rightarrow> handler" where
  "serve_release env p h =
     (case find_nic (order env) (CHAddr p) (leases h) of
        Some i \<Rightarrow> h\<lparr>leases := (leases h)(i := None)\<rparr>
      | None \<Rightarrow> h)"

definition ServeDHCP ::
  "dhcp_lib \<Rightarrow> serve_env \<Rightarrow> packet \<Rightarrow> message_type \<Rightarrow> request_options \<Rightarrow> handler
   \<Rightarrow> (dhcp_error + dhcp_reply option) \<times> handler" where
  "ServeDHCP lib env p msgType opts h =
     (case msgType of
        Discover \<Rightarrow> (serve_discover lib env p opts h, h)
      | Request \<Rightarrow> (case serve_request lib env p opts h of (r, h) \<Rightarrow> (Inr r, h))
      | Release \<Rightarrow> (Inr None, serve_release env p h)
      | Decline \<Rightarrow> (Inr None, serve_release env p h)
      | _ \<Rightarrow> (Inr None, h))"

section \<open>Lemmas\<close>

lemma find_nic_Some: "find_nic ord n ls = Some i \<Longrightarrow> \<exists>l. ls i = Some l \<and> nic l = n"
  by (auto simp: find_nic_def find_Some_iff split: option.splits)

lemma freeLease_result:
  assumes "freeLease now b h = Inr r" and "0 \<le> b" and "b < leaseRange h"
  shows "if r = - 1 then \<forall>i. 0 \<le> i \<and> i < leaseRange h \<longrightarrow> \<not> lease_free now (leases h) i
    else 0 \<le> r \<and> r < leaseRange h \<and> lease_free now (leases h) r"
proof (cases "find (lease_free now (leases h)) ([b..leaseRange h - 1] @ [0..b - 1])")
  case None
  then have "\<not> lease_free now (leases h) i" if "0 \<le> i" "i < leaseRange h" for i
    using that by (cases "i < b") (auto simp: find_None_iff)
  with None assms show ?thesis
    by (simp add: freeLease_def)
next
  case (Some i)
  then have "i \<in> set ([b..leaseRange h - 1] @ [0..b - 1])" "lease_free now (leases h) i"
    by (metis find_Some_iff nth_mem)+
  with Some assms show ?thesis
    by (auto simp: freeLease_def)
qed

section \<open>The table of leases as a machine\<close>

text \<open>
  What a message of client \<open>c\<close> may do to the table: nothing; give the client an address that
  is not leased or is its own already; and, for a release, drop one of its leases.
\<close>

inductive table_step :: "int \<Rightarrow> string \<Rightarrow> bool \<Rightarrow> (int \<Rightarrow> lease option) \<Rightarrow> (int \<Rightarrow> lease option) \<Rightarrow> bool"
  for range :: int and c :: string
where
  keep: "table_step range c releases t t"
| grant: "0 \<le> n \<Longrightarrow> n < range \<Longrightarrow> nic l = c \<Longrightarrow> (\<And>l'. t n = Some l' \<Longrightarrow> nic l' = c) \<Longrightarrow>
     table_step range c releases t (t(n \<mapsto> l))"
| drop_lease: "t n = Some l \<Longrightarrow> nic l = c \<Longrightarrow> table_step range c True t (t(n := None))"

inductive_cases table_stepE: "table_step r c releases t t'"

lemma ServeDHCP_table_step:
  "table_step (leaseRange h) (CHAddr p) (mt = Release \<or> mt = Decline)
     (leases h) (leases (snd (ServeDHCP lib env p mt opts h)))"
proof -
  have request: "table_step (leaseRange h) (CHAddr p) releases
      (leases h) (leases (snd (serve_request lib env p opts h)))" for releases
  proof (cases "for_other_server opts h \<or> \<not> grants lib p (requested_ip p opts) h")
    case False
    then show ?thesis
      unfolding serve_request_def Let_def
      by (simp, intro table_step.grant) (auto simp: grants_def Let_def split: option.splits)
  qed (auto simp: serve_request_def Let_def intro: table_step.keep)
  have release: "table_step (leaseRange h) (CHAddr p) True (leases h) (leases (serve_release env p h))"
    by (auto simp: serve_release_def intro: table_step.keep table_step.drop_lease
        dest!: find_nic_Some split: option.split)
  show ?thesis
    by (cases mt) (auto simp: ServeDHCP_def case_prod_unfold request release intro: table_step.keep)
qed

lemma ServeDHCP_range [simp]: "leaseRange (snd (ServeDHCP lib env p mt opts h)) = leaseRange h"
  by (auto simp: ServeDHCP_def serve_request_def serve_release_def Let_def split: message_type.splits
      option.splits)

text \<open>A run of the server on a sequence of messages.\<close>

record message =
  m_env :: serve_env
  m_packet :: packet
  m_type :: message_type
  m_opts :: request_options

definition serve_step :: "dhcp_lib \<Rightarrow> handler \<Rightarrow> handler \<Rightarrow> bool" where
  "serve_step lib h h' \<longleftrightarrow>
     (\<exists>m :: message. h' = snd (ServeDHCP lib (m_env m) (m_packet m) (m_type m) (m_opts m) h))"

definition serve_all :: "dhcp_lib \<Rightarrow> message list \<Rightarrow> handler \<Rightarrow> handler" where
  "serve_all lib = fold (\<lambda>m h. snd (ServeDHCP lib (m_env m) (m_packet m) (m_type m) (m_opts m) h))"

lemma serve_all_simps [simp]:
  "serve_all lib [] h = h"
  "serve_all lib (m # ms) h =
     serve_all lib ms (snd (ServeDHCP lib (m_env m) (m_packet m) (m_type m) (m_opts m) h))"
  by (simp_all add: serve_all_def)

lemma serve_all_range [simp]: "leaseRange (serve_all lib ms h) = leaseRange h"
  by (induction ms arbitrary: h) simp_all

text \<open>Leases stay inside the range that the server distributes.\<close>

definition table_inv :: "handler \<Rightarrow> bool" where
  "table_inv h \<longleftrightarrow> (\<forall>i. leases h i \<noteq> None \<longrightarrow> 0 \<le> i \<and> i < leaseRange h)"

interpretation dhcp: inductive_invariant "\<lambda>h. \<exists>io. h = newDHCPv4Handler io" "serve_step lib" table_inv
proof (unfold_locales, goal_cases)
  case (1 h)
  then show ?case
    by (auto simp: newDHCPv4Handler_def table_inv_def)
next
  case (2 h h')
  then obtain m :: message where h': "h' = snd (ServeDHCP lib (m_env m) (m_packet m) (m_type m) (m_opts m) h)"
    unfolding serve_step_def by blast
  with ServeDHCP_table_step [of h "m_packet m" "m_type m" lib "m_env m" "m_opts m"] 2(2) show ?case
    by (auto simp: table_inv_def split: if_splits elim!: table_stepE)
qed

text \<open>A lease outlives every message but a release of its owner.\<close>

definition owned :: "string \<Rightarrow> int \<Rightarrow> handler \<Rightarrow> bool" where
  "owned c i h = (case leases h i of Some l \<Rightarrow> nic l = c | None \<Rightarrow> False)"

definition releases_of :: "string \<Rightarrow> message \<Rightarrow> bool" where
  "releases_of c m \<longleftrightarrow> CHAddr (m_packet m) = c \<and> (m_type m = Release \<or> m_type m = Decline)"

lemma table_step_owned:
  assumes "table_step r c' rel t t'" and "t i = Some l" and "nic l = c" and "\<not> (c' = c \<and> rel)"
  shows "\<exists>l'. t' i = Some l' \<and> nic l' = c"
  using assms(1)
proof (cases rule: table_step.cases)
  case (grant n l')
  with assms(2,3) show ?thesis
    by (cases "n = i") auto
next
  case (drop_lease n l')
  with assms(2-4) show ?thesis
    by (cases "n = i") auto
qed (use assms in auto)

lemma serve_all_owned:
  "owned c i h \<Longrightarrow> \<forall>m \<in> set ms. \<not> releases_of c m \<Longrightarrow> owned c i (serve_all lib ms h)"
proof (induction ms arbitrary: h)
  case (Cons m ms)
  obtain l where l: "leases h i = Some l" "nic l = c"
    using Cons.prems(1) by (auto simp: owned_def split: option.splits)
  have "owned c i (snd (ServeDHCP lib (m_env m) (m_packet m) (m_type m) (m_opts m) h))"
    using table_step_owned [OF ServeDHCP_table_step l,
        of "m_packet m" "m_type m" lib "m_env m" "m_opts m"] Cons.prems(2)
    by (auto simp: owned_def releases_of_def)
  then show ?case
    using Cons.IH Cons.prems(2) by simp
qed simp

lemma ServeDHCP_start [simp]: "start (snd (ServeDHCP lib env p mt opts h)) = start h"
  by (auto simp: ServeDHCP_def serve_request_def serve_release_def Let_def split: message_type.splits
      option.splits)

lemma serve_all_start [simp]: "start (serve_all lib ms h) = start h"
  by (induction ms arbitrary: h) simp_all

text \<open>An acknowledgement says that the address was free for the client, and leases it.\<close>

lemma Request_ACK:
  assumes "ServeDHCP lib env p Request opts h = (Inr (Some (Reply ACK sip (Some a) d os)), h')"
  shows "grants lib p a h \<and> owned (CHAddr p) (IPRange lib (start h) a - 1) h'"
  using assms
  by (auto simp: ServeDHCP_def serve_request_def Let_def owned_def split: if_splits)

lemma grants_owned: "grants lib p a h \<Longrightarrow> owned c (IPRange lib (start h) a - 1) h \<Longrightarrow> CHAddr p = c"
  by (auto simp: grants_def owned_def Let_def split: option.splits)

text \<open>The laws of the address arithmetic that the server relies on, over its range.\<close>

definition addresses_ok :: "dhcp_lib \<Rightarrow> handler \<Rightarrow> bool" where
  "addresses_ok lib h \<longleftrightarrow> (\<forall>n. 0 \<le> n \<and> n < leaseRange h \<longrightarrow>
     IPRange lib (start h) (IPAdd lib (start h) n) = n + 1 \<and>
     length (IPAdd lib (start h) n) = 4 \<and> \<not> ip_Equal (IPAdd lib (start h) n) IPv4zero)"

lemma serve_discover_Offer:
  assumes "serve_discover lib env p opts h = Inr (Some (Reply Offer sip (Some a) d os))"
    and "table_inv h" and "0 \<le> rand_Intn env" and "rand_Intn env < leaseRange h"
  obtains n where "a = IPAdd lib (start h) n" "0 \<le> n" "n < leaseRange h"
    "owned (CHAddr p) n h \<or> lease_free (now_free env) (leases h) n"
proof (cases "find_nic (order env) (CHAddr p) (leases h)")
  case None
  then obtain r where r: "freeLease (now_free env) (rand_Intn env) h = Inr r" "r \<noteq> - 1"
    "a = IPAdd lib (start h) r"
    using assms(1) by (auto simp: serve_discover_def split: sum.splits if_splits)
  with freeLease_result [OF r(1) assms(3,4)] that [of r] show thesis
    by simp
next
  case (Some i)
  then show thesis
    using assms(1,2) that [of i] find_nic_Some [OF Some]
    by (auto simp: serve_discover_def table_inv_def owned_def split: if_splits)
qed

definition request_for :: "ip \<Rightarrow> request_options" where
  "request_for a = \<lparr>OptionRequestedIPAddress = Some a, OptionServerIdentifier = None,
     OptionParameterRequestList = None\<rparr>"

lemma Request_offered:
  assumes "addresses_ok lib h" and "0 \<le> n" and "n < leaseRange h"
  shows "ServeDHCP lib env p Request (request_for (IPAdd lib (start h) n)) h =
    (if leases h n = None \<or> owned (CHAddr p) n h
     then (Inr (Some (Reply ACK (h_ip h) (Some (IPAdd lib (start h) n)) (leaseDuration h)
             (SelectOrderOrAll lib None (options h)))),
           h\<lparr>leases := (leases h)(n \<mapsto> \<lparr>nic = CHAddr p, expiry = now_ack env + leaseDuration h\<rparr>)\<rparr>)
     else (Inr (Some (Reply NAK (h_ip h) None 0 [])), h))"
  using assms
  by (auto simp: ServeDHCP_def serve_request_def Let_def request_for_def requested_ip_def
      for_other_server_def grants_def addresses_ok_def owned_def split: option.splits)

section \<open>Properties\<close>

text \<open>
  (C11) An address is never acknowledged to two clients. If a client was acknowledged an
  address and has not released or declined since, then whatever messages the server handled
  in between, in whatever order it iterates its table and whatever the clock says, the same
  address can be acknowledged only to that client.
\<close>

theorem lease_exclusive:
  assumes "ServeDHCP lib env p Request opts h = (Inr (Some (Reply ACK sip (Some a) d os)), h1)"
    and "\<forall>m \<in> set ms. \<not> releases_of (CHAddr p) m"
    and "ServeDHCP lib env' p' Request opts' (serve_all lib ms h1) =
           (Inr (Some (Reply ACK sip' (Some a) d' os')), h2)"
  shows "CHAddr p' = CHAddr p"
proof -
  have "start h1 = start h"
    using ServeDHCP_start [of lib env p Request opts h] assms(1) by simp
  moreover have "owned (CHAddr p) (IPRange lib (start h) a - 1) (serve_all lib ms h1)"
    using Request_ACK [OF assms(1)] assms(2) by (blast intro: serve_all_owned)
  ultimately show ?thesis
    using Request_ACK [OF assms(3)] grants_owned [of lib p' a "serve_all lib ms h1"] by simp
qed


text \<open>
  (C38) The offer of an expired lease is not honoured. \<open>freeLease\<close> treats an expired lease as
  free, but the request that follows compares only the owner: a client that is offered the
  address of an expired lease of another client is refused, and the table stays as it was,
  so expired addresses are never given out again.
\<close>

theorem expired_offer_refused:
  assumes "addresses_ok lib h" and "0 \<le> n" and "n < leaseRange h" and "leases h n = Some l"
    and "nic l \<noteq> CHAddr p" and "expiry l < now_free env" and "rand_Intn env = n"
    and "find_nic (order env) (CHAddr p) (leases h) = None"
  shows "(\<exists>sip d os. ServeDHCP lib env p Discover opts h =
      (Inr (Some (Reply Offer sip (Some (IPAdd lib (start h) n)) d os)), h)) \<and>
    ServeDHCP lib env' p Request (request_for (IPAdd lib (start h) n)) h =
      (Inr (Some (Reply NAK (h_ip h) None 0 [])), h)"
proof -
  have "freeLease (now_free env) n h = Inr n"
    using assms(2-4,6) by (simp add: freeLease_def lease_free_def upto.simps [of n])
  then show ?thesis
    using assms Request_offered [OF assms(1-3), of env' p]
    by (simp add: ServeDHCP_def serve_discover_def owned_def)
qed

text \<open>
  \<open>New\<close> does not check the number of addresses: with zero or a negative number, which is
  what a missing flag gives, it returns a handler, and the first discovery of any client
  panics in \<open>rand.Intn\<close>.
\<close>

theorem New_empty_range_panics:
  assumes "New parse4 letter localip s r nm dns max_leases secs dn = Inr h" and "max_leases \<le> 0"
  shows "ServeDHCP lib env p Discover opts h = (Inl IntnPanic, h)"
proof -
  have "leases h = (\<lambda>_. None)" "leaseRange h = max_leases"
    using assms(1) by (auto simp: New_def newDHCPv4Handler_def Let_def split: sum.splits option.splits if_splits)
  moreover from this have "find_nic ord c (leases h) = None" for ord c
    by (simp add: find_nic_def find_None_iff)
  ultimately show ?thesis
    using assms(2) by (simp add: ServeDHCP_def serve_discover_def freeLease_def)
qed

section \<open>Witnesses\<close>

text \<open>Two addresses from 10.0.0.1, and two clients.\<close>

definition sample_dhcp :: dhcp_lib where
  "sample_dhcp = \<lparr>IPAdd = (\<lambda>_ n. [10, 0, 0, of_int (n + 1)]), IPRange = (\<lambda>_ a. uint (a ! 3)),
     SelectOrderOrAll = (\<lambda>_ os. os)\<rparr>"

definition sample_ctx :: dhcp_ctx where
  "sample_ctx = \<lparr>bindIP = Some [10, 0, 0, 9], routerIP = [10, 0, 0, 9], dnsIP = [10, 0, 0, 9],
     subnetMask = [255, 255, 255, 0], startIP = [10, 0, 0, 1], numLeaseMax = 2,
     leaseDuration_ctx = 10, domainName = [97]\<rparr>"

definition sample_handler :: handler where
  "sample_handler = newDHCPv4Handler sample_ctx"

definition client :: "string \<Rightarrow> packet" where
  "client c = \<lparr>CIAddr = [0, 0, 0, 0], CHAddr = c\<rparr>"

definition env_at :: "int \<Rightarrow> serve_env" where
  "env_at t = \<lparr>now_free = t, now_ack = t, rand_Intn = 0, order = []\<rparr>"

lemma sample_addresses:
  assumes "leaseRange h = 2"
  shows "addresses_ok sample_dhcp h"
  unfolding addresses_ok_def
proof (intro allI impI)
  fix n
  assume "0 \<le> n \<and> n < leaseRange h"
  then have "n = 0 \<or> n = 1"
    using assms by auto
  then show "IPRange sample_dhcp (start h) (IPAdd sample_dhcp (start h) n) = n + 1 \<and>
      length (IPAdd sample_dhcp (start h) n) = 4 \<and> \<not> ip_Equal (IPAdd sample_dhcp (start h) n) IPv4zero"
    by (auto simp: sample_dhcp_def ip_Equal_def v4InV6Prefix_def)
qed

lemmas sample_handler_defs = sample_handler_def sample_ctx_def newDHCPv4Handler_def client_def env_at_def

lemma sample_range: "leaseRange sample_handler = 2"
  by (simp add: sample_handler_defs)

lemma sample_ack:
  "\<exists>h1 os. ServeDHCP sample_dhcp (env_at 0) (client ''A'') Request (request_for [10, 0, 0, 1]) sample_handler =
     (Inr (Some (Reply ACK (Some [10, 0, 0, 9]) (Some [10, 0, 0, 1]) 10 os)), h1)"
  using Request_offered [OF sample_addresses [OF sample_range], of 0 "env_at 0" "client ''A''"]
  by (simp add: sample_dhcp_def sample_handler_defs)

theorem lease_exclusive_witness:
  "\<exists>h1. (\<exists>os. ServeDHCP sample_dhcp (env_at 0) (client ''A'') Request (request_for [10, 0, 0, 1]) sample_handler =
       (Inr (Some (Reply ACK (Some [10, 0, 0, 9]) (Some [10, 0, 0, 1]) 10 os)), h1)) \<and>
     (\<forall>sip d os h2. ServeDHCP sample_dhcp (env_at 99) (client ''B'') Request (request_for [10, 0, 0, 1]) h1 \<noteq>
       (Inr (Some (Reply ACK sip (Some [10, 0, 0, 1]) d os)), h2))"
proof -
  obtain h1 os where ack: "ServeDHCP sample_dhcp (env_at 0) (client ''A'') Request
      (request_for [10, 0, 0, 1]) sample_handler =
      (Inr (Some (Reply ACK (Some [10, 0, 0, 9]) (Some [10, 0, 0, 1]) 10 os)), h1)"
    using sample_ack by blast
  then show ?thesis
    using lease_exclusive [OF ack, where ms = "[]" and p' = "client ''B''"]
    by (intro exI [of _ h1]) (auto simp: client_def)
qed


theorem expired_offer_refused_witness:
  "ServeDHCP sample_dhcp (env_at 50) (client ''B'') Request (request_for [10, 0, 0, 1])
     (sample_handler\<lparr>leases := [0 \<mapsto> \<lparr>nic = ''A'', expiry = 10\<rparr>]\<rparr>) =
   (Inr (Some (Reply NAK (Some [10, 0, 0, 9]) None 0 [])), sample_handler\<lparr>leases := [0 \<mapsto> \<lparr>nic = ''A'', expiry = 10\<rparr>]\<rparr>)"
  using expired_offer_refused [OF sample_addresses, of "sample_handler\<lparr>leases := [0 \<mapsto> \<lparr>nic = ''A'', expiry = 10\<rparr>]\<rparr>"
      0 "\<lparr>nic = ''A'', expiry = 10\<rparr>" "client ''B''" "env_at 50" "request_for []" "env_at 50"]
  by (simp add: sample_handler_defs find_nic_def) (simp add: sample_dhcp_def)

theorem New_empty_range_panics_witness:
  "\<exists>h. New (\<lambda>_. Some [10, 0, 0, 1]) (\<lambda>_. True) (Inr [10, 0, 0, 9]) [] [] [] [] 0 7200 [97] = Inr h \<and>
     ServeDHCP sample_dhcp (env_at 0) (client ''A'') Discover (request_for []) h = (Inl IntnPanic, h)"
proof -
  obtain h where h: "New (\<lambda>_. Some [10, 0, 0, 1]) (\<lambda>_. True) (Inr [10, 0, 0, 9]) [] [] [] [] 0 7200 [97] = Inr h"
    by (simp add: New_def TrimFunc_def)
  then show ?thesis
    using New_empty_range_panics [OF h] by blast
qed

end
