(* ===== verification/Dhcp_Cli.thy ===== *)
theory Dhcp_Cli
  imports Dhcp_Handler
begin

text \<open>
  The command line of opendhcpd (\<open>src/opendhcpd/opendhcpd.go\<close>): the two commands, the one that
  runs the server in the foreground and the one that starts it again as a daemon.

  Finding the command and reading its flags is \<open>urfave/cli\<close>, starting the second process is
  \<open>go-daemon\<close>; both are arguments. Output to the log is left out.
\<close>

section \<open>Commands\<close>

datatype cli_action = RunServer | Background

record cli_command =
  cmd_Name :: string
  cmd_Aliases :: "string list"
  cmd_Flags :: "(string \<times> string) list"
  cmd_Action :: cli_action

text \<open>The flags by their long and short names.\<close>

definition cliFlags :: "(string \<times> string) list" where
  "cliFlags = [(''dhcp_start'', ''s''), (''dhcp_range'', ''r''), (''default_gw'', ''g''), (''dns_resolver'', ''d''),
     (''subnet_mask'', ''m''), (''lease_duration_sec'', ''l''), (''domain_name'', ''n'')]"

definition app_Commands :: "cli_command list" where
  "app_Commands =
     [\<lparr>cmd_Name = ''run-server'', cmd_Aliases = [''rs''], cmd_Flags = cliFlags, cmd_Action = RunServer\<rparr>,
      \<lparr>cmd_Name = ''background'', cmd_Aliases = [''bg''], cmd_Flags = cliFlags, cmd_Action = Background\<rparr>]"

text \<open>
  What the library does with the arguments of the process: it reports an error, shows help,
  or calls the action of a command with a context.
\<close>

datatype 'x cli_run = RunError string | ShowHelp | RunAction cli_action 'x

record 'x cli_lib =
  App_Run :: "cli_command list \<Rightarrow> string list \<Rightarrow> 'x cli_run"
  c_String :: "'x \<Rightarrow> string \<Rightarrow> string"
  c_Int :: "'x \<Rightarrow> string \<Rightarrow> int"

text \<open>What the process finds around it: the network, the listening server, the second process.\<close>

record cli_env =
  cli_Localip :: "string + ip"
  cli_parse4 :: "string \<Rightarrow> ip option"
  cli_letter :: "nat \<Rightarrow> bool"
  cli_runes :: "string \<Rightarrow> nat list"
  dhcp_ListenAndServe :: "handler \<Rightarrow> string"
  daemon_Reborn :: "string list \<Rightarrow> string + nat option"

section \<open>Actions\<close>

definition cli_New :: "'x cli_lib \<Rightarrow> cli_env \<Rightarrow> 'x \<Rightarrow> dhcp_error + handler" where
  "cli_New lib env c =
     New (cli_parse4 env) (cli_letter env) (cli_Localip env) (c_String lib c ''dhcp_start'') (c_String lib c ''default_gw'')
       (c_String lib c ''subnet_mask'') (c_String lib c ''dns_resolver'') (c_Int lib c ''dhcp_range'')
       (c_Int lib c ''lease_duration_sec'') (cli_runes env (c_String lib c ''domain_name''))"

text \<open>How a run ends: a fatal error of the configuration or of the server, or a normal return.\<close>

datatype cli_exit = FatalNew dhcp_error | FatalServe handler string | FatalMsg string | Returned "string list list"

definition Start :: "cli_env \<Rightarrow> handler \<Rightarrow> string" where
  "Start env h = dhcp_ListenAndServe env h"

definition run_server :: "'x cli_lib \<Rightarrow> cli_env \<Rightarrow> 'x \<Rightarrow> cli_exit" where
  "run_server lib env c =
     (case cli_New lib env c of
        Inl err \<Rightarrow> FatalNew err
      | Inr d \<Rightarrow> FatalServe d (Start env d))"

definition daemon_Args :: "'x cli_lib \<Rightarrow> 'x \<Rightarrow> string list" where
  "daemon_Args lib c =
     (let s = c_String lib c ''dhcp_start''; g = c_String lib c ''default_gw''; m = c_String lib c ''subnet_mask'';
          d = c_String lib c ''dns_resolver''; r = c_Int lib c ''dhcp_range''; l = c_Int lib c ''lease_duration_sec'';
          n = c_String lib c ''domain_name''
      in [''opendhcpd'', ''rs'', ''-s'', s, ''-r'', Itoa r, ''-g'', g, ''-d'', d, ''-m'', m, ''-l'', Itoa l, ''-n'', n])"

text \<open>
  \<open>Reborn\<close> returns the second process to the first one and nothing to the second. The
  result has the arguments of the processes that were started.
\<close>

definition background :: "'x cli_lib \<Rightarrow> cli_env \<Rightarrow> 'x \<Rightarrow> cli_exit" where
  "background lib env c =
     (case daemon_Reborn env (daemon_Args lib c) of
        Inl err \<Rightarrow> FatalMsg (''unable to daemonize opendhcpd: '' @ err)
      | Inr (Some reb) \<Rightarrow> Returned [daemon_Args lib c]
      | Inr None \<Rightarrow> Returned [])"

definition dhcp_main :: "'x cli_lib \<Rightarrow> cli_env \<Rightarrow> string list \<Rightarrow> cli_exit" where
  "dhcp_main lib env args =
     (case App_Run lib app_Commands args of
        RunError err \<Rightarrow> FatalMsg err
      | ShowHelp \<Rightarrow> Returned []
      | RunAction RunServer c \<Rightarrow> run_server lib env c
      | RunAction Background c \<Rightarrow> background lib env c)"

section \<open>The library\<close>

text \<open>
  The documented behaviour of the library: a command is found by an alias; each of its flags is
  given by its short name with the value in the next argument, at most once; if no value looks
  like a flag, the context then returns the value under the long name, and a decimal number
  as an integer.
\<close>

definition plain :: "string \<Rightarrow> bool" where
  "plain v \<longleftrightarrow> v = [] \<or> hd v \<noteq> CHR ''-''"

definition flag_args :: "(string \<times> string) list \<Rightarrow> string list" where
  "flag_args vs = concat (map (\<lambda>(f, v). [CHR ''-'' # f, v]) vs)"

definition cli_ok :: "'x cli_lib \<Rightarrow> bool" where
  "cli_ok lib \<longleftrightarrow>
     (\<forall>cmds cmd a prog vs. cmd \<in> set cmds \<and> a \<in> set (cmd_Aliases cmd) \<and> distinct (concat (map cmd_Aliases cmds)) \<and>
        distinct (map fst (cmd_Flags cmd)) \<and> distinct (map fst vs) \<and> fst ` set vs \<subseteq> snd ` set (cmd_Flags cmd) \<and>
        list_all plain (map snd vs) \<longrightarrow>
        (\<exists>c. App_Run lib cmds (prog # a # flag_args vs) = RunAction (cmd_Action cmd) c \<and>
           (\<forall>long short v. (long, short) \<in> set (cmd_Flags cmd) \<and> (short, v) \<in> set vs \<longrightarrow>
              c_String lib c long = v \<and> (\<forall>i. v = Itoa i \<longrightarrow> c_Int lib c long = i))))"

lemma cli_okD:
  assumes "cli_ok lib" and "cmd \<in> set cmds" and "a \<in> set (cmd_Aliases cmd)" and "distinct (concat (map cmd_Aliases cmds))"
    and "distinct (map fst (cmd_Flags cmd))" and "distinct (map fst vs)" and "fst ` set vs \<subseteq> snd ` set (cmd_Flags cmd)"
    and "list_all plain (map snd vs)"
  obtains c where "App_Run lib cmds (prog # a # flag_args vs) = RunAction (cmd_Action cmd) c"
    and "\<And>long short v. (long, short) \<in> set (cmd_Flags cmd) \<Longrightarrow> (short, v) \<in> set vs \<Longrightarrow>
      c_String lib c long = v \<and> (\<forall>i. v = Itoa i \<longrightarrow> c_Int lib c long = i)"
  using assms(1) [unfolded cli_ok_def, rule_format, of cmd cmds a vs prog] assms(2-8) by blast

text \<open>The daemon's arguments in terms of flags and values.\<close>

definition daemon_values :: "'x cli_lib \<Rightarrow> 'x \<Rightarrow> (string \<times> string) list" where
  "daemon_values lib c =
     [(''s'', c_String lib c ''dhcp_start''), (''r'', Itoa (c_Int lib c ''dhcp_range'')),
      (''g'', c_String lib c ''default_gw''), (''d'', c_String lib c ''dns_resolver''),
      (''m'', c_String lib c ''subnet_mask''), (''l'', Itoa (c_Int lib c ''lease_duration_sec'')),
      (''n'', c_String lib c ''domain_name'')]"

lemma daemon_Args_flags: "daemon_Args lib c = ''opendhcpd'' # ''rs'' # flag_args (daemon_values lib c)"
  by (simp add: daemon_Args_def flag_args_def daemon_values_def Let_def)

lemma daemon_values_set:
  "(''s'', c_String lib c ''dhcp_start'') \<in> set (daemon_values lib c)"
  "(''r'', Itoa (c_Int lib c ''dhcp_range'')) \<in> set (daemon_values lib c)"
  "(''g'', c_String lib c ''default_gw'') \<in> set (daemon_values lib c)"
  "(''d'', c_String lib c ''dns_resolver'') \<in> set (daemon_values lib c)"
  "(''m'', c_String lib c ''subnet_mask'') \<in> set (daemon_values lib c)"
  "(''l'', Itoa (c_Int lib c ''lease_duration_sec'')) \<in> set (daemon_values lib c)"
  "(''n'', c_String lib c ''domain_name'') \<in> set (daemon_values lib c)"
  unfolding daemon_values_def by (simp_all only: list.set insert_iff simp_thms)

lemma cliFlags_set:
  "(''dhcp_start'', ''s'') \<in> set cliFlags" "(''dhcp_range'', ''r'') \<in> set cliFlags" "(''default_gw'', ''g'') \<in> set cliFlags"
  "(''dns_resolver'', ''d'') \<in> set cliFlags" "(''subnet_mask'', ''m'') \<in> set cliFlags"
  "(''lease_duration_sec'', ''l'') \<in> set cliFlags" "(''domain_name'', ''n'') \<in> set cliFlags"
  unfolding cliFlags_def by (simp_all only: list.set insert_iff simp_thms)

lemma run_server_command:
  "hd app_Commands \<in> set app_Commands" "''rs'' \<in> set (cmd_Aliases (hd app_Commands))"
  "distinct (concat (map cmd_Aliases app_Commands))" "distinct (map fst (cmd_Flags (hd app_Commands)))"
  "cmd_Action (hd app_Commands) = RunServer" "cmd_Flags (hd app_Commands) = cliFlags"
  by (simp_all add: app_Commands_def cliFlags_def)

lemma daemon_values_flags:
  "distinct (map fst (daemon_values lib c))" "fst ` set (daemon_values lib c) \<subseteq> snd ` set cliFlags"
  by (simp_all add: daemon_values_def cliFlags_def)

section \<open>Properties\<close>

text \<open>
  (C23) The daemon is the server that was asked for: when the background command has started its
  process, that process runs the server command, and its server is built from exactly the same
  seven settings as a foreground run with the context of the background command; the numbers
  survive being printed and read again. No setting may look like a flag itself.
\<close>

theorem background_runs_same_server:
  assumes "cli_ok lib" and "background lib env c = Returned [args]" and "list_all plain (map snd (daemon_values lib c))"
  shows "dhcp_main lib env' args = run_server lib env' c"
proof -
  have args: "args = ''opendhcpd'' # ''rs'' # flag_args (daemon_values lib c)"
    using assms(2) unfolding daemon_Args_flags [symmetric]
    by (simp add: background_def split: sum.splits option.splits)
  obtain c' where c': "App_Run lib app_Commands args = RunAction RunServer c'"
    and vals: "\<And>long short v. (long, short) \<in> set cliFlags \<Longrightarrow> (short, v) \<in> set (daemon_values lib c) \<Longrightarrow>
      c_String lib c' long = v \<and> (\<forall>i. v = Itoa i \<longrightarrow> c_Int lib c' long = i)"
    using cli_okD [OF assms(1) run_server_command(1-4) daemon_values_flags(1) _ assms(3), of "''opendhcpd''"]
      daemon_values_flags(2) args unfolding run_server_command(5,6) by metis
  note strs = vals [OF cliFlags_set(1) daemon_values_set(1), THEN conjunct1]
    vals [OF cliFlags_set(3) daemon_values_set(3), THEN conjunct1] vals [OF cliFlags_set(4) daemon_values_set(4), THEN conjunct1]
    vals [OF cliFlags_set(5) daemon_values_set(5), THEN conjunct1] vals [OF cliFlags_set(7) daemon_values_set(7), THEN conjunct1]
  note ints = vals [OF cliFlags_set(2) daemon_values_set(2), THEN conjunct2, rule_format, OF refl]
    vals [OF cliFlags_set(6) daemon_values_set(6), THEN conjunct2, rule_format, OF refl]
  have "cli_New lib env' c' = cli_New lib env' c"
    unfolding cli_New_def strs ints ..
  then show ?thesis
    by (simp add: dhcp_main_def c' run_server_def)
qed

section \<open>Witness\<close>

text \<open>A library that behaves so: the context is the flags of the command and the values given.\<close>

fun flag_pairs :: "string list \<Rightarrow> (string \<times> string) list" where
  "flag_pairs (f # v # r) = (tl f, v) # flag_pairs r"
| "flag_pairs _ = []"

definition demo_get :: "(string \<times> string) list \<times> (string \<times> string) list \<Rightarrow> string \<Rightarrow> string" where
  "demo_get c long = (case Option.bind (map_of (fst c) long) (map_of (snd c)) of Some v \<Rightarrow> v | None \<Rightarrow> [])"

definition demo_cli :: "((string \<times> string) list \<times> (string \<times> string) list) cli_lib" where
  "demo_cli = \<lparr>
     App_Run = (\<lambda>cmds args. case args of
        prog # a # rest \<Rightarrow>
          (case find (\<lambda>cmd. a \<in> set (cmd_Aliases cmd)) cmds of
             Some cmd \<Rightarrow> RunAction (cmd_Action cmd) (cmd_Flags cmd, flag_pairs rest)
           | None \<Rightarrow> ShowHelp)
      | _ \<Rightarrow> ShowHelp),
     c_String = demo_get,
     c_Int = (\<lambda>c long. case Atoi (demo_get c long) of Some i \<Rightarrow> i | None \<Rightarrow> 0)\<rparr>"

lemma flag_pairs_args [simp]: "flag_pairs (flag_args vs) = vs"
  by (induction vs) (auto simp: flag_args_def)

lemma find_alias:
  "cmd \<in> set cmds \<Longrightarrow> a \<in> set (cmd_Aliases cmd) \<Longrightarrow> distinct (concat (map cmd_Aliases cmds)) \<Longrightarrow>
   find (\<lambda>cmd. a \<in> set (cmd_Aliases cmd)) cmds = Some cmd"
  by (induction cmds) auto

lemma demo_cli_ok: "cli_ok demo_cli"
  unfolding cli_ok_def demo_cli_def
  by (auto simp: find_alias demo_get_def Atoi_Itoa)

definition demo_ctx :: "(string \<times> string) list \<times> (string \<times> string) list" where
  "demo_ctx = (cliFlags, [(''s'', ''10.0.0.1''), (''r'', ''20''), (''l'', ''7200'')])"

definition demo_cli_env :: cli_env where
  "demo_cli_env = \<lparr>cli_Localip = Inr [10, 0, 0, 9], cli_parse4 = (\<lambda>_. Some [10, 0, 0, 1]), cli_letter = (\<lambda>_. True),
     cli_runes = (\<lambda>_. [97]), dhcp_ListenAndServe = (\<lambda>_. ''bind''), daemon_Reborn = (\<lambda>_. Inr (Some 1))\<rparr>"

lemma demo_plain: "list_all plain (map snd (daemon_values demo_cli demo_ctx))"
  by (simp add: plain_def daemon_values_def demo_cli_def demo_ctx_def demo_get_def cliFlags_def Itoa_def Atoi_def
      undigit_def digits.simps digit_def char_of_def)

theorem background_runs_same_server_witness:
  "dhcp_main demo_cli demo_cli_env (daemon_Args demo_cli demo_ctx) = run_server demo_cli demo_cli_env demo_ctx"
  by (rule background_runs_same_server [OF demo_cli_ok, of demo_cli_env])
    (simp_all add: background_def demo_cli_env_def demo_plain)

end
