(* ===== verification/Vanishling.thy ===== *)
theory Vanishling
  imports Go_Prelude
begin

text \<open>
  Vanishling (\<open>src/vanishling\<close>), a file server whose files expire: uploads and downloads
  (\<open>core/file_service.go\<close>), the journal of expiry times (\<open>ttl/journal.go\<close>), the cleaner
  that deletes expired files (\<open>ttl/cleaner.go\<close>) and the routes of \<open>main.go\<close>.

  The file system is a map from paths of regular files to contents, the journal file a
  string; both survive a restart. What the operating system, the clock and the network may
  answer is in environment records, one field per call that can fail; a fault after some
  bytes carries their number. The dates and durations of package \<open>time\<close> are read and written
  by the functions of \<open>vanish_lib\<close>, the keyed hash of \<open>minio/highwayhash\<close> is a function of
  the key and of all bytes written so far. Times are nanoseconds. Log output is left out.
\<close>

section \<open>Configuration and paths\<close>

definition DefaultStoragePath :: string where "DefaultStoragePath = ''/tmp/vanishling/uploads''"
definition DefaultLogPath :: string where "DefaultLogPath = ''/tmp/vanishling/log''"
definition DefaultLogFile :: string where "DefaultLogFile = ''entries.journal''"
definition DefaultHHSeed :: string where
  "DefaultHHSeed = ''000102030405060708090A0B0C0D0E0FF0E0D0C0B0A090807060504030201000''"
definition DefaultFileTTL :: duration where "DefaultFileTTL = 5 * 60 * Second"
definition DefaultMaxJournalSize :: nat where "DefaultMaxJournalSize = 1024 * 1024 * 1024 * 1024"
definition DefaultMaxTTLHours :: int where "DefaultMaxTTLHours = 1"

text \<open>
  \<open>filepath.Clean\<close> and \<open>filepath.Join\<close> on rooted paths: empty and dot elements go, a double
  dot takes the element before it with it, and disappears at the root.
\<close>

fun clean_elements :: "string list \<Rightarrow> string list \<Rightarrow> string list" where
  "clean_elements done [] = done"
| "clean_elements done (e # es) =
     (if e = [] \<or> e = ''.'' then clean_elements done es
      else if e = ''..'' then clean_elements (butlast done) es
      else clean_elements (done @ [e]) es)"

definition Clean_rooted :: "string \<Rightarrow> string" where
  "Clean_rooted p = CHR ''/'' # join_with (CHR ''/'') (clean_elements [] (split_on (CHR ''/'') (tl p)))"

definition Join :: "string \<Rightarrow> string \<Rightarrow> string" where
  "Join dir name = (if name = [] then Clean_rooted dir else Clean_rooted (dir @ CHR ''/'' # name))"

text \<open>\<open>hex.EncodeToString\<close> and \<open>hex.DecodeString\<close>; the latter fails on an odd length too.\<close>

definition hex_digit :: "nat \<Rightarrow> char" where
  "hex_digit n = (if n < 10 then char_of (48 + n) else char_of (87 + n))"

definition EncodeToString :: "byte list \<Rightarrow> string" where
  "EncodeToString bs = concat (map (\<lambda>b. [hex_digit (unat b div 16), hex_digit (unat b mod 16)]) bs)"

definition fromHexChar :: "char \<Rightarrow> nat option" where
  "fromHexChar c =
     (let n = of_char c :: nat
      in if 48 \<le> n \<and> n \<le> 57 then Some (n - 48)
         else if 97 \<le> n \<and> n \<le> 102 then Some (n - 87)
         else if 65 \<le> n \<and> n \<le> 70 then Some (n - 55)
         else None)"

fun DecodeString :: "string \<Rightarrow> byte list option" where
  "DecodeString [] = Some []"
| "DecodeString [c] = None"
| "DecodeString (c # d # cs) =
     (case fromHexChar c of
        None \<Rightarrow> None
      | Some a \<Rightarrow>
          (case fromHexChar d of
             None \<Rightarrow> None
           | Some b \<Rightarrow>
               (case DecodeString cs of
                  None \<Rightarrow> None
                | Some bs \<Rightarrow> Some (of_nat (16 * a + b) # bs))))"

section \<open>State and environment\<close>

text \<open>The fields of \<open>fileService\<close>, \<open>uploader\<close> and \<open>VanishlingJournal\<close>, and the disk.\<close>

record vanish_state =
  files :: "string \<Rightarrow> byte list option"
  journal :: string
  storagePath :: string
  hh_key :: "byte list"
  hh :: "byte list"
  fileTTL :: duration
  peerAddr :: string
  fileName :: string

record 'f vanish_lib =
  flt :: "'f float64_ops"
  hh_New_ok :: "byte list \<Rightarrow> bool"
  hh_Sum :: "byte list \<Rightarrow> byte list \<Rightarrow> byte list"
  UnixDate_Format :: "int \<Rightarrow> string"
  UnixDate_Parse :: "string \<Rightarrow> string + int"
  ParseDuration :: "string \<Rightarrow> string + duration"
  Duration_String :: "duration \<Rightarrow> string"

record vanish_request =
  Method :: string
  X_Real_IP :: string
  RemoteAddr :: string
  form_err :: bool
  form_file :: "(string \<times> int \<times> byte list) option"
  x_ttl :: string
  x_file_id :: string

record vanish_response =
  Status :: nat
  file_id :: "string option"
  Body :: "byte list"

record upload_env =
  Blocks :: uint64
  Bfree :: uint64
  Bsize :: uint64
  ns_uuid :: string
  dir_err :: bool
  mixer :: "byte list"
  copy_err :: "nat option"
  open_err :: bool
  read_err :: bool
  write_err :: "nat option"
  jrnl_open_err :: bool
  jrnl_write_err :: "nat option"
  jrnl_now :: int

record new_env =
  mkdir_log_err :: bool
  mkdir_storage_err :: bool
  stat_journal_err :: bool
  mkdir_again_err :: bool

record clean_env =
  cl_open_err :: bool
  cl_read_err :: bool
  cl_now :: "nat \<Rightarrow> int"
  cl_remove_err :: "string \<Rightarrow> bool"
  cl_close_err :: bool
  cl_stat_err :: bool
  cl_truncate_err :: bool

abbreviation StatusOK :: nat where "StatusOK \<equiv> 200"
abbreviation StatusBadRequest :: nat where "StatusBadRequest \<equiv> 400"
abbreviation StatusInternalServerError :: nat where "StatusInternalServerError \<equiv> 500"

abbreviation answer :: "nat \<Rightarrow> vanish_response" where
  "answer st \<equiv> \<lparr>Status = st, file_id = None, Body = []\<rparr>"

section \<open>The journal\<close>

definition NewJournaler :: "new_env \<Rightarrow> string + string" where
  "NewJournaler env =
     (if mkdir_log_err env then Inl ''mkdir log''
      else if mkdir_storage_err env then Inl ''mkdir storage''
      else let lsfPath = Join DefaultLogPath DefaultLogFile
           in if stat_journal_err env \<and> mkdir_again_err env then Inl ''mkdir log''
              else Inr lsfPath)"

definition SetFileTTL :: "duration \<Rightarrow> vanish_state \<Rightarrow> vanish_state" where
  "SetFileTTL t s = s\<lparr>fileTTL := t\<rparr>"

definition GetFileTTL :: "vanish_state \<Rightarrow> duration" where
  "GetFileTTL s = fileTTL s"

text \<open>\<open>CommitJournal\<close>: one line with the expiry date, the time to live and the path.\<close>

definition journal_line :: "'f vanish_lib \<Rightarrow> int \<Rightarrow> duration \<Rightarrow> string \<Rightarrow> string" where
  "journal_line lib expiry t f =
     UnixDate_Format lib expiry @ CHR '','' # Duration_String lib t @ CHR '','' # f @ [CHR 0x0A]"

definition CommitJournal ::
  "'f vanish_lib \<Rightarrow> upload_env \<Rightarrow> duration \<Rightarrow> string \<Rightarrow> string \<Rightarrow> vanish_state \<Rightarrow> bool \<times> vanish_state" where
  "CommitJournal lib env t storageDir upFile s =
     (if jrnl_open_err env then (False, s)
      else let f = Join storageDir upFile
           in if length f = 0 then (False, s)
              else let line = journal_line lib (jrnl_now env + t) t f
                   in (case jrnl_write_err env of
                         Some k \<Rightarrow> (False, s\<lparr>journal := journal s @ take k line\<rparr>)
                       | None \<Rightarrow> (True, s\<lparr>journal := journal s @ line\<rparr>)))"

section \<open>Uploads and downloads\<close>

text \<open>\<open>IsDiskFull\<close> on the fields that \<open>Statfs\<close> fills; the products and the difference wrap.\<close>

definition IsDiskFull :: "'f float64_ops \<Rightarrow> upload_env \<Rightarrow> bool" where
  "IsDiskFull fl env =
     (let all = Blocks env * Bsize env;
          free = Bfree env * Bsize env;
          used = all - free;
          percentageUtilized = f_mul fl (f_div fl (f_of_int fl (uint used)) (f_of_int fl (uint all))) (f_of_int fl 100)
      in f_less fl (f_of_int fl 90) percentageUtilized)"

definition setFileName :: "string \<Rightarrow> int \<Rightarrow> vanish_state \<Rightarrow> vanish_state option" where
  "setFileName fn fs s =
     (if length fn = 0 then None
      else if Contains fn ''..'' \<or> Contains fn ''/'' then None
      else if fs = 0 then None
      else Some (s\<lparr>fileName := fn\<rparr>))"

text \<open>\<open>ensureDirWritable\<close> creates a file with a fresh name and removes it again.\<close>

definition ensureDirWritable :: "upload_env \<Rightarrow> vanish_state \<Rightarrow> bool \<times> vanish_state" where
  "ensureDirWritable env s =
     (let p = Join (storagePath s) (ns_uuid env)
      in if dir_err env \<or> files s p \<noteq> None then (False, s)
         else let s = s\<lparr>files := (files s)(p \<mapsto> [])\<rparr>
              in (True, s\<lparr>files := (files s)(p := None)\<rparr>))"

text \<open>
  \<open>hashFile\<close>: the hash takes the mixer and the content and is never reset; the file is
  created only if it does not exist. The result is the file name, or \<open>None\<close> for an error;
  a write of no bytes without an error gives an empty name.
\<close>

definition hashFile ::
  "'f vanish_lib \<Rightarrow> upload_env \<Rightarrow> byte list \<Rightarrow> vanish_state \<Rightarrow> string option \<times> vanish_state" where
  "hashFile lib env content s =
     (case ensureDirWritable env s of
        (False, s) \<Rightarrow> (None, s)
      | (True, s) \<Rightarrow>
          let s = s\<lparr>hh := hh s @ mixer env\<rparr>
          in (case copy_err env of
                Some k \<Rightarrow> (None, s\<lparr>hh := hh s @ take k content\<rparr>)
              | None \<Rightarrow>
                  let s = s\<lparr>hh := hh s @ content\<rparr>;
                      checksum = EncodeToString (hh_Sum lib (hh_key s) (hh s));
                      p = Join (storagePath s) checksum
                  in if open_err env \<or> files s p \<noteq> None then (None, s)
                     else let s = s\<lparr>files := (files s)(p \<mapsto> [])\<rparr>
                          in if read_err env then (None, s)
                             else (case write_err env of
                                     Some k \<Rightarrow> (None, s\<lparr>files := (files s)(p \<mapsto> take k content)\<rparr>)
                                   | None \<Rightarrow>
                                       (Some (if length content \<le> 0 then [] else checksum),
                                        s\<lparr>files := (files s)(p \<mapsto> content)\<rparr>))))"

text \<open>
  The time to live of an upload. \<open>t.Hours() > 1\<close> compares floats; the quotient by an hour is
  above 1 exactly when the duration is longer than an hour.
\<close>

definition upload_ttl :: "'f vanish_lib \<Rightarrow> string \<Rightarrow> duration" where
  "upload_ttl lib header =
     (if length header \<noteq> 0
      then (case ParseDuration lib header of
              Inl _ \<Rightarrow> DefaultFileTTL
            | Inr t \<Rightarrow> if t > DefaultMaxTTLHours * (3600 * Second) then DefaultFileTTL else t)
      else DefaultFileTTL)"

definition set_peer :: "vanish_request \<Rightarrow> vanish_state \<Rightarrow> vanish_state" where
  "set_peer r s =
     (let s = s\<lparr>peerAddr := X_Real_IP r\<rparr>
      in if length (peerAddr s) = 0 then s\<lparr>peerAddr := RemoteAddr r\<rparr> else s)"

text \<open>
  \<open>upload\<close> in two parts, because other requests can run between them: up to the call of
  \<open>SetFileTTL\<close>, with the file name to commit, and the commit to the journal.
\<close>

definition upload_store ::
  "'f vanish_lib \<Rightarrow> upload_env \<Rightarrow> vanish_request \<Rightarrow> vanish_state
   \<Rightarrow> vanish_response \<times> string option \<times> vanish_state" where
  "upload_store lib env r s =
     (if IsDiskFull (flt lib) env then (answer StatusInternalServerError, None, s)
      else let s = set_peer r s
           in if form_err r then (answer StatusBadRequest, None, s)
              else (case form_file r of
                      None \<Rightarrow> (answer StatusBadRequest, None, s)
                    | Some (name, sz, content) \<Rightarrow>
                        (case setFileName name sz s of
                           None \<Rightarrow> (answer StatusBadRequest, None, s)
                         | Some s \<Rightarrow>
                             (case hashFile lib env content s of
                                (None, s) \<Rightarrow> (answer StatusBadRequest, None, s)
                              | (Some hashedFileName, s) \<Rightarrow>
                                  (\<lparr>Status = StatusOK, file_id = Some hashedFileName, Body = []\<rparr>,
                                   Some hashedFileName, SetFileTTL (upload_ttl lib (x_ttl r)) s)))))"

definition upload_commit :: "'f vanish_lib \<Rightarrow> upload_env \<Rightarrow> string \<Rightarrow> vanish_state \<Rightarrow> vanish_state" where
  "upload_commit lib env hashedFileName s =
     snd (CommitJournal lib env (GetFileTTL s) DefaultStoragePath hashedFileName s)"

definition upload ::
  "'f vanish_lib \<Rightarrow> upload_env \<Rightarrow> vanish_request \<Rightarrow> vanish_state \<Rightarrow> vanish_response \<times> vanish_state" where
  "upload lib env r s =
     (case upload_store lib env r s of
        (resp, None, s) \<Rightarrow> (resp, s)
      | (resp, Some hashedFileName, s) \<Rightarrow> (resp, upload_commit lib env hashedFileName s))"

definition delete :: "vanish_request \<Rightarrow> vanish_state \<Rightarrow> vanish_state" where
  "delete r s = set_peer r s"

definition download :: "vanish_request \<Rightarrow> vanish_state \<Rightarrow> vanish_response \<times> vanish_state" where
  "download r s =
     (let s = set_peer r s;
          fileHash = x_file_id r
      in if length fileHash = 0 then (answer StatusBadRequest, s)
         else if Contains fileHash ''..'' \<or> Contains fileHash ''/'' then (answer StatusBadRequest, s)
         else (case files s (Join (storagePath s) fileHash) of
                 None \<Rightarrow> (answer StatusBadRequest, s)
               | Some fileBytes \<Rightarrow> (\<lparr>Status = StatusOK, file_id = None, Body = fileBytes\<rparr>, s)))"

text \<open>\<open>ServeHTTP\<close>: the method, in upper case, selects the operation.\<close>

definition upper_char :: "char \<Rightarrow> char" where
  "upper_char c = (let n = of_char c :: nat in if 97 \<le> n \<and> n \<le> 122 then char_of (n - 32) else c)"

definition ServeHTTP ::
  "'f vanish_lib \<Rightarrow> upload_env \<Rightarrow> vanish_request \<Rightarrow> vanish_state \<Rightarrow> vanish_response \<times> vanish_state" where
  "ServeHTTP lib env r s =
     (let reqMethod = map upper_char (Method r)
      in if reqMethod = ''POST'' \<or> reqMethod = ''PUT'' then upload lib env r s
         else if reqMethod = ''GET'' then download r s
         else (answer StatusBadRequest, s))"

text \<open>The handler of the health check, and the routes of \<open>main\<close> on clean paths.\<close>

definition health_ServeHTTP :: "vanish_request \<Rightarrow> vanish_response" where
  "health_ServeHTTP r = answer StatusOK"

definition main_route ::
  "'f vanish_lib \<Rightarrow> upload_env \<Rightarrow> string \<Rightarrow> vanish_request \<Rightarrow> vanish_state
   \<Rightarrow> vanish_response \<times> vanish_state" where
  "main_route lib env path r s =
     (if path = ''/ping'' \<or> path = ''/health'' then (health_ServeHTTP r, s)
      else ServeHTTP lib env r s)"

section \<open>The cleaner\<close>

text \<open>
  The loop of \<open>deleteFunc\<close> over the lines of the journal: the error that ends it, if any, and
  the files. The clock is read anew for every line.
\<close>

fun clean_loop ::
  "'f vanish_lib \<Rightarrow> (string \<Rightarrow> bool) \<Rightarrow> (nat \<Rightarrow> int) \<Rightarrow> string list \<Rightarrow> (string \<Rightarrow> byte list option)
   \<Rightarrow> string option \<times> (string \<Rightarrow> byte list option)" where
  "clean_loop lib remove_err now [] fs = (None, fs)"
| "clean_loop lib remove_err now (e # es) fs =
     (case split_on (CHR '','') e of
        [d, t, fp] \<Rightarrow>
          if fs fp = None then clean_loop lib remove_err (\<lambda>i. now (Suc i)) es fs
          else (case UnixDate_Parse lib d of
                  Inl err \<Rightarrow> (Some (''failed to parse UNIX date in log entry: '' @ err), fs)
                | Inr expirationDate \<Rightarrow>
                    (case ParseDuration lib t of
                       Inl err \<Rightarrow> (Some (''invalid ttl in log entry: '' @ err), fs)
                     | Inr ttl \<Rightarrow>
                         if now 0 - expirationDate > 0
                         then if remove_err fp then (Some ''failed deletion'', fs)
                              else clean_loop lib remove_err (\<lambda>i. now (Suc i)) es (fs(fp := None))
                         else clean_loop lib remove_err (\<lambda>i. now (Suc i)) es fs))
      | _ \<Rightarrow> clean_loop lib remove_err (\<lambda>i. now (Suc i)) es fs)"

definition deleteFunc ::
  "'f vanish_lib \<Rightarrow> clean_env \<Rightarrow> vanish_state \<Rightarrow> string option \<times> vanish_state" where
  "deleteFunc lib env s =
     (if cl_open_err env then (Some ''open'', s)
      else if cl_read_err env then (Some ''read'', s)
      else (case clean_loop lib (cl_remove_err env) (cl_now env) (split_on (CHR 0x0A) (journal s)) (files s) of
              (Some err, fs) \<Rightarrow> (Some err, s\<lparr>files := fs\<rparr>)
            | (None, fs) \<Rightarrow>
                let s = s\<lparr>files := fs\<rparr>
                in if cl_close_err env then (Some ''close'', s)
                   else if cl_stat_err env then (Some ''stat'', s)
                   else if length (journal s) > DefaultMaxJournalSize
                   then if cl_truncate_err env then (Some ''truncate'', s) else (None, s\<lparr>journal := []\<rparr>)
                   else (None, s)))"

text \<open>\<open>Start\<close>: a pass per tick until the context is done; errors are logged and ignored.\<close>

datatype cleaner_event = CtxDone | Tick clean_env

fun Start :: "'f vanish_lib \<Rightarrow> cleaner_event list \<Rightarrow> vanish_state \<Rightarrow> vanish_state" where
  "Start lib [] s = s"
| "Start lib (CtxDone # es) s = s"
| "Start lib (Tick env # es) s = Start lib es (snd (deleteFunc lib env s))"

section \<open>The service\<close>

text \<open>\<open>New\<close> on a disk that may hold files and a journal from before.\<close>

definition New ::
  "'f vanish_lib \<Rightarrow> new_env \<Rightarrow> string \<Rightarrow> string \<Rightarrow> (string \<Rightarrow> byte list option) \<Rightarrow> string
   \<Rightarrow> string + vanish_state" where
  "New lib env storage seed fs jrnl =
     (case DecodeString seed of
        None \<Rightarrow> Inl ''cannot decode hex key''
      | Some hhSeed \<Rightarrow>
          if \<not> hh_New_ok lib hhSeed then Inl ''highwayhash''
          else (case NewJournaler env of
                  Inl err \<Rightarrow> Inl err
                | Inr _ \<Rightarrow>
                    Inr \<lparr>files = fs, journal = jrnl, storagePath = storage, hh_key = hhSeed, hh = [],
                         fileTTL = 0, peerAddr = [], fileName = []\<rparr>))"

text \<open>
  A history of the service as \<open>main\<close> starts it: requests, ticks of the cleaner, and restarts,
  which keep the disk. A restart that fails leaves the disk as it is.
\<close>

datatype vanish_event = Request upload_env string vanish_request | CleanerTick clean_env | Restart new_env

definition main_New :: "'f vanish_lib \<Rightarrow> new_env \<Rightarrow> (string \<Rightarrow> byte list option) \<Rightarrow> string \<Rightarrow> string + vanish_state" where
  "main_New lib env fs jrnl = New lib env DefaultStoragePath DefaultHHSeed fs jrnl"

fun serve_event :: "'f vanish_lib \<Rightarrow> vanish_event \<Rightarrow> vanish_state \<Rightarrow> vanish_state" where
  "serve_event lib (Request env path r) s = snd (main_route lib env path r s)"
| "serve_event lib (CleanerTick env) s = Start lib [Tick env] s"
| "serve_event lib (Restart env) s =
     (case main_New lib env (files s) (journal s) of Inl _ \<Rightarrow> s | Inr s' \<Rightarrow> s')"

definition serve_events :: "'f vanish_lib \<Rightarrow> vanish_event list \<Rightarrow> vanish_state \<Rightarrow> vanish_state" where
  "serve_events lib evs s = fold (serve_event lib) evs s"

section \<open>Lemmas on paths\<close>

text \<open>A name that \<open>Clean\<close> leaves alone, and a rooted path of such names.\<close>

definition plain :: "string \<Rightarrow> bool" where
  "plain e \<longleftrightarrow> e \<noteq> [] \<and> e \<noteq> ''.'' \<and> e \<noteq> ''..'' \<and> CHR ''/'' \<notin> set e"

definition rooted :: "string list \<Rightarrow> string" where
  "rooted es = CHR ''/'' # join_with (CHR ''/'') es"

lemma clean_plain: "\<forall>e \<in> set es. plain e \<Longrightarrow> clean_elements pre (es @ fs) = clean_elements (pre @ es) fs"
  by (induction es arbitrary: pre) (auto simp: plain_def)

lemma Join_rooted:
  assumes "es \<noteq> []" and "\<forall>e \<in> set es. plain e" and "CHR ''/'' \<notin> set name" and "name \<noteq> []"
  shows "Join (rooted es) name =
    (if name = ''.'' then rooted es else if name = ''..'' then rooted (butlast es) else rooted (es @ [name]))"
proof -
  have "split_on (CHR ''/'') (join_with (CHR ''/'') es @ CHR ''/'' # name) = es @ [name]"
    using assms by (simp add: split_on_append_any split_join split_on_fresh plain_def)
  then show ?thesis
    using assms(4) clean_plain [OF assms(2), of "[]" "[name]"]
    by (simp add: Join_def Clean_rooted_def rooted_def)
qed

lemma rooted_inj:
  assumes "\<forall>e \<in> set es. plain e" and "\<forall>e \<in> set fs. plain e" and "rooted es = rooted fs"
    and "es \<noteq> []" and "fs \<noteq> []"
  shows "es = fs"
proof -
  have "join_with (CHR ''/'') es = join_with (CHR ''/'') fs"
    using assms(3) by (simp add: rooted_def)
  moreover have "split_on (CHR ''/'') (join_with (CHR ''/'') es) = es"
    using assms(1,4) by (intro split_join) (auto simp: plain_def)
  moreover have "split_on (CHR ''/'') (join_with (CHR ''/'') fs) = fs"
    using assms(2,5) by (intro split_join) (auto simp: plain_def)
  ultimately show ?thesis
    by metis
qed

lemma DefaultStoragePath_rooted: "DefaultStoragePath = rooted [''tmp'', ''vanishling'', ''uploads'']"
  by (simp add: DefaultStoragePath_def rooted_def)

lemma plain_default: "\<forall>e \<in> set [''tmp'', ''vanishling'', ''uploads'']. plain e"
  by (simp add: plain_def)

text \<open>File ids are hexadecimal.\<close>

lemma hex_digit_range: "n < 16 \<Longrightarrow> hex_digit n \<in> set ''0123456789abcdef''"
proof -
  have "\<forall>n \<in> set [0..<16]. hex_digit n \<in> set ''0123456789abcdef''"
    by code_simp
  then show "n < 16 \<Longrightarrow> hex_digit n \<in> set ''0123456789abcdef''"
    by simp
qed

lemma EncodeToString_set:
  assumes "c \<in> set (EncodeToString bs)"
  shows "c \<in> set ''0123456789abcdef''"
proof -
  obtain b where "c = hex_digit (unat (b :: byte) div 16) \<or> c = hex_digit (unat b mod 16)"
    using assms by (auto simp: EncodeToString_def)
  moreover have "unat b div 16 < 16" "unat b mod 16 < 16"
    using unsigned_less [of b, where 'a = nat] by simp_all
  ultimately show ?thesis
    using hex_digit_range by metis
qed

lemma EncodeToString_chars: "CHR ''.'' \<notin> set (EncodeToString bs)" "CHR ''/'' \<notin> set (EncodeToString bs)"
  "CHR '','' \<notin> set (EncodeToString bs)" "CHR 0x0A \<notin> set (EncodeToString bs)"
  using EncodeToString_set [of _ bs] by fastforce+

lemma EncodeToString_plain: "bs \<noteq> [] \<Longrightarrow> plain (EncodeToString bs)"
proof -
  assume "bs \<noteq> []"
  then have "EncodeToString bs \<noteq> []"
    by (cases bs) (auto simp: EncodeToString_def)
  then show ?thesis
    using EncodeToString_chars [of bs] unfolding plain_def by (metis list.set_intros(1))
qed

text \<open>\<open>DecodeString\<close> reads back what \<open>EncodeToString\<close> writes.\<close>

lemma fromHexChar_hex_digit: "n < 16 \<Longrightarrow> fromHexChar (hex_digit n) = Some n"
  by (simp add: fromHexChar_def hex_digit_def Let_def)

lemma DecodeString_EncodeToString: "DecodeString (EncodeToString bs) = Some bs"
proof (induction bs)
  case (Cons b bs)
  have "unat b < 256"
    using unsigned_less [of b, where 'a = nat] by simp
  then have "unat b div 16 < 16" "16 * (unat b div 16) + unat b mod 16 = unat b"
    by simp_all
  then show ?case
    using Cons fromHexChar_hex_digit [of "unat b div 16"] fromHexChar_hex_digit [of "unat b mod 16"]
    by (simp add: EncodeToString_def)
qed (simp add: EncodeToString_def)

section \<open>Lemmas on the journal\<close>

text \<open>
  What the service relies on of its libraries: a date is read back to the second, a duration
  is read back, neither is written with a comma or a line feed, and a hash has bytes.
\<close>

definition lib_ok :: "'f vanish_lib \<Rightarrow> bool" where
  "lib_ok lib \<longleftrightarrow>
     (\<forall>t. UnixDate_Parse lib (UnixDate_Format lib t) = Inr (t div Second * Second)) \<and>
     (\<forall>d. ParseDuration lib (Duration_String lib d) = Inr d) \<and>
     (\<forall>t. CHR '','' \<notin> set (UnixDate_Format lib t) \<and> CHR 0x0A \<notin> set (UnixDate_Format lib t)) \<and>
     (\<forall>d. CHR '','' \<notin> set (Duration_String lib d) \<and> CHR 0x0A \<notin> set (Duration_String lib d)) \<and>
     (\<forall>k bs. hh_Sum lib k bs \<noteq> [])"

record journal_entry =
  exp :: int
  ttl :: duration
  ufn :: string

definition render :: "'f vanish_lib \<Rightarrow> journal_entry list \<Rightarrow> string" where
  "render lib es = concat (map (\<lambda>e. journal_line lib (exp e) (ttl e) (ufn e)) es)"

definition entry_text :: "'f vanish_lib \<Rightarrow> journal_entry \<Rightarrow> string" where
  "entry_text lib e = UnixDate_Format lib (exp e) @ CHR '','' # Duration_String lib (ttl e) @ CHR '','' # ufn e"

definition entry_ok :: "journal_entry \<Rightarrow> bool" where
  "entry_ok e \<longleftrightarrow> CHR '','' \<notin> set (ufn e) \<and> CHR 0x0A \<notin> set (ufn e)"

text \<open>The expiry as the cleaner reads it: the date has no fraction of a second.\<close>

definition expiry_date :: "journal_entry \<Rightarrow> int" where
  "expiry_date e = exp e div Second * Second"

lemma render_simps [simp]:
  "render lib [] = []"
  "render lib (es @ fs) = render lib es @ render lib fs"
  "render lib [e] = journal_line lib (exp e) (ttl e) (ufn e)"
  by (simp_all add: render_def)

lemma split_render:
  assumes "lib_ok lib"
  shows "\<forall>e \<in> set es. entry_ok e \<Longrightarrow> split_on (CHR 0x0A) (render lib es) = map (entry_text lib) es @ [[]]"
proof (induction es)
  case (Cons e es)
  have "CHR 0x0A \<notin> set (entry_text lib e)"
    using assms Cons.prems by (simp add: entry_text_def entry_ok_def lib_ok_def)
  moreover have "render lib (e # es) = entry_text lib e @ CHR 0x0A # render lib es"
    by (simp add: render_def entry_text_def journal_line_def)
  ultimately show ?case
    using Cons by (simp add: split_on_append)
qed simp

lemma split_entry_text:
  assumes "lib_ok lib" and "entry_ok e"
  shows "split_on (CHR '','') (entry_text lib e) =
    [UnixDate_Format lib (exp e), Duration_String lib (ttl e), ufn e]"
  using assms by (simp add: entry_text_def entry_ok_def lib_ok_def split_on_append split_on_fresh)

lemma clean_loop_entry:
  assumes "lib_ok lib" and "entry_ok e"
  shows "clean_loop lib rm now (entry_text lib e # ls) fs =
    (if fs (ufn e) = None \<or> now 0 \<le> expiry_date e then clean_loop lib rm (\<lambda>i. now (Suc i)) ls fs
     else if rm (ufn e) then (Some ''failed deletion'', fs)
     else clean_loop lib rm (\<lambda>i. now (Suc i)) ls (fs(ufn e := None)))"
proof -
  have "UnixDate_Parse lib (UnixDate_Format lib t) = Inr (t div Second * Second)"
    "ParseDuration lib (Duration_String lib d) = Inr d" for t d
    using assms by (simp_all add: lib_ok_def)
  then show ?thesis
    by (simp add: split_entry_text [OF assms] expiry_date_def)
qed

declare clean_loop.simps(2) [simp del]

lemma clean_loop_end [simp]: "clean_loop lib rm now [[]] fs = (None, fs)"
  by (simp add: clean_loop.simps)

text \<open>A pass keeps what has not expired, and without faults removes what has.\<close>

lemma clean_loop_keeps:
  assumes "lib_ok lib"
  shows "\<forall>e \<in> set es. entry_ok e \<Longrightarrow> \<forall>e \<in> set es. ufn e = p \<longrightarrow> (\<forall>i. now i \<le> expiry_date e) \<Longrightarrow>
    snd (clean_loop lib rm now (map (entry_text lib) es @ [[]]) fs) p = fs p"
proof (induction es arbitrary: fs now)
  case (Cons e es)
  then have "snd (clean_loop lib rm (\<lambda>i. now (Suc i)) (map (entry_text lib) es @ [[]]) gs) p = gs p" for gs
    by simp
  then show ?case
    using Cons.prems by (simp add: clean_loop_entry [OF assms])
qed simp


lemma clean_loop_finishes:
  assumes "lib_ok lib"
  shows "\<forall>e \<in> set es. entry_ok e \<Longrightarrow>
    fst (clean_loop lib (\<lambda>_. False) now (map (entry_text lib) es @ [[]]) fs) = None"
  by (induction es arbitrary: fs now) (simp_all add: clean_loop_entry [OF assms])

lemma clean_loop_creates_none:
  assumes "lib_ok lib"
  shows "\<forall>e \<in> set es. entry_ok e \<Longrightarrow> fs p = None \<Longrightarrow>
    snd (clean_loop lib rm now (map (entry_text lib) es @ [[]]) fs) p = None"
  by (induction es arbitrary: fs now) (simp_all add: clean_loop_entry [OF assms])

lemma clean_loop_removes:
  assumes "lib_ok lib"
  shows "\<forall>e \<in> set es. entry_ok e \<Longrightarrow> e \<in> set es \<Longrightarrow> \<forall>i. expiry_date e < now i \<Longrightarrow>
    snd (clean_loop lib (\<lambda>_. False) now (map (entry_text lib) es @ [[]]) fs) (ufn e) = None"
proof (induction es arbitrary: fs now)
  case (Cons f es)
  show ?case
  proof (cases "e = f")
    case True
    have "\<not> now 0 \<le> expiry_date f"
      using Cons.prems(3) True by (simp add: not_le)
    then show ?thesis
      using Cons.prems(1) True by (simp add: clean_loop_entry [OF assms] clean_loop_creates_none [OF assms])
  next
    case False
    then have "e \<in> set es" "\<forall>e \<in> set es. entry_ok e" "entry_ok f"
      using Cons.prems by simp_all
    then show ?thesis
      using Cons.IH Cons.prems(3) by (simp add: clean_loop_entry [OF assms])
  qed
qed simp

lemma deleteFunc_frame:
  "storagePath (snd (deleteFunc lib env s)) = storagePath s"
  "journal (snd (deleteFunc lib env s)) = journal s \<or>
   journal (snd (deleteFunc lib env s)) = [] \<and> DefaultMaxJournalSize < length (journal s)"
  by (auto simp: deleteFunc_def Let_def split: prod.splits option.splits)

lemma deleteFunc_files:
  "files (snd (deleteFunc lib env s)) =
   (if cl_open_err env \<or> cl_read_err env then files s
    else snd (clean_loop lib (cl_remove_err env) (cl_now env) (split_on (CHR 0x0A) (journal s)) (files s)))"
  by (auto simp: deleteFunc_def Let_def split: prod.splits option.splits)

lemma deleteFunc_keeps:
  assumes "lib_ok lib" and "journal s = render lib es" and "\<forall>e \<in> set es. entry_ok e"
    and "\<forall>e \<in> set es. ufn e = p \<longrightarrow> (\<forall>i. cl_now env i \<le> expiry_date e)"
  shows "files (snd (deleteFunc lib env s)) p = files s p"
  using clean_loop_keeps [OF assms(1) assms(3,4)] assms(2)
  by (simp add: deleteFunc_files split_render [OF assms(1,3)])

definition clean_faultless :: "clean_env \<Rightarrow> bool" where
  "clean_faultless env \<longleftrightarrow> \<not> cl_open_err env \<and> \<not> cl_read_err env \<and> cl_remove_err env = (\<lambda>_. False) \<and>
     \<not> cl_close_err env \<and> \<not> cl_stat_err env \<and> \<not> cl_truncate_err env"

lemma deleteFunc_finishes:
  assumes "lib_ok lib" and "clean_faultless env" and "journal s = render lib es" and "\<forall>e \<in> set es. entry_ok e"
  shows "fst (deleteFunc lib env s) = None"
  using clean_loop_finishes [OF assms(1,4), of "cl_now env" "files s"] assms(2,3)
  by (auto simp: deleteFunc_def split_render [OF assms(1,4)] clean_faultless_def Let_def split: prod.splits option.splits)

lemma deleteFunc_removes:
  assumes "lib_ok lib" and "clean_faultless env" and "journal s = render lib es" and "\<forall>e \<in> set es. entry_ok e"
    and "e \<in> set es" and "\<forall>i. expiry_date e < cl_now env i"
  shows "files (snd (deleteFunc lib env s)) (ufn e) = None"
  using clean_loop_removes [OF assms(1,4,5,6)] assms(2,3)
  by (simp add: deleteFunc_files split_render [OF assms(1,4)] clean_faultless_def)

end
