(* ===== verification/Vanishling_Service.thy ===== *)
theory Vanishling_Service
  imports Vanishling
begin

text \<open>
  What the Vanishling service promises over its histories: the effect of an upload on the disk
  by cases, two invariants over requests, passes of the cleaner and restarts (a file is kept,
  every file has a journal entry), the properties, and runs that show their hypotheses hold.
\<close>

section \<open>Lemmas on uploads\<close>

lemma ensureDirWritable_state: "snd (ensureDirWritable env s) = s"
  by (auto simp: ensureDirWritable_def Let_def fun_upd_idem)

text \<open>The path that an upload of some content writes in a state.\<close>

definition upload_id :: "'f vanish_lib \<Rightarrow> upload_env \<Rightarrow> byte list \<Rightarrow> vanish_state \<Rightarrow> string" where
  "upload_id lib env content s = EncodeToString (hh_Sum lib (hh_key s) (hh s @ mixer env @ content))"

abbreviation upload_path :: "'f vanish_lib \<Rightarrow> upload_env \<Rightarrow> byte list \<Rightarrow> vanish_state \<Rightarrow> string" where
  "upload_path lib env content s \<equiv> Join (storagePath s) (upload_id lib env content s)"

text \<open>An upload is rejected, or fails with a file left behind, or stores its content.\<close>

definition same_disk :: "vanish_state \<Rightarrow> vanish_state \<Rightarrow> bool" where
  "same_disk s s' \<longleftrightarrow> journal s' = journal s \<and> storagePath s' = storagePath s \<and> hh_key s' = hh_key s"

lemma hashFile_cases:
  obtains (rejected) s1 where "hashFile lib env content s = (None, s1)" "same_disk s s1" "files s1 = files s"
  | (leaked) s1 c where "hashFile lib env content s = (None, s1)" "same_disk s s1"
      "files s (upload_path lib env content s) = None"
      "files s1 = (files s)(upload_path lib env content s \<mapsto> c)" "read_err env \<or> write_err env \<noteq> None"
  | (stored) s1 where
      "hashFile lib env content s = (Some (if content = [] then [] else upload_id lib env content s), s1)"
      "same_disk s s1" "files s (upload_path lib env content s) = None"
      "files s1 = (files s)(upload_path lib env content s \<mapsto> content)"
proof -
  obtain b where b: "ensureDirWritable env s = (b, s)"
    using ensureDirWritable_state [of env s] by (cases "ensureDirWritable env s") auto
  note unfold = hashFile_def b Let_def same_disk_def upload_id_def
  show thesis
  proof (cases "\<not> b \<or> copy_err env \<noteq> None \<or> open_err env \<or> files s (upload_path lib env content s) \<noteq> None")
    case True
    then show thesis
      by (intro rejected [of "snd (hashFile lib env content s)"]) (auto simp: unfold split: bool.splits option.splits)
  next
    case False
    then show thesis
      using leaked [of "snd (hashFile lib env content s)" "if read_err env then [] else take (the (write_err env)) content"]
        stored [of "snd (hashFile lib env content s)"]
      by (cases "read_err env"; cases "write_err env") (simp_all add: unfold)
  qed
qed

lemma set_peer_frame [simp]:
  "files (set_peer r s) = files s" "journal (set_peer r s) = journal s"
  "storagePath (set_peer r s) = storagePath s" "hh_key (set_peer r s) = hh_key s" "hh (set_peer r s) = hh s"
  by (simp_all add: set_peer_def Let_def)

lemma setFileName_Some: "setFileName fn fs s = Some s1 \<longleftrightarrow>
    fn \<noteq> [] \<and> \<not> Contains fn ''..'' \<and> \<not> Contains fn ''/'' \<and> fs \<noteq> 0 \<and> s1 = s\<lparr>fileName := fn\<rparr>"
  by (auto simp: setFileName_def)

lemma upload_store_cases:
  obtains (rejected) st s1 where "upload_store lib env r s = (answer st, None, s1)" "same_disk s s1" "files s1 = files s"
  | (leaked) st s1 name sz content c where "upload_store lib env r s = (answer st, None, s1)" "same_disk s s1"
      "form_file r = Some (name, sz, content)" "files s (upload_path lib env content s) = None"
      "files s1 = (files s)(upload_path lib env content s \<mapsto> c)" "read_err env \<or> write_err env \<noteq> None"
  | (stored) h s1 name sz content where
      "upload_store lib env r s = (\<lparr>Status = StatusOK, file_id = Some h, Body = []\<rparr>, Some h, s1)"
      "form_file r = Some (name, sz, content)" "sz \<noteq> 0"
      "same_disk s s1" "files s (upload_path lib env content s) = None"
      "files s1 = (files s)(upload_path lib env content s \<mapsto> content)" "fileTTL s1 = upload_ttl lib (x_ttl r)"
      "h = (if content = [] then [] else upload_id lib env content s)"
proof (cases "IsDiskFull (flt lib) env \<or> form_err r \<or> form_file r = None")
  case True
  then show thesis
    by (intro rejected [of "Status (fst (upload_store lib env r s))" "snd (snd (upload_store lib env r s))"])
      (auto simp: upload_store_def Let_def same_disk_def)
next
  case False
  then obtain name sz content where form: "form_file r = Some (name, sz, content)"
    by auto
  show thesis
  proof (cases "setFileName name sz (set_peer r s)")
    case None
    then show thesis
      using False form
      by (intro rejected [of StatusBadRequest "set_peer r s"])
        (simp_all add: upload_store_def same_disk_def)
  next
    case (Some s0)
    then have s0: "files s0 = files s" "same_disk s s0" "hh s0 = hh s" "sz \<noteq> 0"
      by (auto simp: setFileName_Some same_disk_def)
    then have id: "upload_id lib env content s0 = upload_id lib env content s" "storagePath s0 = storagePath s"
      by (simp_all add: upload_id_def same_disk_def)
    have store: "upload_store lib env r s =
        (case hashFile lib env content s0 of
           (None, s) \<Rightarrow> (answer StatusBadRequest, None, s)
         | (Some h, s) \<Rightarrow> (\<lparr>Status = StatusOK, file_id = Some h, Body = []\<rparr>, Some h,
             SetFileTTL (upload_ttl lib (x_ttl r)) s))"
      using False form Some by (simp add: upload_store_def)
    show thesis
    proof (cases rule: hashFile_cases [of lib env content s0])
      case (rejected s1)
      then show thesis
        using that(1) [of StatusBadRequest s1] s0 by (simp add: store same_disk_def)
    next
      case (leaked s1 c)
      then show thesis
        using that(2) [of StatusBadRequest s1 name sz content c] s0 form
        by (simp add: store id same_disk_def)
    next
      case (stored s1)
      let ?h = "if content = [] then [] else upload_id lib env content s"
      show thesis
        by (rule that(3) [of ?h "SetFileTTL (upload_ttl lib (x_ttl r)) s1" name sz content])
          (use stored s0 form in \<open>simp_all add: store id same_disk_def SetFileTTL_def\<close>)
    qed
  qed
qed

text \<open>The commit adds one entry.\<close>

lemma Join_nonempty: "Join d n \<noteq> []"
  by (simp add: Join_def Clean_rooted_def)

lemma upload_commit_journal:
  assumes "jrnl_write_err env = None"
  shows "upload_commit lib env h s =
    (if jrnl_open_err env then s
     else s\<lparr>journal := journal s @ render lib
       [\<lparr>exp = jrnl_now env + fileTTL s, ttl = fileTTL s, ufn = Join DefaultStoragePath h\<rparr>]\<rparr>)"
  using assms by (simp add: upload_commit_def CommitJournal_def GetFileTTL_def Join_nonempty Let_def)

lemma Join_default_empty: "Join DefaultStoragePath [] = DefaultStoragePath"
  by (simp add: Join_def Clean_rooted_def DefaultStoragePath_def)

lemma upload_id_plain: "lib_ok lib \<Longrightarrow> plain (upload_id lib env content s)"
  by (simp add: upload_id_def lib_ok_def EncodeToString_plain)

lemma Join_default_plain:
  assumes "plain n"
  shows "Join DefaultStoragePath n = rooted [''tmp'', ''vanishling'', ''uploads'', n]"
  using assms Join_rooted [OF _ plain_default, of n] by (simp add: DefaultStoragePath_rooted plain_def)

lemma upload_path_default:
  assumes "lib_ok lib"
  shows "Join DefaultStoragePath (upload_id lib env content s) =
    DefaultStoragePath @ CHR ''/'' # upload_id lib env content s"
  using Join_default_plain [OF upload_id_plain [OF assms]] by (simp add: rooted_def DefaultStoragePath_def)

lemma upload_entry_ok:
  assumes "lib_ok lib"
  shows "entry_ok \<lparr>exp = x, ttl = t, ufn = Join DefaultStoragePath (upload_id lib env content s)\<rparr>"
    "entry_ok \<lparr>exp = x, ttl = t, ufn = DefaultStoragePath\<rparr>"
  unfolding entry_ok_def journal_entry.simps upload_path_default [OF assms]
  using EncodeToString_chars by (simp_all add: upload_id_def DefaultStoragePath_def)

lemma upload_path_not_dir:
  assumes "lib_ok lib"
  shows "Join DefaultStoragePath (upload_id lib env content s) \<noteq> DefaultStoragePath"
  unfolding upload_path_default [OF assms] by simp

lemma upload_ttl_bound: "upload_ttl lib h \<le> 3600 * Second"
  by (auto simp: upload_ttl_def DefaultFileTTL_def DefaultMaxTTLHours_def Second_def split: sum.splits)

section \<open>Histories\<close>

text \<open>
  A stored file and the bound below which no entry of the journal expires it. \<open>None\<close> says
  that the journal has no entry for it.
\<close>

definition keeps :: "'f vanish_lib \<Rightarrow> int option \<Rightarrow> string \<Rightarrow> byte list \<Rightarrow> vanish_state \<Rightarrow> bool" where
  "keeps lib bound p c s \<longleftrightarrow> storagePath s = DefaultStoragePath \<and> files s p = Some c \<and>
     (\<exists>es. journal s = render lib es \<and>
        (\<forall>e \<in> set es. entry_ok e \<and> (ufn e = p \<longrightarrow> (\<exists>T. bound = Some T \<and> T \<le> expiry_date e))))"

text \<open>No reading of the clock is after the bound, and the journal is not torn by a partial write.\<close>

fun calm :: "int option \<Rightarrow> vanish_event \<Rightarrow> bool" where
  "calm bound (Request env path r) = (jrnl_write_err env = None)"
| "calm bound (CleanerTick env) = (\<forall>T i. bound = Some T \<longrightarrow> cl_now env i \<le> T)"
| "calm bound (Restart env) = True"

lemma keeps_upload:
  assumes "lib_ok lib" and "p \<noteq> DefaultStoragePath" and "keeps lib bound p c s" and "jrnl_write_err env = None"
  shows "keeps lib bound p c (snd (upload lib env r s))"
proof (cases rule: upload_store_cases [of lib env r s])
  case (rejected st s1)
  then show ?thesis
    using assms(3) by (simp add: upload_def keeps_def same_disk_def)
next
  case (leaked st s1 name sz content c')
  then show ?thesis
    using assms(3) by (auto simp: upload_def keeps_def same_disk_def)
next
  case (stored h s1 name sz content)
  let ?e = "\<lparr>exp = jrnl_now env + fileTTL s1, ttl = fileTTL s1, ufn = Join DefaultStoragePath h\<rparr>"
  have s: "storagePath s = DefaultStoragePath" "files s p = Some c"
    using assms(3) by (simp_all add: keeps_def)
  then have s1: "keeps lib bound p c s1"
    using assms(3) stored by (auto simp: keeps_def same_disk_def)
  have "entry_ok ?e"
    using upload_entry_ok [OF assms(1)] stored(8) by (simp add: Join_default_empty)
  moreover have "ufn ?e \<noteq> p"
    using assms(2) s stored by (auto simp: Join_default_empty)
  moreover obtain es where "journal s1 = render lib es"
      "\<forall>e \<in> set es. entry_ok e \<and> (ufn e = p \<longrightarrow> (\<exists>T. bound = Some T \<and> T \<le> expiry_date e))"
    using s1 by (auto simp: keeps_def)
  ultimately have "\<exists>es. journal s1 @ render lib [?e] = render lib es \<and>
      (\<forall>e \<in> set es. entry_ok e \<and> (ufn e = p \<longrightarrow> (\<exists>T. bound = Some T \<and> T \<le> expiry_date e)))"
    by (intro exI [of _ "es @ [?e]"]) simp
  moreover have "snd (upload lib env r s) = upload_commit lib env h s1"
    using stored(1) by (simp add: upload_def)
  ultimately show ?thesis
    using s1 by (simp add: upload_commit_journal [OF assms(4)] keeps_def)
qed

lemma keeps_download: "keeps lib bound p c (snd (download r s)) = keeps lib bound p c s"
  by (simp add: download_def keeps_def Let_def split: option.split)

lemma keeps_clean:
  assumes "lib_ok lib" and "keeps lib bound p c s" and "\<forall>T i. bound = Some T \<longrightarrow> cl_now env i \<le> T"
  shows "keeps lib bound p c (snd (deleteFunc lib env s))"
proof -
  obtain es where es: "journal s = render lib es"
      "\<forall>e \<in> set es. entry_ok e \<and> (ufn e = p \<longrightarrow> (\<exists>T. bound = Some T \<and> T \<le> expiry_date e))"
    using assms(2) by (auto simp: keeps_def)
  have "\<forall>e \<in> set es. ufn e = p \<longrightarrow> (\<forall>i. cl_now env i \<le> expiry_date e)"
    using es(2) assms(3) by (meson order_trans)
  then have "files (snd (deleteFunc lib env s)) p = files s p"
    using deleteFunc_keeps [OF assms(1) es(1)] es(2) by blast
  moreover have "\<exists>es. journal (snd (deleteFunc lib env s)) = render lib es \<and>
      (\<forall>e \<in> set es. entry_ok e \<and> (ufn e = p \<longrightarrow> (\<exists>T. bound = Some T \<and> T \<le> expiry_date e)))"
    using deleteFunc_frame(2) [of lib env s] es by (metis empty_iff empty_set render_simps(1))
  ultimately show ?thesis
    using assms(2) by (simp add: keeps_def deleteFunc_frame(1))
qed

lemma keeps_event:
  assumes "lib_ok lib" and "p \<noteq> DefaultStoragePath"
  shows "keeps lib bound p c s \<Longrightarrow> calm bound ev \<Longrightarrow> keeps lib bound p c (serve_event lib ev s)"
proof (cases ev)
  case (Request env path r)
  assume "keeps lib bound p c s" "calm bound ev"
  then show ?thesis
    using Request keeps_upload [OF assms] by (simp add: main_route_def ServeHTTP_def keeps_download Let_def)
next
  case (CleanerTick env)
  assume "keeps lib bound p c s" "calm bound ev"
  then show ?thesis
    using CleanerTick keeps_clean [OF assms(1)] by simp
next
  case (Restart env)
  assume "keeps lib bound p c s"
  then show ?thesis
    using Restart
    by (auto simp: main_New_def New_def keeps_def split: sum.splits option.splits if_splits)
qed

lemma keeps_events:
  assumes "lib_ok lib" and "p \<noteq> DefaultStoragePath"
  shows "keeps lib bound p c s \<Longrightarrow> \<forall>ev \<in> set evs. calm bound ev \<Longrightarrow> keeps lib bound p c (serve_events lib evs s)"
  by (induction evs arbitrary: s) (simp_all add: serve_events_def keeps_event [OF assms])

lemma download_keeps:
  assumes "lib_ok lib" and "keeps lib bound (Join DefaultStoragePath (upload_id lib env content s0)) c s"
    and "x_file_id r = upload_id lib env content s0"
  shows "fst (download r s) = \<lparr>Status = StatusOK, file_id = None, Body = c\<rparr>"
proof -
  have "\<not> Contains (x_file_id r) ''..''" "\<not> Contains (x_file_id r) ''/''" "x_file_id r \<noteq> []"
    using Contains_set [of "x_file_id r"] EncodeToString_chars upload_id_plain [OF assms(1), of env content s0] assms(3)
    by (fastforce simp: upload_id_def plain_def)+
  then show ?thesis
    using assms(2,3) by (simp add: download_def keeps_def)
qed

text \<open>Every stored file has an entry, and no entry expires later than the bound.\<close>

definition vanish_inv :: "'f vanish_lib \<Rightarrow> int \<Rightarrow> vanish_state \<Rightarrow> bool" where
  "vanish_inv lib T s \<longleftrightarrow> storagePath s = DefaultStoragePath \<and>
     (\<exists>es. journal s = render lib es \<and> (\<forall>e \<in> set es. entry_ok e \<and> exp e \<le> T) \<and>
        (\<forall>p. files s p \<noteq> None \<longrightarrow> (\<exists>e \<in> set es. ufn e = p)))"

text \<open>Uploads without faults, committed not later than a time.\<close>

fun sound_event :: "int \<Rightarrow> vanish_event \<Rightarrow> bool" where
  "sound_event T (Request env path r) \<longleftrightarrow>
     \<not> read_err env \<and> write_err env = None \<and> \<not> jrnl_open_err env \<and> jrnl_write_err env = None \<and>
     jrnl_now env \<le> T \<and>
     (case form_file r of None \<Rightarrow> True | Some (name, sz, content) \<Rightarrow> sz = int (length content))"
| "sound_event T (CleanerTick env) \<longleftrightarrow> True"
| "sound_event T (Restart env) \<longleftrightarrow> True"

lemma vanish_invI:
  assumes "storagePath s = DefaultStoragePath" and "journal s = render lib es"
    and "\<forall>e \<in> set es. entry_ok e \<and> exp e \<le> T" and "\<forall>p. files s p \<noteq> None \<longrightarrow> (\<exists>e \<in> set es. ufn e = p)"
  shows "vanish_inv lib T s"
  using assms unfolding vanish_inv_def by blast

lemma vanish_inv_upload:
  assumes "lib_ok lib" and "vanish_inv lib (T + 3600 * Second) s" and "sound_event T (Request env path r)"
  shows "vanish_inv lib (T + 3600 * Second) (snd (upload lib env r s))"
proof (cases rule: upload_store_cases [of lib env r s])
  case (rejected st s1)
  then show ?thesis
    using assms(2) by (simp add: upload_def vanish_inv_def same_disk_def)
next
  case (leaked st s1 name sz content c')
  then show ?thesis
    using assms(3) by simp
next
  case (stored h s1 name sz content)
  have content: "content \<noteq> []"
    using stored(2,3) assms(3) by auto
  let ?h = "upload_id lib env content s"
  let ?e = "\<lparr>exp = jrnl_now env + fileTTL s1, ttl = fileTTL s1, ufn = Join DefaultStoragePath ?h\<rparr>"
  obtain es where es: "journal s = render lib es" "\<forall>e \<in> set es. entry_ok e \<and> exp e \<le> T + 3600 * Second"
      "\<forall>p. files s p \<noteq> None \<longrightarrow> (\<exists>e \<in> set es. ufn e = p)" and path: "storagePath s = DefaultStoragePath"
    using assms(2) by (auto simp: vanish_inv_def)
  have "exp ?e \<le> T + 3600 * Second"
    using upload_ttl_bound [of lib "x_ttl r"] stored(7) assms(3) by simp
  then have "\<forall>e \<in> set (es @ [?e]). entry_ok e \<and> exp e \<le> T + 3600 * Second"
    using es(2) upload_entry_ok(1) [OF assms(1)] by simp
  moreover have "snd (upload lib env r s) = s1\<lparr>journal := render lib (es @ [?e])\<rparr>"
    using stored(1,4,8) content assms(3) es(1)
    by (simp add: upload_def upload_commit_journal same_disk_def)
  moreover have "\<forall>p. files s1 p \<noteq> None \<longrightarrow> (\<exists>e \<in> set (es @ [?e]). ufn e = p)"
    using es(3) stored(6) path by simp
  ultimately show ?thesis
    using stored(4) path by (intro vanish_invI [of _ _ "es @ [?e]"]) (simp_all add: same_disk_def)
qed

lemma vanish_inv_clean:
  assumes "lib_ok lib" and "vanish_inv lib T s" and "length (journal s) \<le> DefaultMaxJournalSize"
  shows "vanish_inv lib T (snd (deleteFunc lib env s))"
proof -
  obtain es where es: "journal s = render lib es" "\<forall>e \<in> set es. entry_ok e \<and> exp e \<le> T"
      "\<forall>p. files s p \<noteq> None \<longrightarrow> (\<exists>e \<in> set es. ufn e = p)" and path: "storagePath s = DefaultStoragePath"
    using assms(2) by (auto simp: vanish_inv_def)
  then have ok: "\<forall>e \<in> set es. entry_ok e"
    by simp
  have "files (snd (deleteFunc lib env s)) p \<noteq> None \<Longrightarrow> files s p \<noteq> None" for p
    using clean_loop_creates_none [OF assms(1) ok, of "files s" p] es(1)
    by (cases "files s p") (simp_all add: deleteFunc_files split_render [OF assms(1) ok] split: if_splits)
  then show ?thesis
    using es path assms(3) deleteFunc_frame [of lib env s] unfolding vanish_inv_def by (metis not_le)
qed

lemma vanish_inv_event:
  assumes "lib_ok lib" and "vanish_inv lib (T + 3600 * Second) s" and "sound_event T ev"
    and "length (journal s) \<le> DefaultMaxJournalSize"
  shows "vanish_inv lib (T + 3600 * Second) (serve_event lib ev s)"
proof (cases ev)
  case (Request env path r)
  then have "vanish_inv lib (T + 3600 * Second) (snd (upload lib env r s))"
    using vanish_inv_upload assms by blast
  moreover have "vanish_inv lib (T + 3600 * Second) (snd (download r s))"
    using assms(2) by (simp add: download_def vanish_inv_def Let_def split: option.split)
  ultimately show ?thesis
    using assms(2) Request by (simp add: main_route_def ServeHTTP_def Let_def)
next
  case (CleanerTick env)
  then show ?thesis
    using vanish_inv_clean [OF assms(1,2,4)] by simp
next
  case (Restart env)
  then show ?thesis
    using assms(2) by (auto simp: main_New_def New_def vanish_inv_def split: sum.splits option.splits if_splits)
qed

lemma vanish_inv_events:
  assumes "lib_ok lib"
  shows "vanish_inv lib (T + 3600 * Second) s \<Longrightarrow> \<forall>ev \<in> set evs. sound_event T ev \<Longrightarrow>
    \<forall>k \<le> length evs. length (journal (serve_events lib (take k evs) s)) \<le> DefaultMaxJournalSize \<Longrightarrow>
    vanish_inv lib (T + 3600 * Second) (serve_events lib evs s)"
proof (induction evs rule: rev_induct)
  case (snoc ev evs)
  have "\<forall>k \<le> length evs. length (journal (serve_events lib (take k evs) s)) \<le> DefaultMaxJournalSize"
    using snoc.prems(3) by (metis append_eq_conv_conj le_SucI length_append_singleton min.absorb1 take_append take_take)
  then have "vanish_inv lib (T + 3600 * Second) (serve_events lib evs s)"
      "length (journal (serve_events lib evs s)) \<le> DefaultMaxJournalSize"
    using snoc by (simp, metis order_refl take_all)
  then have "vanish_inv lib (T + 3600 * Second) (serve_event lib ev (serve_events lib evs s))"
    using vanish_inv_event [OF assms] snoc.prems(2) by simp
  then show ?case
    by (simp add: serve_events_def)
qed (simp add: serve_events_def)

lemma expiry_date_le: "expiry_date e \<le> exp e"
  by (simp add: expiry_date_def Second_def)

lemma upload_answered:
  assumes "upload lib env r s = (resp, s')" and "file_id resp = Some i"
    and "form_file r = Some (name, sz, content)" and "content \<noteq> []" and "jrnl_write_err env = None"
  shows "i = upload_id lib env content s" "Status resp = StatusOK"
    "storagePath s' = storagePath s" "files s' = (files s)(upload_path lib env content s \<mapsto> content)"
    "journal s' = journal s @ render lib (if jrnl_open_err env then [] else
       [\<lparr>exp = jrnl_now env + upload_ttl lib (x_ttl r), ttl = upload_ttl lib (x_ttl r), ufn = Join DefaultStoragePath i\<rparr>])"
proof -
  obtain s1 where s1: "same_disk s s1" "files s1 = (files s)(upload_path lib env content s \<mapsto> content)"
      "fileTTL s1 = upload_ttl lib (x_ttl r)" "s' = upload_commit lib env i s1"
      "i = upload_id lib env content s" "Status resp = StatusOK"
  proof (cases rule: upload_store_cases [of lib env r s])
    case (stored h s1 name' sz' content')
    then show thesis
      using that [of s1] assms(1-4) by (auto simp: upload_def)
  qed (use assms in \<open>auto simp: upload_def\<close>)
  then show "i = upload_id lib env content s" "Status resp = StatusOK"
    "storagePath s' = storagePath s" "files s' = (files s)(upload_path lib env content s \<mapsto> content)"
    "journal s' = journal s @ render lib (if jrnl_open_err env then [] else
       [\<lparr>exp = jrnl_now env + upload_ttl lib (x_ttl r), ttl = upload_ttl lib (x_ttl r), ufn = Join DefaultStoragePath i\<rparr>])"
    by (simp_all add: upload_commit_journal [OF assms(5)] same_disk_def)
qed

text \<open>A failed upload leaves the file it created without an entry.\<close>

lemma upload_write_fault:
  assumes "\<not> IsDiskFull (flt lib) env" and "\<not> form_err r" and "form_file r = Some (name, sz, content)"
    and "setFileName name sz s \<noteq> None" and "fst (ensureDirWritable env s)" and "copy_err env = None"
    and "\<not> open_err env" and "files s (upload_path lib env content s) = None"
    and "\<not> read_err env" and "write_err env = Some k"
  shows "upload lib env r s = (answer StatusBadRequest, snd (upload lib env r s))"
    "same_disk s (snd (upload lib env r s))"
    "files (snd (upload lib env r s)) = (files s)(upload_path lib env content s \<mapsto> take k content)"
proof -
  let ?s0 = "(set_peer r s)\<lparr>fileName := name\<rparr>"
  have "setFileName name sz (set_peer r s) = Some ?s0"
    using assms(4) by (auto simp: setFileName_def split: if_splits)
  moreover have "ensureDirWritable env ?s0 = (True, ?s0)"
    using assms(5) ensureDirWritable_state [of env ?s0]
    by (cases "ensureDirWritable env ?s0") (auto simp: ensureDirWritable_def Let_def split: if_splits)
  ultimately show "upload lib env r s = (answer StatusBadRequest, snd (upload lib env r s))"
    "same_disk s (snd (upload lib env r s))"
    "files (snd (upload lib env r s)) = (files s)(upload_path lib env content s \<mapsto> take k content)"
    using assms by (simp_all add: upload_def upload_store_def hashFile_def upload_id_def same_disk_def Let_def)
qed

lemma upload_files:
  "\<exists>content. \<forall>p. p \<noteq> upload_path lib env content s \<longrightarrow> files (snd (upload lib env r s)) p = files s p"
proof (cases rule: upload_store_cases [of lib env r s])
  case (stored h s1 name sz content)
  have "files (upload_commit lib env h s1) = files s1"
    by (simp add: upload_commit_def CommitJournal_def Let_def split: option.split)
  then show ?thesis
    using stored by (intro exI [of _ content]) (simp add: upload_def)
qed (auto simp: upload_def)

section \<open>Properties\<close>


text \<open>
  (C10) Nothing outlives the maximal time to live: after any history of requests without write
  faults, of passes of the cleaner and of restarts, with all uploads committed by a time, one
  pass without faults an hour later leaves no file, provided the journal never outgrew the
  size at which the cleaner empties it.
\<close>

theorem expired_files_vanish:
  assumes "lib_ok lib" and "main_New lib nenv Map.empty [] = Inr s"
    and "\<forall>ev \<in> set evs. sound_event T ev"
    and "\<forall>k \<le> length evs. length (journal (serve_events lib (take k evs) s)) \<le> DefaultMaxJournalSize"
    and "clean_faultless env" and "\<forall>i. T + 3600 * Second < cl_now env i"
  shows "fst (deleteFunc lib env (serve_events lib evs s)) = None \<and>
    files (snd (deleteFunc lib env (serve_events lib evs s))) = Map.empty"
proof (intro conjI)
  let ?s = "serve_events lib evs s"
  have "storagePath s = DefaultStoragePath" "journal s = []" "files s = Map.empty"
    using assms(2) by (auto simp: main_New_def New_def split: option.splits sum.splits if_splits)
  then have "vanish_inv lib (T + 3600 * Second) s"
    by (intro vanish_invI [of _ _ "[]"]) simp_all
  then have "vanish_inv lib (T + 3600 * Second) ?s"
    using vanish_inv_events assms(1,3,4) by blast
  then obtain es where es: "journal ?s = render lib es"
      "\<forall>e \<in> set es. entry_ok e \<and> exp e \<le> T + 3600 * Second" "\<forall>p. files ?s p \<noteq> None \<longrightarrow> (\<exists>e \<in> set es. ufn e = p)"
    unfolding vanish_inv_def by blast
  then have ok: "\<forall>e \<in> set es. entry_ok e"
    by simp
  show "fst (deleteFunc lib env ?s) = None"
    using deleteFunc_finishes [OF assms(1,5) es(1) ok] .
  have "files (snd (deleteFunc lib env ?s)) p = None" for p
  proof (cases "files ?s p")
    case None
    then show ?thesis
      using clean_loop_creates_none [OF assms(1) ok] es(1) by (simp add: deleteFunc_files split_render [OF assms(1) ok])
  next
    case (Some c)
    then obtain e where "e \<in> set es" "ufn e = p" "\<forall>i. expiry_date e < cl_now env i"
      using es(2,3) assms(6) expiry_date_le by (metis le_less_trans option.distinct(1) order_trans)
    then show ?thesis
      using deleteFunc_removes [OF assms(1,5) es(1) ok] by metis
  qed
  then show "files (snd (deleteFunc lib env ?s)) = Map.empty"
    by blast
qed

text \<open>
  (C16) Requests stay inside the storage directory: whatever the request and the faults are, a
  download that succeeds returns a file that lies directly in the directory, under the name the
  client gave, and an upload changes no other file than one directly in the directory.
\<close>

theorem requests_confined:
  assumes "lib_ok lib" and "storagePath s = rooted es" and "es \<noteq> []" and "\<forall>e \<in> set es. plain e"
    and "files s (rooted es) = None"
  shows "(Status (fst (download r s)) = StatusOK \<longrightarrow>
      plain (x_file_id r) \<and> files s (rooted (es @ [x_file_id r])) = Some (Body (fst (download r s)))) \<and>
    (files (snd (main_route lib env path r s)) p \<noteq> files s p \<longrightarrow>
      (\<exists>name. plain name \<and> p = rooted (es @ [name])))"
proof (rule conjI; rule impI)
  have join: "Join (storagePath s) n = rooted (es @ [n])" if "plain n" for n
    using that Join_rooted [OF assms(3,4), of n] assms(2) by (simp add: plain_def)
  show "plain (x_file_id r) \<and> files s (rooted (es @ [x_file_id r])) = Some (Body (fst (download r s)))"
    if ok: "Status (fst (download r s)) = StatusOK"
  proof -
    let ?n = "x_file_id r"
    have n: "?n \<noteq> []" "\<not> Contains ?n ''..''" "\<not> Contains ?n ''/''"
        "files s (Join (storagePath s) ?n) = Some (Body (fst (download r s)))"
      using ok by (auto simp: download_def Let_def split: if_splits option.splits)
    have "?n \<noteq> ''.''"
    proof
      assume "?n = ''.''"
      then have "Join (storagePath s) ?n = rooted es"
        using Join_rooted [OF assms(3,4), of ?n] assms(2) by simp
      then show False
        using n(4) assms(5) by simp
    qed
    moreover have "?n \<noteq> ''..''"
      using n(2) Contains_refl by metis
    ultimately have "plain ?n"
      using n(1,3) by (simp add: plain_def Contains_single)
    then show ?thesis
      using n(4) join by simp
  qed
  show "\<exists>name. plain name \<and> p = rooted (es @ [name])" if "files (snd (main_route lib env path r s)) p \<noteq> files s p"
  proof -
    have "files (snd (upload lib env r s)) p \<noteq> files s p"
      using that by (auto simp: main_route_def ServeHTTP_def download_def Let_def split: if_splits option.splits)
    then obtain content where "p = upload_path lib env content s"
      using upload_files [where lib = lib and env = env and r = r and s = s] by metis
    then show ?thesis
      using join upload_id_plain [OF assms(1)] by blast
  qed
qed

text \<open>
  (C39) The time to live of an upload is kept in a field that all requests share: when a second
  upload runs between the first one's store and its commit, the journal records the first file
  with the second one's time to live.
\<close>

theorem interleaved_uploads_share_ttl:
  assumes "upload_store lib env1 r1 s = (resp1, Some id1, s1)"
    and "upload_store lib env2 r2 s1 = (resp2, Some id2, s2)"
    and "\<not> jrnl_open_err env1" and "jrnl_write_err env1 = None"
  shows "journal (upload_commit lib env1 id1 s2) = journal s @
    journal_line lib (jrnl_now env1 + upload_ttl lib (x_ttl r2)) (upload_ttl lib (x_ttl r2))
      (Join DefaultStoragePath id1)"
proof -
  have frame: "journal t' = journal t \<and> fileTTL t' = upload_ttl lib (x_ttl r)"
    if "upload_store lib env r t = (resp, Some i, t')" for env r t resp i t'
    using that by (cases rule: upload_store_cases [of lib env r t]) (simp_all add: same_disk_def)
  show ?thesis
    using frame [OF assms(1)] frame [OF assms(2)] assms(3)
    by (simp add: upload_commit_journal [OF assms(4)])
qed

text \<open>
  An upload whose write fails is answered with an error but its partial file stays: it has
  no entry in the journal, so no later request, pass of the cleaner or restart removes it.
\<close>

theorem failed_upload_never_removed:
  assumes "lib_ok lib" and "storagePath s = DefaultStoragePath"
    and "journal s = render lib es" and "\<forall>e \<in> set es. entry_ok e"
    and "\<not> IsDiskFull (flt lib) env" and "\<not> form_err r" and "form_file r = Some (name, sz, content)"
    and "setFileName name sz s \<noteq> None" and "fst (ensureDirWritable env s)" and "copy_err env = None"
    and "\<not> open_err env" and "p = upload_path lib env content s" and "files s p = None"
    and "\<forall>e \<in> set es. ufn e \<noteq> p" and "\<not> read_err env" and "write_err env = Some k"
    and "\<forall>ev \<in> set evs. calm None ev"
  shows "Status (fst (upload lib env r s)) = StatusBadRequest \<and>
    files (serve_events lib evs (snd (upload lib env r s))) p = Some (take k content)"
proof -
  note up = upload_write_fault [OF assms(5-11) assms(13) [unfolded assms(12)] assms(15,16)]
  have "keeps lib None p (take k content) (snd (upload lib env r s))"
    unfolding keeps_def using up(2,3) assms(2-4,12,14) by (auto simp: same_disk_def)
  then have "keeps lib None p (take k content) (serve_events lib evs (snd (upload lib env r s)))"
    using keeps_events [OF assms(1)] upload_path_not_dir [OF assms(1)] assms(2,12,17) by metis
  then show ?thesis
    using up(1) by (metis fst_conv keeps_def vanish_response.select_convs(1))
qed

section \<open>Sample runs\<close>

text \<open>A library to evaluate with: numbers in binary, and a hash that counts bytes.\<close>

fun nat_bits :: "nat \<Rightarrow> string" where
  "nat_bits n = (if n = 0 then [] else (if even n then CHR ''0'' else CHR ''1'') # nat_bits (n div 2))"

fun bits_nat :: "string \<Rightarrow> nat" where
  "bits_nat [] = 0"
| "bits_nat (c # cs) = (if c = CHR ''1'' then 1 else 0) + 2 * bits_nat cs"

definition int_bits :: "int \<Rightarrow> string" where
  "int_bits i = (if i < 0 then CHR ''-'' else CHR ''+'') # nat_bits (nat \<bar>i\<bar>)"

definition bits_int :: "string \<Rightarrow> string + int" where
  "bits_int s = (case s of [] \<Rightarrow> Inl ''empty'' | c # cs \<Rightarrow> Inr ((if c = CHR ''-'' then - 1 else 1) * int (bits_nat cs)))"

definition sample_lib :: "rat vanish_lib" where
  "sample_lib = \<lparr>flt = rat_ops, hh_New_ok = (\<lambda>k. length k = 32), hh_Sum = (\<lambda>k bs. [of_nat (length bs)]),
     UnixDate_Format = (\<lambda>t. int_bits (t div Second)),
     UnixDate_Parse = (\<lambda>s. case bits_int s of Inl e \<Rightarrow> Inl e | Inr i \<Rightarrow> Inr (i * Second)),
     ParseDuration = bits_int, Duration_String = int_bits\<rparr>"

declare nat_bits.simps [simp del]

lemma nat_bits_0 [simp]: "nat_bits 0 = []"
  by (simp add: nat_bits.simps)

lemma bits_nat_bits: "bits_nat (nat_bits n) = n"
proof (induction n rule: nat_bits.induct)
  case (1 n)
  then show ?case
    by (cases "n = 0") (auto simp: nat_bits.simps [of n])
qed

lemma bits_int_bits: "bits_int (int_bits i) = Inr i"
  by (simp add: bits_int_def int_bits_def bits_nat_bits)

lemma nat_bits_chars: "c \<in> set (nat_bits n) \<Longrightarrow> c = CHR ''0'' \<or> c = CHR ''1''"
proof (induction n rule: nat_bits.induct)
  case (1 n)
  then show ?case
    by (cases "n = 0") (auto simp: nat_bits.simps [of n] split: if_splits)
qed

lemma int_bits_chars: "CHR '','' \<notin> set (int_bits i)" "CHR 0x0A \<notin> set (int_bits i)"
  using nat_bits_chars [of "CHR '',''" "nat \<bar>i\<bar>"] nat_bits_chars [of "CHR 0x0A" "nat \<bar>i\<bar>"]
  by (auto simp: int_bits_def)

lemma sample_lib_ok: "lib_ok sample_lib"
  by (simp add: lib_ok_def sample_lib_def bits_int_bits int_bits_chars)

definition sample_env :: upload_env where
  "sample_env = \<lparr>Blocks = 100, Bfree = 50, Bsize = 1, ns_uuid = ''u'', dir_err = False, mixer = [7], copy_err = None,
     open_err = False, read_err = False, write_err = None, jrnl_open_err = False, jrnl_write_err = None, jrnl_now = 0\<rparr>"

definition sample_request :: vanish_request where
  "sample_request = \<lparr>Method = ''post'', X_Real_IP = [], RemoteAddr = ''peer'', form_err = False,
     form_file = Some (''a.txt'', 2, [1, 2]), x_ttl = int_bits (60 * Second), x_file_id = []\<rparr>"

definition sample_state :: vanish_state where
  "sample_state = \<lparr>files = Map.empty, journal = [], storagePath = DefaultStoragePath,
     hh_key = the (DecodeString DefaultHHSeed), hh = [],
     fileTTL = 0, peerAddr = [], fileName = []\<rparr>"

definition sample_pass :: "int \<Rightarrow> clean_env" where
  "sample_pass t = \<lparr>cl_open_err = False, cl_read_err = False, cl_now = (\<lambda>_. t), cl_remove_err = (\<lambda>_. False),
     cl_close_err = False, cl_stat_err = False, cl_truncate_err = False\<rparr>"

definition sample_new :: new_env where
  "sample_new = \<lparr>mkdir_log_err = False, mkdir_storage_err = False, stat_journal_err = True, mkdir_again_err = False\<rparr>"

lemma sample_not_full: "\<not> IsDiskFull (flt sample_lib) (sample_env\<lparr>write_err := w\<rparr>)"
  by (simp add: IsDiskFull_def sample_lib_def sample_env_def rat_ops_def)

lemma sample_ttl: "upload_ttl sample_lib (int_bits (60 * Second)) = 60 * Second"
  by (simp add: upload_ttl_def sample_lib_def bits_int_bits DefaultMaxTTLHours_def) (simp add: int_bits_def Second_def)


lemma sample_Join: "Join DefaultStoragePath ''03'' = ''/tmp/vanishling/uploads/03''"
   "Join DefaultStoragePath ''u'' = ''/tmp/vanishling/uploads/u''"
  by (simp_all add: Join_default_plain plain_def rooted_def)

lemma sample_hash: "EncodeToString [3] = ''03''"
  by (simp add: EncodeToString_def hex_digit_def char_of_def bit_0)

definition sample_stored :: "byte list \<Rightarrow> vanish_state" where
  "sample_stored c = sample_state\<lparr>files := [''/tmp/vanishling/uploads/03'' \<mapsto> c], hh := [7, 1, 2],
     peerAddr := ''peer'', fileName := ''a.txt''\<rparr>"

lemma sample_setFileName: "setFileName ''a.txt'' 2 s = Some (s\<lparr>fileName := ''a.txt''\<rparr>)"
  by (simp add: setFileName_def)

lemma sample_sum: "EncodeToString (hh_Sum sample_lib k [7, 1, 2]) = ''03''"
  by (simp add: sample_lib_def sample_hash)

lemma sample_upload_store:
  "upload_store sample_lib sample_env (sample_request\<lparr>x_ttl := t\<rparr>) sample_state =
     (\<lparr>Status = StatusOK, file_id = Some ''03'', Body = []\<rparr>, Some ''03'',
      SetFileTTL (upload_ttl sample_lib t) (sample_stored [1, 2]))"
  using sample_not_full [of None]
  by (simp add: upload_store_def sample_setFileName sample_request_def sample_state_def sample_env_def set_peer_def
      hashFile_def ensureDirWritable_def sample_Join sample_sum sample_stored_def fun_upd_idem Let_def)

lemma sample_upload:
  "upload sample_lib sample_env sample_request sample_state =
     (\<lparr>Status = StatusOK, file_id = Some ''03'', Body = []\<rparr>,
      upload_commit sample_lib sample_env ''03'' (SetFileTTL (60 * Second) (sample_stored [1, 2])))"
  using sample_upload_store [of "x_ttl sample_request"] sample_ttl
  by (simp add: upload_def sample_request_def)

lemma sample_fields [simp]:
  "jrnl_write_err sample_env = None" "jrnl_open_err sample_env = False" "jrnl_now sample_env = 0"
  "read_err sample_env = False" "write_err sample_env = None" "open_err sample_env = False" "copy_err sample_env = None"
  "form_file sample_request = Some (''a.txt'', 2, [1, 2])" "x_ttl sample_request = int_bits (60 * Second)"
  "form_err sample_request = False"
  "storagePath sample_state = DefaultStoragePath" "journal sample_state = []" "files sample_state = Map.empty"
  "cl_now (sample_pass t) = (\<lambda>_. t)"
  by (simp_all add: sample_env_def sample_request_def sample_state_def sample_pass_def)


lemma sample_seed: "map_option length (DecodeString DefaultHHSeed) = Some 32"
  by code_simp

lemma sample_New: "main_New sample_lib sample_new Map.empty [] = Inr sample_state"
  using sample_seed
  by (auto simp: main_New_def New_def sample_lib_def NewJournaler_def sample_new_def sample_state_def)

lemma sample_journal:
  "journal (snd (upload sample_lib sample_env sample_request sample_state)) =
     journal_line sample_lib (60 * Second) (60 * Second) ''/tmp/vanishling/uploads/03''"
  by (simp add: sample_upload upload_commit_journal SetFileTTL_def sample_stored_def sample_Join)

lemma length_nat_bits: "n < 2 ^ k \<Longrightarrow> length (nat_bits n) \<le> k"
proof (induction k arbitrary: n)
  case (Suc k)
  then show ?case
    by (cases "n = 0") (simp_all add: nat_bits.simps [of n] less_mult_imp_div_less mult.commute)
qed simp

lemma sample_journal_length:
  "length (journal_line sample_lib (60 * Second) (60 * Second) ''/tmp/vanishling/uploads/03'') \<le> DefaultMaxJournalSize"
  using length_nat_bits [of 60 6] length_nat_bits [of "60000000000" 36]
  by (simp add: journal_line_def sample_lib_def int_bits_def Second_def DefaultMaxJournalSize_def)

lemma sample_route: "main_route sample_lib sample_env ''/'' sample_request s = upload sample_lib sample_env sample_request s"
proof -
  have "map upper_char ''post'' = ''POST''"
    by code_simp
  then show ?thesis
    by (simp add: main_route_def ServeHTTP_def sample_request_def)
qed

theorem expired_files_vanish_witness:
  "files (snd (deleteFunc sample_lib (sample_pass (3601 * Second)) (serve_events sample_lib
     [Request sample_env ''/'' sample_request, CleanerTick (sample_pass 0)] sample_state))) = Map.empty"
proof (rule expired_files_vanish [OF sample_lib_ok sample_New, of _ 0, THEN conjunct2])
  let ?s1 = "snd (upload sample_lib sample_env sample_request sample_state)"
  have "length (journal ?s1) \<le> DefaultMaxJournalSize"
    using sample_journal sample_journal_length by simp
  moreover have "length (journal (snd (deleteFunc sample_lib (sample_pass 0) ?s1))) \<le> DefaultMaxJournalSize"
    using calculation deleteFunc_frame(2) [of sample_lib "sample_pass 0" ?s1] by auto
  ultimately show "\<forall>k \<le> length [Request sample_env ''/'' sample_request, CleanerTick (sample_pass 0)].
      length (journal (serve_events sample_lib
        (take k [Request sample_env ''/'' sample_request, CleanerTick (sample_pass 0)]) sample_state)) \<le> DefaultMaxJournalSize"
    by (auto simp: serve_events_def sample_route le_Suc_eq numeral_2_eq_2 take_Cons')
qed (simp_all add: clean_faultless_def sample_pass_def Second_def)

theorem requests_confined_witness:
  "Status (fst (download (sample_request\<lparr>x_file_id := ''03''\<rparr>) (sample_stored [1, 2]))) = StatusOK \<and>
   files (sample_stored [1, 2]) (rooted ([''tmp'', ''vanishling'', ''uploads''] @ [''03''])) = Some [1, 2]"
proof -
  have "fst (download (sample_request\<lparr>x_file_id := ''03''\<rparr>) (sample_stored [1, 2])) =
      \<lparr>Status = StatusOK, file_id = None, Body = [1, 2]\<rparr>"
    by (simp add: download_def sample_stored_def sample_Join)
  then show ?thesis
    using requests_confined [OF sample_lib_ok, of "sample_stored [1, 2]" "[''tmp'', ''vanishling'', ''uploads'']"
        "sample_request\<lparr>x_file_id := ''03''\<rparr>"] plain_default
    by (simp add: sample_stored_def DefaultStoragePath_rooted rooted_def)
qed

lemma sample_second_store:
  "\<exists>s2. upload_store sample_lib sample_env (sample_request\<lparr>x_ttl := t\<rparr>) (SetFileTTL u (sample_stored [1, 2])) =
     (\<lparr>Status = StatusOK, file_id = Some ''06'', Body = []\<rparr>, Some ''06'', s2)"
proof -
  have "EncodeToString (hh_Sum sample_lib k [7, 1, 2, 7, 1, 2]) = ''06''" for k
    by (simp add: sample_lib_def EncodeToString_def hex_digit_def char_of_def bit_0)
  moreover have "Join DefaultStoragePath ''06'' = ''/tmp/vanishling/uploads/06''"
    by (simp add: Join_default_plain plain_def rooted_def)
  ultimately show ?thesis
    using sample_not_full [of None]
    by (simp add: upload_store_def sample_setFileName sample_request_def sample_state_def sample_env_def set_peer_def
        hashFile_def ensureDirWritable_def sample_Join sample_stored_def SetFileTTL_def fun_upd_idem Let_def)
qed

theorem interleaved_uploads_share_ttl_witness:
  "\<exists>s1 s2. snd (upload_store sample_lib sample_env sample_request sample_state) = (Some ''03'', s1) \<and>
     snd (upload_store sample_lib sample_env (sample_request\<lparr>x_ttl := int_bits Second\<rparr>) s1) = (Some ''06'', s2) \<and>
     journal (upload_commit sample_lib sample_env ''03'' s2) =
       journal_line sample_lib Second Second (Join DefaultStoragePath ''03'')"
proof -
  let ?s1 = "SetFileTTL (upload_ttl sample_lib (x_ttl sample_request)) (sample_stored [1, 2])"
  have first: "upload_store sample_lib sample_env sample_request sample_state =
      (\<lparr>Status = StatusOK, file_id = Some ''03'', Body = []\<rparr>, Some ''03'', ?s1)"
    using sample_upload_store [of "x_ttl sample_request"] by (simp add: sample_request_def)
  obtain s2 where second: "upload_store sample_lib sample_env (sample_request\<lparr>x_ttl := int_bits Second\<rparr>) ?s1 =
      (\<lparr>Status = StatusOK, file_id = Some ''06'', Body = []\<rparr>, Some ''06'', s2)"
    using sample_second_store by blast
  have "upload_ttl sample_lib (int_bits Second) = Second"
    by (simp add: upload_ttl_def sample_lib_def bits_int_bits DefaultMaxTTLHours_def) (simp add: int_bits_def Second_def)
  then show ?thesis
    using interleaved_uploads_share_ttl [OF first second] first second by simp
qed

theorem failed_upload_never_removed_witness:
  "files (serve_events sample_lib [CleanerTick (sample_pass (10 ^ 20)), Restart sample_new]
     (snd (upload sample_lib (sample_env\<lparr>write_err := Some 1\<rparr>) sample_request sample_state)))
     (Join DefaultStoragePath ''03'') = Some [1]"
proof -
  have path: "upload_path sample_lib (sample_env\<lparr>write_err := Some 1\<rparr>) [1, 2] sample_state = Join DefaultStoragePath ''03''"
    using sample_sum by (simp add: upload_id_def sample_env_def sample_state_def)
  have "fst (ensureDirWritable (sample_env\<lparr>write_err := Some 1\<rparr>) sample_state)"
    by (simp add: ensureDirWritable_def sample_env_def Let_def)
  then show ?thesis
    using failed_upload_never_removed [OF sample_lib_ok, of sample_state "[]" "sample_env\<lparr>write_err := Some 1\<rparr>"
        sample_request "''a.txt''" 2 "[1, 2]" "Join DefaultStoragePath ''03''" 1
        "[CleanerTick (sample_pass (10 ^ 20)), Restart sample_new]"] sample_not_full path
    by (simp add: sample_setFileName)
qed

end
