(* ===== verification/Vanishling_Main.thy ===== *)
theory Vanishling_Main
  imports Vanishling
begin

text \<open>
  \<open>main\<close> of \<open>src/vanishling/main.go\<close>, with \<open>NewCleaner\<close> and the health check: the options, the
  start of the service and the requests it then answers.

  \<open>log.Fatal().Err(err)\<close> builds an event of zerolog and never sends it: it neither logs nor exits.
  So \<open>main\<close> goes on when \<open>core.New\<close> fails, with a nil service behind the route of the root. The
  option parser is an argument. A panic in a handler closes its connection only.
\<close>

section \<open>Start\<close>

record vanish_cli =
  ListenAddr :: string
  Debug :: bool

datatype log_level = InfoLevel | DebugLevel

definition global_level :: "vanish_cli \<Rightarrow> log_level" where
  "global_level cli = (if Debug cli then DebugLevel else InfoLevel)"

text \<open>\<open>NewCleaner\<close> ignores the errors of its directories; the file it reads and its interval.\<close>

definition DefaultLogCleanerInterval :: duration where
  "DefaultLogCleanerInterval = 5 * Second"

definition NewCleaner :: "new_env \<Rightarrow> string \<times> duration \<times> nat" where
  "NewCleaner env =
     (Join DefaultLogPath DefaultLogFile, DefaultLogCleanerInterval,
      of_bool (mkdir_log_err env) + of_bool (mkdir_storage_err env))"

text \<open>The cleaner is started once the seed and the hash are accepted, also if \<open>New\<close> fails after that.\<close>

definition cleaner_started :: "'f vanish_lib \<Rightarrow> string \<Rightarrow> bool" where
  "cleaner_started lib seed = (case DecodeString seed of None \<Rightarrow> False | Some hhSeed \<Rightarrow> hh_New_ok lib hhSeed)"

text \<open>
  The running program: whether the service is there, whether the cleaner runs, and the state,
  of which only the disk means anything without the service.
\<close>

record vanish_proc =
  has_service :: bool
  has_cleaner :: bool
  proc_state :: vanish_state

definition vanish_start :: "'f vanish_lib \<Rightarrow> new_env \<Rightarrow> (string \<Rightarrow> byte list option) \<Rightarrow> string \<Rightarrow> vanish_proc" where
  "vanish_start lib env fs jrnl =
     (case main_New lib env fs jrnl of
        Inr s \<Rightarrow> \<lparr>has_service = True, has_cleaner = True, proc_state = s\<rparr>
      | Inl err \<Rightarrow>
          \<lparr>has_service = False, has_cleaner = cleaner_started lib DefaultHHSeed,
           proc_state = \<lparr>files = fs, journal = jrnl, storagePath = [], hh_key = [], hh = [], fileTTL = 0,
                         peerAddr = [], fileName = []\<rparr>\<rparr>)"

section \<open>Requests\<close>

datatype main_reply = Replied vanish_response | HandlerPanic

text \<open>A nil service reads no field of itself for other methods than those it serves.\<close>

definition nil_ServeHTTP :: "vanish_request \<Rightarrow> main_reply" where
  "nil_ServeHTTP r =
     (let reqMethod = map upper_char (Method r)
      in if reqMethod = ''POST'' \<or> reqMethod = ''PUT'' \<or> reqMethod = ''GET'' then HandlerPanic
         else Replied (answer StatusBadRequest))"

definition main_request ::
  "'f vanish_lib \<Rightarrow> upload_env \<Rightarrow> string \<Rightarrow> vanish_request \<Rightarrow> vanish_proc \<Rightarrow> main_reply \<times> vanish_proc" where
  "main_request lib env path r p =
     (if has_service p
      then case main_route lib env path r (proc_state p) of (resp, s) \<Rightarrow> (Replied resp, p\<lparr>proc_state := s\<rparr>)
      else if path = ''/ping'' \<or> path = ''/health'' then (Replied (health_ServeHTTP r), p)
      else (nil_ServeHTTP r, p))"

definition main_tick :: "'f vanish_lib \<Rightarrow> clean_env \<Rightarrow> vanish_proc \<Rightarrow> vanish_proc" where
  "main_tick lib env p =
     (if has_cleaner p then p\<lparr>proc_state := Start lib [Tick env] (proc_state p)\<rparr> else p)"

text \<open>
  The program over requests and ticks: its replies and its state. Then \<open>ListenAndServe\<close> fails,
  which logs nothing either, and \<open>main\<close> returns.
\<close>

datatype proc_event = ProcRequest upload_env string vanish_request | ProcTick clean_env

fun vanishling_run :: "'f vanish_lib \<Rightarrow> proc_event list \<Rightarrow> vanish_proc \<Rightarrow> main_reply list \<times> vanish_proc" where
  "vanishling_run lib [] p = ([], p)"
| "vanishling_run lib (ProcRequest env path r # es) p =
     (case main_request lib env path r p of
        (reply, p) \<Rightarrow> (case vanishling_run lib es p of (replies, p) \<Rightarrow> (reply # replies, p)))"
| "vanishling_run lib (ProcTick env # es) p = vanishling_run lib es (main_tick lib env p)"

definition vanishling_main ::
  "'f vanish_lib \<Rightarrow> vanish_cli \<Rightarrow> new_env \<Rightarrow> (string \<Rightarrow> byte list option) \<Rightarrow> string \<Rightarrow> proc_event list
   \<Rightarrow> (log_level \<times> string) \<times> main_reply list \<times> vanish_proc" where
  "vanishling_main lib cli env fs jrnl es =
     ((global_level cli, ListenAddr cli), vanishling_run lib es (vanish_start lib env fs jrnl))"

section \<open>Lemmas\<close>

lemma clean_loop_subset: "snd (clean_loop lib rm now es fs) \<subseteq>\<^sub>m fs"
proof (induction es arbitrary: now fs)
  case (Cons e es)
  have "snd (clean_loop lib rm (\<lambda>i. now (Suc i)) es (fs(fp := None))) \<subseteq>\<^sub>m fs" for fp
    using Cons.IH [of "\<lambda>i. now (Suc i)" "fs(fp := None)"] by (rule map_le_trans) (auto simp: map_le_def)
  then show ?case
    using Cons.IH by (simp add: clean_loop.simps split: list.split sum.split)
qed (simp add: clean_loop.simps)

lemma Start_tick_files: "files (Start lib [Tick env] s) \<subseteq>\<^sub>m files s"
  using clean_loop_subset by (auto simp: deleteFunc_files)

text \<open>With the service there, the program is the service of \<open>Vanishling\<close>.\<close>

definition to_event :: "proc_event \<Rightarrow> vanish_event" where
  "to_event e = (case e of ProcRequest env path r \<Rightarrow> Request env path r | ProcTick env \<Rightarrow> CleanerTick env)"

lemma vanishling_run_serves:
  assumes "has_service p" and "has_cleaner p"
  shows "proc_state (snd (vanishling_run lib es p)) = serve_events lib (map to_event es) (proc_state p)"
  using assms
  by (induction lib es p rule: vanishling_run.induct)
    (auto simp: serve_events_def to_event_def main_request_def main_tick_def split: prod.splits)

lemma vanishling_run_nil:
  assumes "\<not> has_service p"
  shows "files (proc_state (snd (vanishling_run lib es p))) \<subseteq>\<^sub>m files (proc_state p) \<and>
    (\<forall>resp. Replied resp \<in> set (fst (vanishling_run lib es p)) \<longrightarrow> resp = answer StatusOK \<or> resp = answer StatusBadRequest)"
  using assms
proof (induction lib es p rule: vanishling_run.induct)
  case (2 lib env path r es p)
  have "snd (main_request lib env path r p) = p"
    and "\<And>resp. fst (main_request lib env path r p) = Replied resp \<Longrightarrow> resp = answer StatusOK \<or> resp = answer StatusBadRequest"
    using 2(2) by (auto simp: main_request_def nil_ServeHTTP_def health_ServeHTTP_def Let_def split: if_splits)
  then show ?case
    using 2 by (auto split: prod.splits)
next
  case (3 lib env es p)
  have "files (proc_state (main_tick lib env p)) \<subseteq>\<^sub>m files (proc_state p)"
    using Start_tick_files [of lib env "proc_state p"] by (simp add: main_tick_def)
  then show ?case
    using 3 by (auto simp: main_tick_def intro: map_le_trans)
qed simp

section \<open>Properties\<close>

text \<open>
  A program whose service could not be created keeps running and looks healthy: it answers
  every health check with success, never stores a file and never answers another request with
  success, while a cleaner that was started goes on removing files.
\<close>

theorem failed_start_looks_healthy:
  assumes "main_New lib env fs jrnl = Inl err"
  shows "vanishling_main lib cli env fs jrnl [ProcRequest up ''/health'' r] =
      ((global_level cli, ListenAddr cli), [Replied (answer StatusOK)], vanish_start lib env fs jrnl)"
    and "files (proc_state (snd (snd (vanishling_main lib cli env fs jrnl es)))) \<subseteq>\<^sub>m fs"
    and "path \<noteq> ''/ping'' \<Longrightarrow> path \<noteq> ''/health'' \<Longrightarrow>
      fst (main_request lib up path r (vanish_start lib env fs jrnl)) \<in> {HandlerPanic, Replied (answer StatusBadRequest)}"
  using assms vanishling_run_nil [of "vanish_start lib env fs jrnl" lib es]
  by (simp_all add: vanishling_main_def vanish_start_def main_request_def health_ServeHTTP_def nil_ServeHTTP_def Let_def)

text \<open>Otherwise the program serves the history of its requests and ticks.\<close>

lemma vanishling_main_serves:
  assumes "main_New lib env fs jrnl = Inr s"
  shows "proc_state (snd (snd (vanishling_main lib cli env fs jrnl es))) = serve_events lib (map to_event es) s"
  using assms vanishling_run_serves [of "vanish_start lib env fs jrnl" lib es] by (simp add: vanishling_main_def vanish_start_def)

end
