(* ===== verification/Ldap_Passwd.thy ===== *)
theory Ldap_Passwd
  imports Go_Prelude "HOL-Library.AList"
begin

text \<open>
  The password change service of \<open>src/ldap-explore/main.go\<close>: the checks of the form, the
  verification of the user against the directory and the modification of the password.

  The directory server and the network are a world of an arbitrary type, which every call of
  \<open>gopkg.in/ldap.v2\<close> may change and which answers it; the calls of a request are recorded in
  order with their results. The password score of \<open>zxcvbn\<close> is a function. Errors are their
  messages. The mutex of a user object is never contended, since each request has its own.
\<close>

section \<open>Configuration and state\<close>

record LdapConfig =
  LdapURI :: string
  BindDN :: string
  BindPW :: string
  BaseDN :: string
  SearchDN :: string

record ldapPasswdUser =
  username :: string
  currentPasswd :: string
  newPasswd :: string
  ldapUserDN :: string
  remoteIP :: string

definition newLdapPasswdUser :: "string \<Rightarrow> string \<Rightarrow> string \<Rightarrow> ldapPasswdUser" where
  "newLdapPasswdUser u c n =
     \<lparr>username = u, currentPasswd = c, newPasswd = n, ldapUserDN = [], remoteIP = []\<rparr>"

definition errPasswordReuse :: string where "errPasswordReuse = ''Old password reused''"
definition errWeakPasswordUsed :: string where "errWeakPasswordUsed = ''Weak password provided''"
definition errInvalidUser :: string where "errInvalidUser = ''Invalid User''"
definition errPasswordDontMatch :: string where "errPasswordDontMatch = ''New passwords do not match''"

text \<open>\<open>errors.Wrapf\<close>.\<close>

definition Wrapf :: "string \<Rightarrow> string \<Rightarrow> string" where
  "Wrapf err msg = msg @ '': '' @ err"

datatype ldap_call =
  CDial string "string option"
| CStartTLS "string option"
| CBind string string "string option"
| CSearch string string "string + string list"
| CPasswordModify string string string "string option"
| CClose

record 'w ldap_lib =
  ld_Dial :: "string \<Rightarrow> 'w \<Rightarrow> string option \<times> 'w"
  ld_StartTLS :: "'w \<Rightarrow> string option \<times> 'w"
  ld_Bind :: "string \<Rightarrow> string \<Rightarrow> 'w \<Rightarrow> string option \<times> 'w"
  ld_Search :: "string \<Rightarrow> string \<Rightarrow> 'w \<Rightarrow> (string + string list) \<times> 'w"
  ld_PasswordModify :: "string \<Rightarrow> string \<Rightarrow> string \<Rightarrow> 'w \<Rightarrow> string option \<times> 'w"
  ld_Close :: "'w \<Rightarrow> 'w"
  zxcvbn_Score :: "string \<Rightarrow> int"

record 'w ldap_state =
  world :: 'w
  calls :: "ldap_call list"

text \<open>A call: the world answers and changes, and the call is recorded with its result.\<close>

definition call :: "('w \<Rightarrow> 'r \<times> 'w) \<Rightarrow> ('r \<Rightarrow> ldap_call) \<Rightarrow> 'w ldap_state \<Rightarrow> 'r \<times> 'w ldap_state" where
  "call f c s = (case f (world s) of (r, w) \<Rightarrow> (r, \<lparr>world = w, calls = calls s @ [c r]\<rparr>))"

definition Close :: "'w ldap_lib \<Rightarrow> 'w ldap_state \<Rightarrow> 'w ldap_state" where
  "Close lib s = \<lparr>world = ld_Close lib (world s), calls = calls s @ [CClose]\<rparr>"

text \<open>
  \<open>fmt.Sprintf\<close> of a format and one string, for the verbs \<open>%s\<close> and \<open>%%\<close> that a search
  filter has; any other verb is printed as the bad verb it is. The flag says whether the
  argument is still to be used.
\<close>

fun Sprintf1 :: "bool \<Rightarrow> string \<Rightarrow> string \<Rightarrow> string" where
  "Sprintf1 fresh arg [] = (if fresh then ''%!(EXTRA string='' @ arg @ '')'' else [])"
| "Sprintf1 fresh arg [c] =
     (if c = CHR ''%'' then ''%!(NOVERB)'' else [c]) @
     (if fresh then ''%!(EXTRA string='' @ arg @ '')'' else [])"
| "Sprintf1 fresh arg (c # d # cs) =
     (if c \<noteq> CHR ''%'' then c # Sprintf1 fresh arg (d # cs)
      else if d = CHR ''%'' then CHR ''%'' # Sprintf1 fresh arg cs
      else if \<not> fresh then ''%!'' @ d # ''(MISSING)'' @ Sprintf1 False arg cs
      else if d = CHR ''s'' then arg @ Sprintf1 False arg cs
      else ''%!'' @ d # ''(string='' @ arg @ '')'' @ Sprintf1 False arg cs)"

section \<open>The client\<close>

definition bootstrapLdapClient ::
  "'w ldap_lib \<Rightarrow> LdapConfig \<Rightarrow> 'w ldap_state \<Rightarrow> (string + unit) \<times> 'w ldap_state" where
  "bootstrapLdapClient lib config s =
     (case call (ld_Dial lib (LdapURI config)) (CDial (LdapURI config)) s of
        (Some err, s) \<Rightarrow> (Inl err, s)
      | (None, s) \<Rightarrow>
          (case call (ld_StartTLS lib) CStartTLS s of
             (Some err, s) \<Rightarrow> (Inl err, s)
           | (None, s) \<Rightarrow>
               (case call (ld_Bind lib (BindDN config) (BindPW config)) (CBind (BindDN config) (BindPW config)) s of
                  (Some err, s) \<Rightarrow> (Inl (Wrapf err ''failed to bind with ldap''), s)
                | (None, s) \<Rightarrow> (Inr (), s))))"

text \<open>\<open>isValidLDAPUser\<close> on an open connection, and with the connection and its deferred close.\<close>

definition search_and_bind ::
  "'w ldap_lib \<Rightarrow> LdapConfig \<Rightarrow> ldapPasswdUser \<Rightarrow> 'w ldap_state \<Rightarrow> (string + ldapPasswdUser) \<times> 'w ldap_state" where
  "search_and_bind lib config ldu s =
     (let flt = Sprintf1 True (username ldu) (SearchDN config)
      in case call (ld_Search lib (BaseDN config) flt) (CSearch (BaseDN config) flt) s of
           (Inl err, s) \<Rightarrow> (Inl (Wrapf err ''error occurred when searching''), s)
         | (Inr entries, s) \<Rightarrow>
             if length entries \<noteq> 1 then (Inl errInvalidUser, s)
             else let userDN = entries ! 0
                  in (case call (ld_Bind lib userDN (currentPasswd ldu)) (CBind userDN (currentPasswd ldu)) s of
                        (Some err, s) \<Rightarrow> (Inl (Wrapf err ''invalid user''), s)
                      | (None, s) \<Rightarrow>
                          (case call (ld_Bind lib (BindDN config) (BindPW config)) (CBind (BindDN config) (BindPW config)) s of
                             (Some err, s) \<Rightarrow> (Inl err, s)
                           | (None, s) \<Rightarrow>
                               if length userDN > 0 then (Inr (ldu\<lparr>ldapUserDN := userDN\<rparr>), s)
                               else (Inl errInvalidUser, s))))"

definition isValidLDAPUser ::
  "'w ldap_lib \<Rightarrow> LdapConfig \<Rightarrow> ldapPasswdUser \<Rightarrow> 'w ldap_state \<Rightarrow> (string + ldapPasswdUser) \<times> 'w ldap_state" where
  "isValidLDAPUser lib config ldu s =
     (case bootstrapLdapClient lib config s of
        (Inl err, s) \<Rightarrow> (Inl err, s)
      | (Inr _, s) \<Rightarrow> (case search_and_bind lib config ldu s of (r, s) \<Rightarrow> (r, Close lib s)))"

definition changeLdapPasswd ::
  "'w ldap_lib \<Rightarrow> LdapConfig \<Rightarrow> ldapPasswdUser \<Rightarrow> 'w ldap_state \<Rightarrow> string option \<times> 'w ldap_state" where
  "changeLdapPasswd lib config ldu s =
     (case bootstrapLdapClient lib config s of
        (Inl err, s) \<Rightarrow> (Some err, s)
      | (Inr _, s) \<Rightarrow>
          (case call (ld_PasswordModify lib (ldapUserDN ldu) (currentPasswd ldu) (newPasswd ldu))
                  (CPasswordModify (ldapUserDN ldu) (currentPasswd ldu) (newPasswd ldu)) s of
             (Some err, s) \<Rightarrow> (Some err, Close lib s)
           | (None, s) \<Rightarrow> (None, Close lib s)))"

section \<open>The handler\<close>

text \<open>The body of a response; the status is always 200. The page is in \<open>Ldap_Form\<close>.\<close>

datatype ldap_body = PasswdChangeHTML | Text string

definition modified :: string where "modified = ''Your password has been modified''"

definition changePassword ::
  "'w ldap_lib \<Rightarrow> LdapConfig \<Rightarrow> ldapPasswdUser \<Rightarrow> 'w ldap_state \<Rightarrow> ldap_body \<times> 'w ldap_state" where
  "changePassword lib config ldu s =
     (case isValidLDAPUser lib config ldu s of
        (Inl err, s) \<Rightarrow> (Text errInvalidUser, s)
      | (Inr ldu, s) \<Rightarrow>
          (case changeLdapPasswd lib config ldu s of
             (Some err, s) \<Rightarrow> (Text err, s)
           | (None, s) \<Rightarrow> (Text modified, s)))"

record ldap_request =
  Method :: string
  Form_Get :: "string \<Rightarrow> string"
  X_Forwarded_For :: string
  RemoteAddr :: string

definition getRemoteIP :: "ldap_request \<Rightarrow> string" where
  "getRemoteIP req =
     (let xff = X_Forwarded_For req in if length xff > 0 then xff else RemoteAddr req)"

definition checkPasswdLen :: "string \<Rightarrow> string \<Rightarrow> string \<Rightarrow> bool \<times> ldap_body option" where
  "checkPasswdLen current newPasswd1 newPasswd2 =
     (if current = newPasswd1 \<or> current = newPasswd2 then (False, Some (Text errPasswordReuse))
      else if newPasswd1 \<noteq> newPasswd2 then (False, Some (Text errPasswordDontMatch))
      else (True, None))"

definition checkStrength :: "'w ldap_lib \<Rightarrow> string \<Rightarrow> (bool \<times> int) \<times> ldap_body option" where
  "checkStrength lib newPasswd2 =
     (let score = zxcvbn_Score lib newPasswd2
      in if score < 3 then ((False, - 1), Some (Text errWeakPasswordUsed))
         else ((True, score), None))"

definition changePasswordHandleFunc ::
  "'w ldap_lib \<Rightarrow> LdapConfig \<Rightarrow> ldap_request \<Rightarrow> 'w ldap_state \<Rightarrow> ldap_body \<times> 'w ldap_state" where
  "changePasswordHandleFunc lib config req s =
     (if ToLower (Method req) = ''post'' then
        let user = Form_Get req ''username'';
            current = Form_Get req ''currentpass'';
            newPasswd1 = Form_Get req ''newpass1'';
            newPasswd2 = Form_Get req ''newpass2''
        in (case checkPasswdLen current newPasswd1 newPasswd2 of
              (_, Some body) \<Rightarrow> (body, s)
            | (_, None) \<Rightarrow>
                (case checkStrength lib newPasswd2 of
                   (_, Some body) \<Rightarrow> (body, s)
                 | (_, None) \<Rightarrow> changePassword lib config (newLdapPasswdUser user current newPasswd2) s))
      else (PasswdChangeHTML, s))"

text \<open>
  \<open>loadConfig\<close> and \<open>init\<close>: a file that cannot be opened, read or decoded ends the program with
  the error as its message. The decoder writes through the pointer \<open>config\<close>, and sets the
  pointer itself to nil for the document \<open>null\<close>: then no configuration is there, and no error.
\<close>

definition loadConfig :: "(string \<Rightarrow> string + LdapConfig option) \<Rightarrow> string + string \<Rightarrow> string + LdapConfig option" where
  "loadConfig Unmarshal readAll =
     (case readAll of
        Inl err \<Rightarrow> Inl err
      | Inr buf \<Rightarrow> (case Unmarshal buf of Inl err \<Rightarrow> Inl err | Inr config \<Rightarrow> Inr config))"

definition ldap_init ::
  "(string \<Rightarrow> string + LdapConfig option) \<Rightarrow> string + (string + string) \<Rightarrow> string + LdapConfig option" where
  "ldap_init Unmarshal configFile =
     (case configFile of
        Inl err \<Rightarrow> Inl err
      | Inr readAll \<Rightarrow> loadConfig Unmarshal readAll)"

section \<open>Traces of the calls\<close>

lemma callE:
  assumes "call f c s = (r, s1)"
  shows "calls s1 = calls s @ [c r]"
  using assms by (auto simp: call_def split: prod.splits)

lemma calls_Close [simp]: "calls (Close lib s) = calls s @ [CClose]"
  by (simp add: Close_def)

text \<open>The calls of a bootstrap that succeeds, and of one that fails.\<close>

definition boot_ok :: "LdapConfig \<Rightarrow> ldap_call list" where
  "boot_ok config = [CDial (LdapURI config) None, CStartTLS None, CBind (BindDN config) (BindPW config) None]"

definition boot_failed :: "LdapConfig \<Rightarrow> ldap_call list \<Rightarrow> bool" where
  "boot_failed config cs \<longleftrightarrow> (\<exists>e. cs = [CDial (LdapURI config) (Some e)] \<or>
     cs = [CDial (LdapURI config) None, CStartTLS (Some e)] \<or>
     cs = [CDial (LdapURI config) None, CStartTLS None, CBind (BindDN config) (BindPW config) (Some e)])"

lemma bootstrap_calls:
  assumes "bootstrapLdapClient lib config s = (r, s1)"
  obtains (failed) err cs where "r = Inl err" "calls s1 = calls s @ cs" "boot_failed config cs"
  | (ok) "r = Inr ()" "calls s1 = calls s @ boot_ok config"
proof -
  obtain r1 t1 where 1: "call (ld_Dial lib (LdapURI config)) (CDial (LdapURI config)) s = (r1, t1)"
    by fastforce
  obtain r2 t2 where 2: "call (ld_StartTLS lib) CStartTLS t1 = (r2, t2)"
    by fastforce
  obtain r3 t3 where 3: "call (ld_Bind lib (BindDN config) (BindPW config)) (CBind (BindDN config) (BindPW config)) t2 = (r3, t3)"
    by fastforce
  show thesis
    using assms 1 2 3 callE [OF 1] callE [OF 2] callE [OF 3] that(1) [of _ "[CDial (LdapURI config) r1]"]
      that(1) [of _ "[CDial (LdapURI config) r1, CStartTLS r2]"]
      that(1) [of _ "[CDial (LdapURI config) r1, CStartTLS r2, CBind (BindDN config) (BindPW config) r3]"] that(2)
    by (cases r1; cases r2; cases r3) (auto simp: bootstrapLdapClient_def boot_failed_def boot_ok_def)
qed

text \<open>The calls that verify a user: exactly one entry, a bind with the password given, the bind back.\<close>

definition verified :: "LdapConfig \<Rightarrow> ldapPasswdUser \<Rightarrow> string \<Rightarrow> ldap_call list" where
  "verified config ldu dn =
     [CSearch (BaseDN config) (Sprintf1 True (username ldu) (SearchDN config)) (Inr [dn]),
      CBind dn (currentPasswd ldu) None, CBind (BindDN config) (BindPW config) None]"

definition no_modify :: "ldap_call list \<Rightarrow> bool" where
  "no_modify cs \<longleftrightarrow> (\<forall>c \<in> set cs. case c of CPasswordModify _ _ _ _ \<Rightarrow> False | CDial _ _ \<Rightarrow> False | CClose \<Rightarrow> False | _ \<Rightarrow> True)"

lemma search_and_bind_calls:
  assumes "search_and_bind lib config ldu s = (r, s1)"
  obtains (invalid) err cs where "r = Inl err" "calls s1 = calls s @ cs" "no_modify cs"
  | (valid) dn where "r = Inr (ldu\<lparr>ldapUserDN := dn\<rparr>)" "dn \<noteq> []" "calls s1 = calls s @ verified config ldu dn"
proof -
  let ?f = "Sprintf1 True (username ldu) (SearchDN config)"
  obtain r1 t1 where 1: "call (ld_Search lib (BaseDN config) ?f) (CSearch (BaseDN config) ?f) s = (r1, t1)"
    by fastforce
  show thesis
  proof (cases "\<exists>dn. r1 = Inr [dn]")
    case False
    then have "\<exists>err. r = Inl err \<and> s1 = t1"
      using assms 1 by (cases r1) (auto simp: search_and_bind_def length_Suc_conv split: if_splits)
    then show thesis
      using that(1) [of _ "[CSearch (BaseDN config) ?f r1]"] callE [OF 1] by (auto simp: no_modify_def)
  next
    case True
    then obtain dn where dn: "r1 = Inr [dn]"
      by blast
    obtain r2 t2 where 2: "call (ld_Bind lib dn (currentPasswd ldu)) (CBind dn (currentPasswd ldu)) t1 = (r2, t2)"
      by fastforce
    obtain r3 t3 where 3: "call (ld_Bind lib (BindDN config) (BindPW config)) (CBind (BindDN config) (BindPW config)) t2 = (r3, t3)"
      by fastforce
    show thesis
      using assms 1 2 3 dn callE [OF 1] callE [OF 2] callE [OF 3]
        that(1) [of _ "[CSearch (BaseDN config) ?f r1, CBind dn (currentPasswd ldu) r2]"]
        that(1) [of _ "[CSearch (BaseDN config) ?f r1, CBind dn (currentPasswd ldu) r2, CBind (BindDN config) (BindPW config) r3]"]
        that(2) [of dn]
      by (cases r2; cases r3) (auto simp: search_and_bind_def no_modify_def verified_def split: if_splits)
  qed
qed

definition change_calls :: "LdapConfig \<Rightarrow> ldapPasswdUser \<Rightarrow> string \<Rightarrow> string option \<Rightarrow> ldap_call list" where
  "change_calls config ldu dn e =
     boot_ok config @ verified config ldu dn @ [CClose] @ boot_ok config @
     [CPasswordModify dn (currentPasswd ldu) (newPasswd ldu) e, CClose]"

lemma changePassword_calls:
  assumes "changePassword lib config ldu s = (body, s1)"
  obtains (refused) cs where "calls s1 = calls s @ cs" "boot_failed config cs"
  | (invalid) cs where "calls s1 = calls s @ boot_ok config @ cs @ [CClose]" "no_modify cs"
  | (lost) dn cs where "calls s1 = calls s @ boot_ok config @ verified config ldu dn @ [CClose] @ cs" "boot_failed config cs"
  | (modify) dn e where "dn \<noteq> []" "calls s1 = calls s @ change_calls config ldu dn e"
      "body = (case e of None \<Rightarrow> Text modified | Some err \<Rightarrow> Text err)"
proof -
  obtain r1 t1 where 1: "bootstrapLdapClient lib config s = (r1, t1)"
    by fastforce
  from 1 show thesis
  proof (cases rule: bootstrap_calls)
    case (failed err cs)
    then show thesis
      using assms 1 that(1) [of cs] by (simp add: changePassword_def isValidLDAPUser_def)
  next
    case ok
    obtain r2 t2 where 2: "search_and_bind lib config ldu t1 = (r2, t2)"
      by fastforce
    have valid: "isValidLDAPUser lib config ldu s = (r2, Close lib t2)"
      using 1 2 ok by (simp add: isValidLDAPUser_def)
    from 2 show thesis
    proof (cases rule: search_and_bind_calls)
      case (invalid err cs)
      then show thesis
        using assms valid ok that(2) [of cs] by (auto simp: changePassword_def)
    next
      case (valid dn)
      let ?ldu = "ldu\<lparr>ldapUserDN := dn\<rparr>"
      obtain r3 t3 where 3: "bootstrapLdapClient lib config (Close lib t2) = (r3, t3)"
        by fastforce
      have body: "(body, s1) = (case changeLdapPasswd lib config ?ldu (Close lib t2) of
          (Some err, s) \<Rightarrow> (Text err, s) | (None, s) \<Rightarrow> (Text modified, s))"
        using assms \<open>isValidLDAPUser lib config ldu s = (r2, Close lib t2)\<close> valid(1) by (simp add: changePassword_def)
      from 3 show thesis
      proof (cases rule: bootstrap_calls)
        case (failed err cs)
        then show thesis
          using body 3 ok valid that(3) [of dn cs] by (simp add: changeLdapPasswd_def)
      next
        case boot: ok
        obtain e t4 where 4: "call (ld_PasswordModify lib dn (currentPasswd ldu) (newPasswd ldu))
            (CPasswordModify dn (currentPasswd ldu) (newPasswd ldu)) t3 = (e, t4)"
          by fastforce
        then show thesis
          using body 3 ok valid boot callE [OF 4] that(4) [of dn e]
          by (cases e) (simp_all add: changeLdapPasswd_def change_calls_def)
      qed
    qed
  qed
qed

text \<open>A request either makes no call or has passed the checks of the form.\<close>

lemma handler_calls:
  assumes "changePasswordHandleFunc lib config req s = (body, s1)"
  obtains (rejected) "s1 = s"
  | (checked) "ToLower (Method req) = ''post''" "Form_Get req ''newpass1'' = Form_Get req ''newpass2''"
      "Form_Get req ''newpass2'' \<noteq> Form_Get req ''currentpass''" "3 \<le> zxcvbn_Score lib (Form_Get req ''newpass2'')"
      "changePassword lib config (newLdapPasswdUser (Form_Get req ''username'') (Form_Get req ''currentpass'')
         (Form_Get req ''newpass2'')) s = (body, s1)"
  using assms
  by (auto simp: changePasswordHandleFunc_def checkPasswdLen_def checkStrength_def Let_def split: if_splits)

definition is_modify :: "ldap_call \<Rightarrow> bool" where
  "is_modify c = (case c of CPasswordModify _ _ _ _ \<Rightarrow> True | _ \<Rightarrow> False)"

lemma no_modify_traces:
  "no_modify cs \<Longrightarrow> c \<in> set cs \<Longrightarrow> \<not> is_modify c"
  "boot_failed config cs \<Longrightarrow> c \<in> set cs \<Longrightarrow> \<not> is_modify c"
  "c \<in> set (boot_ok config) \<Longrightarrow> \<not> is_modify c"
  "c \<in> set (verified config ldu dn) \<Longrightarrow> \<not> is_modify c"
  by (auto simp: no_modify_def boot_failed_def boot_ok_def verified_def is_modify_def split: ldap_call.splits)

text \<open>All calls of a request that makes the server modify a password.\<close>

lemma handler_modify:
  assumes "changePasswordHandleFunc lib config req s = (body, s1)" and "calls s1 = calls s @ cs"
    and "CPasswordModify dn old new e \<in> set cs"
  shows "ToLower (Method req) = ''post''" "old = Form_Get req ''currentpass''" "new = Form_Get req ''newpass1''"
    "new = Form_Get req ''newpass2''" "new \<noteq> old" "3 \<le> zxcvbn_Score lib new" "dn \<noteq> []"
    "cs = change_calls config (newLdapPasswdUser (Form_Get req ''username'') old new) dn e"
    "body = (case e of None \<Rightarrow> Text modified | Some err \<Rightarrow> Text err)"
proof -
  let ?ldu = "newLdapPasswdUser (Form_Get req ''username'') (Form_Get req ''currentpass'') (Form_Get req ''newpass2'')"
  have m: "is_modify (CPasswordModify dn old new e)" "\<not> is_modify CClose"
    by (simp_all add: is_modify_def)
  have checked: "ToLower (Method req) = ''post''" "Form_Get req ''newpass1'' = Form_Get req ''newpass2''"
      "Form_Get req ''newpass2'' \<noteq> Form_Get req ''currentpass''" "3 \<le> zxcvbn_Score lib (Form_Get req ''newpass2'')"
      "changePassword lib config ?ldu s = (body, s1)"
    using assms by (auto elim: handler_calls)
  from checked(5) obtain dn' e' where modify: "dn' \<noteq> []" "cs = change_calls config ?ldu dn' e'"
    "body = (case e' of None \<Rightarrow> Text modified | Some err \<Rightarrow> Text err)"
  proof (cases rule: changePassword_calls)
    case (modify dn' e')
    then show thesis
      using assms(2) by (intro that [of dn' e']) simp_all
  qed (use assms(2,3) m no_modify_traces in \<open>fastforce+\<close>)
  then have "CPasswordModify dn old new e = CPasswordModify dn' (Form_Get req ''currentpass'') (Form_Get req ''newpass2'') e'"
    using assms(3) m no_modify_traces(3,4) by (auto simp: change_calls_def newLdapPasswdUser_def)
  then show "ToLower (Method req) = ''post''" "old = Form_Get req ''currentpass''" "new = Form_Get req ''newpass1''"
    "new = Form_Get req ''newpass2''" "new \<noteq> old" "3 \<le> zxcvbn_Score lib new" "dn \<noteq> []"
    "cs = change_calls config (newLdapPasswdUser (Form_Get req ''username'') old new) dn e"
    "body = (case e of None \<Rightarrow> Text modified | Some err \<Rightarrow> Text err)"
    using checked modify by simp_all
qed

lemma change_calls_authenticated:
  "\<exists>before between after. change_calls config ldu dn e = before @
     [CSearch (BaseDN config) (Sprintf1 True (username ldu) (SearchDN config)) (Inr [dn]),
      CBind dn (currentPasswd ldu) None] @ between @ CPasswordModify dn (currentPasswd ldu) (newPasswd ldu) e # after"
  by (intro exI [of _ "boot_ok config"] exI [of _ "CBind (BindDN config) (BindPW config) None # CClose # boot_ok config"]
      exI [of _ "[CClose]"]) (simp add: change_calls_def verified_def)

section \<open>Properties\<close>

text \<open>
  A password is modified only for an authenticated user: when a request makes the server
  change a password, it is a post, both new passwords agree and differ from the current one,
  the score is at least 3, and the calls before found exactly one entry for the user and bound
  as it with the current password; the response says whether the change succeeded.
\<close>

theorem password_change_authenticated:
  assumes "changePasswordHandleFunc lib config req s = (body, s1)" and "calls s1 = calls s @ cs"
    and "CPasswordModify dn old new e \<in> set cs"
  shows "ToLower (Method req) = ''post'' \<and> old = Form_Get req ''currentpass'' \<and>
    new = Form_Get req ''newpass1'' \<and> new = Form_Get req ''newpass2'' \<and> new \<noteq> old \<and>
    3 \<le> zxcvbn_Score lib new \<and> dn \<noteq> [] \<and>
    (\<exists>before between after. cs = before @
       [CSearch (BaseDN config) (Sprintf1 True (Form_Get req ''username'') (SearchDN config)) (Inr [dn]),
        CBind dn old None] @ between @ CPasswordModify dn old new e # after) \<and>
    body = (case e of None \<Rightarrow> Text modified | Some err \<Rightarrow> Text err)"
  using handler_modify [OF assms]
    change_calls_authenticated [of config "newLdapPasswdUser (Form_Get req ''username'') old new" dn e]
  by (auto simp: newLdapPasswdUser_def)

text \<open>The connections that calls open and close, and whether the last bootstrap failed after dialling.\<close>

definition opens :: "ldap_call list \<Rightarrow> nat" where
  "opens cs = length (filter (\<lambda>c. case c of CDial _ None \<Rightarrow> True | _ \<Rightarrow> False) cs)"

definition closes :: "ldap_call list \<Rightarrow> nat" where
  "closes cs = count_list cs CClose"

definition ends_in_failed_bootstrap :: "ldap_call list \<Rightarrow> bool" where
  "ends_in_failed_bootstrap cs =
     (case rev cs of
        CStartTLS (Some _) # _ \<Rightarrow> True
      | CBind _ _ (Some _) # CStartTLS None # _ \<Rightarrow> True
      | _ \<Rightarrow> False)"

lemma opens_closes_append [simp]:
  "opens (cs @ ds) = opens cs + opens ds" "closes (cs @ ds) = closes cs + closes ds"
  "opens [] = 0" "closes [] = 0"   "opens (CClose # ds) = opens ds" "closes (CClose # ds) = Suc (closes ds)"
  by (simp_all add: opens_def closes_def)

lemma opens_closes_traces:
  "opens (boot_ok config) = 1" "closes (boot_ok config) = 0"
  "opens (verified config ldu dn) = 0" "closes (verified config ldu dn) = 0"
  by (simp_all add: opens_def closes_def boot_ok_def verified_def)

lemma no_modify_connections: "no_modify cs \<Longrightarrow> opens cs = 0 \<and> closes cs = 0"
  by (induction cs) (auto simp: opens_def closes_def no_modify_def split: ldap_call.splits)

lemma boot_failed_connections:
  "boot_failed config cs \<Longrightarrow>
   opens cs = (if ends_in_failed_bootstrap (pre @ cs) then 1 else 0) \<and> closes cs = 0"
  by (auto simp: boot_failed_def opens_def closes_def ends_in_failed_bootstrap_def)

text \<open>
  (C40) Connections: a request closes every connection it opens, except that a bootstrap which
  fails after dialling, in the TLS handshake or in the bind, leaves its connection open.
\<close>

theorem failed_bootstrap_leaks_connection:
  assumes "changePasswordHandleFunc lib config req s = (body, s1)" and "calls s1 = calls s @ cs"
  shows "opens cs = closes cs + (if ends_in_failed_bootstrap cs then 1 else 0)"
  using assms(1)
proof (cases rule: handler_calls)
  case rejected
  then show ?thesis
    using assms(2) by (simp add: opens_def closes_def ends_in_failed_bootstrap_def)
next
  case checked
  have close: "\<not> ends_in_failed_bootstrap (xs @ [CClose])" "closes [CClose] = 1" "opens [CClose] = 0" for xs
    by (simp_all add: ends_in_failed_bootstrap_def closes_def opens_def)
  from checked(5) show ?thesis
  proof (cases rule: changePassword_calls)
    case (refused ds)
    then show ?thesis
      using boot_failed_connections [of config ds "[]"] assms(2) by simp
  next
    case (invalid ds)
    then show ?thesis
      using no_modify_connections close(1) [of "boot_ok config @ ds"] assms(2) by (simp add: opens_closes_traces close)
  next
    case (lost dn ds)
    let ?ldu = "newLdapPasswdUser (Form_Get req ''username'') (Form_Get req ''currentpass'') (Form_Get req ''newpass2'')"
    have "cs = (boot_ok config @ verified config ?ldu dn @ [CClose]) @ ds"
      using lost(1) assms(2) by simp
    then show ?thesis
      using boot_failed_connections [OF lost(2), of "boot_ok config @ verified config ?ldu dn @ [CClose]"]
      by (simp add: opens_closes_traces close)
  next
    case (modify dn e)
    let ?ldu = "newLdapPasswdUser (Form_Get req ''username'') (Form_Get req ''currentpass'') (Form_Get req ''newpass2'')"
    let ?m = "CPasswordModify dn (currentPasswd ?ldu) (newPasswd ?ldu) e"
    have "cs = (boot_ok config @ verified config ?ldu dn @ [CClose] @ boot_ok config @ [?m]) @ [CClose]"
      using modify(2) assms(2) by (simp add: change_calls_def)
    moreover have "opens [?m] = 0" "closes [?m] = 0"
      by (simp_all add: opens_def closes_def)
    ultimately show ?thesis
      using close(1) [of "boot_ok config @ verified config ?ldu dn @ [CClose] @ boot_ok config @ [?m]"]
      by (simp only: opens_closes_append opens_closes_traces close) simp
  qed
qed

section \<open>Sample runs\<close>

text \<open>A directory with one user, as the association of names and passwords, and a server without TLS.\<close>

definition sample_ldap :: "(string \<times> string) list ldap_lib" where
  "sample_ldap = \<lparr>ld_Dial = (\<lambda>_ d. (None, d)), ld_StartTLS = (\<lambda>d. (None, d)),
     ld_Bind = (\<lambda>dn pw d. (if map_of d dn = Some pw then None else Some ''invalid credentials'', d)),
     ld_Search = (\<lambda>_ f d. (Inr (filter (\<lambda>n. n = f) (map fst d)), d)),
     ld_PasswordModify = (\<lambda>dn old new d. (if map_of d dn = Some old then (None, AList.update dn new d) else (Some ''denied'', d))),
     ld_Close = (\<lambda>d. d), zxcvbn_Score = (\<lambda>p. int (length p))\<rparr>"

definition sample_config :: LdapConfig where
  "sample_config = \<lparr>LdapURI = ''ldap:389'', BindDN = ''admin'', BindPW = ''secret'', BaseDN = ''dc=org'', SearchDN = ''uid=%s''\<rparr>"

definition sample_post :: ldap_request where
  "sample_post = \<lparr>Method = ''POST'',
     Form_Get = (\<lambda>k. if k = ''username'' then ''ann'' else if k = ''currentpass'' then ''old'' else ''better''),
     X_Forwarded_For = [], RemoteAddr = ''peer''\<rparr>"

definition sample_dir :: "(string \<times> string) list ldap_state" where
  "sample_dir = \<lparr>world = [(''admin'', ''secret''), (''uid=ann'', ''old'')], calls = []\<rparr>"

lemma sample_run:
  "changePasswordHandleFunc sample_ldap sample_config sample_post sample_dir =
     (Text modified, \<lparr>world = [(''admin'', ''secret''), (''uid=ann'', ''better'')],
        calls = change_calls sample_config (newLdapPasswdUser ''ann'' ''old'' ''better'') ''uid=ann'' None\<rparr>)"
  by code_simp

theorem password_change_authenticated_witness:
  "CPasswordModify ''uid=ann'' ''old'' ''better'' None \<in>
     set (calls (snd (changePasswordHandleFunc sample_ldap sample_config sample_post sample_dir))) \<and>
   3 \<le> zxcvbn_Score sample_ldap ''better''"
proof -
  let ?cs = "change_calls sample_config (newLdapPasswdUser ''ann'' ''old'' ''better'') ''uid=ann'' None"
  have modify: "CPasswordModify ''uid=ann'' ''old'' ''better'' None \<in> set ?cs"
    by (simp add: change_calls_def newLdapPasswdUser_def)
  then have "3 \<le> zxcvbn_Score sample_ldap ''better''"
    using password_change_authenticated [OF sample_run _ modify] unfolding sample_dir_def by (metis append_Nil ldap_state.select_convs(2))
  then show ?thesis
    using modify by (simp add: sample_run)
qed

theorem failed_bootstrap_leaks_connection_witness:
  "\<exists>body s1. changePasswordHandleFunc (sample_ldap\<lparr>ld_StartTLS := \<lambda>d. (Some ''no TLS'', d)\<rparr>) sample_config
       sample_post sample_dir = (body, s1) \<and> opens (calls s1) = closes (calls s1) + 1"
proof -
  let ?lib = "sample_ldap\<lparr>ld_StartTLS := \<lambda>d. (Some ''no TLS'', d)\<rparr>"
  obtain body s1 where run: "changePasswordHandleFunc ?lib sample_config sample_post sample_dir = (body, s1)"
    by fastforce
  have "ends_in_failed_bootstrap (calls (snd (changePasswordHandleFunc ?lib sample_config sample_post sample_dir)))"
    by code_simp
  then show ?thesis
    using failed_bootstrap_leaks_connection [OF run, of "calls s1"] run by (simp add: sample_dir_def)
qed

end
