(* ===== verification/Ldap_Form.thy ===== *)
theory Ldap_Form
  imports Ldap_Passwd
begin

text \<open>
  The page and the server of \<open>src/ldap-explore/main.go\<close>: the form that the handler serves, as a
  tree of its elements (blank text between the elements is left out), what a browser
  sends when the form is filled in, and the start of the program and its requests.
\<close>

section \<open>The page\<close>

datatype html =
  Elem string "(string \<times> string) list" "html list"
| Content string
| Comment string

definition form_group :: "html list \<Rightarrow> html" where
  "form_group hs = Elem ''div'' [(''class'', ''form-group'')] hs"

definition label :: "string \<Rightarrow> html list \<Rightarrow> html" where
  "label for hs = Elem ''label'' [(''class'', ''col-md-4 control-label''), (''for'', for)] hs"

definition field :: "string \<Rightarrow> string \<Rightarrow> string \<Rightarrow> html" where
  "field i name type = Elem ''div'' [(''class'', ''col-md-4'')]
     [Elem ''input'' [(''id'', i), (''name'', name), (''type'', type), (''placeholder'', ''''),
        (''class'', ''form-control input-md'')] []]"

definition page_head :: html where
  "page_head = Elem ''head'' []
     [Elem ''title'' [] [Content ''Change your LDAP/AD password''],
      Elem ''link'' [(''rel'', ''stylesheet''),
        (''href'', ''https://netdna.bootstrapcdn.com/bootstrap/3.3.2/css/bootstrap.min.css'')] [],
      Elem ''link'' [(''rel'', ''stylesheet''),
        (''href'', ''https://netdna.bootstrapcdn.com/font-awesome/3.2.1/css/font-awesome.min.css'')] []]"

definition page_form :: html where
  "page_form = Elem ''form'' [(''class'', ''form-horizontal''), (''method'', ''post'')]
     [Elem ''fieldset'' []
       [Comment ''Form Name'', Elem ''legend'' [] [Content ''Change your LDAP/AD password''],
        Comment ''Text input'',
        form_group [label ''textinput'' [Content ''Username''], field ''textinput'' ''username'' ''text''],
        Comment ''Password input'',
        form_group [label ''passwordinput'' [Content ''Current password''],
          field ''passwordinput'' ''currentpass'' ''password''],
        Comment ''Password input'',
        form_group [label ''passwordinput'' [Content ''New password''],
          field ''passwordinput'' ''newpass1'' ''password''],
        Comment ''Password input'',
        form_group [label ''passwordinput'' [Content ''New password (again)''],
          field ''passwordinput'' ''newpass2'' ''password''],
        Comment ''Button'',
        form_group [label ''singlebutton'' [],
          Elem ''div'' [(''class'', ''col-md-4'')]
            [Elem ''button'' [(''id'', ''singlebutton''), (''name'', ''singlebutton''), (''class'', ''btn btn-primary'')]
               [Content ''Update my password'']]]]]"

definition passwdChangeHTML :: html where
  "passwdChangeHTML = Elem ''html'' [] [page_head, Elem ''body'' [] [page_form]]"

section \<open>The browser\<close>

text \<open>The elements of a page in document order, and those with a tag.\<close>

fun elements :: "html \<Rightarrow> (string \<times> (string \<times> string) list) list" where
  "elements (Elem t attrs hs) = (t, attrs) # concat (map elements hs)"
| "elements (Content c) = []"
| "elements (Comment c) = []"

definition tagged :: "string \<Rightarrow> html \<Rightarrow> (string \<times> string) list list" where
  "tagged t h = map snd (filter (\<lambda>e. fst e = t) (elements h))"

definition attr :: "string \<Rightarrow> (string \<times> string) list \<Rightarrow> string" where
  "attr a attrs = (case map_of attrs a of Some v \<Rightarrow> v | None \<Rightarrow> [])"

text \<open>
  A browser sends the inputs of the form in document order under their names, with what was
  typed into them, and the name of the button that was pressed, with no value. It focuses the
  first element whose id is that of a label it is clicked on.
\<close>

definition submission :: "html \<Rightarrow> string list \<Rightarrow> (string \<times> string) list" where
  "submission h typed =
     zip (map (attr ''name'') (tagged ''input'' h)) typed @ map (\<lambda>b. (attr ''name'' b, [])) (tagged ''button'' h)"

definition submit :: "html \<Rightarrow> string list \<Rightarrow> string \<Rightarrow> ldap_request" where
  "submit h typed peer =
     \<lparr>Method = concat (map (attr ''method'') (tagged ''form'' h)), Form_Get = (\<lambda>k. attr k (submission h typed)),
      X_Forwarded_For = [], RemoteAddr = peer\<rparr>"

definition focused :: "html \<Rightarrow> string \<Rightarrow> string option" where
  "focused h for = map_option (attr ''name'') (find (\<lambda>a. attr ''id'' a = for) (tagged ''input'' h @ tagged ''button'' h))"

section \<open>The server\<close>

definition listenAddress :: string where
  "listenAddress = ''0.0.0.0:8081''"

text \<open>
  \<open>main\<close> serves every path with the handler, one request after the other; the list holds the
  requests that came before the listener failed. A program whose configuration cannot be loaded
  ends before it listens. A missing configuration is dereferenced by the first request that
  passes the checks, which \<open>None\<close> leaves out.
\<close>

fun serve_requests ::
  "'w ldap_lib \<Rightarrow> LdapConfig \<Rightarrow> ldap_request list \<Rightarrow> 'w ldap_state \<Rightarrow> ldap_body list \<times> 'w ldap_state" where
  "serve_requests lib config [] s = ([], s)"
| "serve_requests lib config (req # reqs) s =
     (case changePasswordHandleFunc lib config req s of
        (body, s) \<Rightarrow> (case serve_requests lib config reqs s of (bodies, s) \<Rightarrow> (body # bodies, s)))"

definition ldap_main ::
  "'w ldap_lib \<Rightarrow> (string \<Rightarrow> string + LdapConfig option) \<Rightarrow> string + (string + string) \<Rightarrow> ldap_request list \<Rightarrow> string \<Rightarrow>
   'w ldap_state \<Rightarrow> (string + ldap_body list \<times> string) option \<times> 'w ldap_state" where
  "ldap_main lib Unmarshal configFile reqs listen_err s =
     (case ldap_init Unmarshal configFile of
        Inl err \<Rightarrow> (Some (Inl err), s)
      | Inr None \<Rightarrow> (None, s)
      | Inr (Some config) \<Rightarrow>
          (case serve_requests lib config reqs s of (bodies, s) \<Rightarrow> (Some (Inr (bodies, listen_err)), s)))"

section \<open>The form fits the handler\<close>

lemma page_tags:
  "map (attr ''name'') (tagged ''input'' passwdChangeHTML) = [''username'', ''currentpass'', ''newpass1'', ''newpass2'']"
  "map (attr ''name'') (tagged ''button'' passwdChangeHTML) = [''singlebutton'']"
  "map (attr ''method'') (tagged ''form'' passwdChangeHTML) = [''post'']"
  by code_simp+


text \<open>The three password fields share one id: each of their labels focuses the current password.\<close>

lemma labels_focus_current_password:
  "map (\<lambda>l. focused passwdChangeHTML (attr ''for'' l)) (tagged ''label'' passwdChangeHTML) =
     [Some ''username'', Some ''currentpass'', Some ''currentpass'', Some ''currentpass'', Some ''singlebutton'']"
  by code_simp

text \<open>A request that is not a post is answered with the form and leaves the directory alone.\<close>

lemma serve_requests_get:
  assumes "\<forall>req \<in> set reqs. ToLower (Method req) \<noteq> ''post''"
  shows "serve_requests lib config reqs s = (replicate (length reqs) PasswdChangeHTML, s)"
  using assms by (induction reqs) (auto simp: changePasswordHandleFunc_def)

end
