(* ===== verification/Ldap_Concurrent.thy ===== *)
theory Ldap_Concurrent
  imports Ldap_Passwd
begin

text \<open>
  The password change service of \<open>src/ldap-explore/main.go\<close> with the requests that \<open>net/http\<close>
  serves at the same time, each in its own goroutine, over the one directory.

  A handler is a program tree: it returns a response, or makes a call to the directory and goes
  on with the answer. Run alone, the tree of a request is the handler of \<open>Ldap_Passwd\<close>. In the
  machine any unfinished request may make its next call, and the directory changes with every
  call of any of them. The mutex of \<open>changeLdapPasswd\<close> belongs to an object that each request makes
  for itself, so no request ever waits for it, and it is not part of the state.
\<close>

section \<open>Programs\<close>

datatype ldap_op =
  ODial string
| OStartTLS
| OBind string string
| OSearch string string
| OPasswordModify string string string
| OClose

datatype ldap_answer = AErr "string option" | AFound "string + string list" | ANone

datatype 'a prog = Return 'a | Do ldap_op "ldap_answer \<Rightarrow> 'a prog"

primrec pbind :: "'a prog \<Rightarrow> ('a \<Rightarrow> 'b prog) \<Rightarrow> 'b prog" where
  "pbind (Return x) f = f x"
| "pbind (Do op k) f = Do op (\<lambda>a. pbind (k a) f)"

definition err_of :: "ldap_answer \<Rightarrow> string option" where
  "err_of a = (case a of AErr r \<Rightarrow> r | _ \<Rightarrow> None)"

definition found_of :: "ldap_answer \<Rightarrow> string + string list" where
  "found_of a = (case a of AFound r \<Rightarrow> r | _ \<Rightarrow> Inr [])"

text \<open>A call that may fail.\<close>

definition attempt :: "ldap_op \<Rightarrow> (string option \<Rightarrow> 'a prog) \<Rightarrow> 'a prog" where
  "attempt op f = Do op (\<lambda>a. f (err_of a))"

definition close_then :: "'a \<Rightarrow> 'a prog" where
  "close_then x = Do OClose (\<lambda>_. Return x)"

section \<open>The handler\<close>

definition bootstrap_p :: "LdapConfig \<Rightarrow> (string + unit) prog" where
  "bootstrap_p config =
     attempt (ODial (LdapURI config)) (\<lambda>r. case r of
       Some err \<Rightarrow> Return (Inl err)
     | None \<Rightarrow>
         attempt OStartTLS (\<lambda>r. case r of
           Some err \<Rightarrow> Return (Inl err)
         | None \<Rightarrow>
             attempt (OBind (BindDN config) (BindPW config)) (\<lambda>r. case r of
               Some err \<Rightarrow> Return (Inl (Wrapf err ''failed to bind with ldap''))
             | None \<Rightarrow> Return (Inr ()))))"

definition search_and_bind_p :: "LdapConfig \<Rightarrow> ldapPasswdUser \<Rightarrow> (string + ldapPasswdUser) prog" where
  "search_and_bind_p config ldu =
     Do (OSearch (BaseDN config) (Sprintf1 True (username ldu) (SearchDN config))) (\<lambda>a. case found_of a of
       Inl err \<Rightarrow> Return (Inl (Wrapf err ''error occurred when searching''))
     | Inr entries \<Rightarrow>
         if length entries \<noteq> 1 then Return (Inl errInvalidUser)
         else let userDN = entries ! 0
              in attempt (OBind userDN (currentPasswd ldu)) (\<lambda>r. case r of
                   Some err \<Rightarrow> Return (Inl (Wrapf err ''invalid user''))
                 | None \<Rightarrow>
                     attempt (OBind (BindDN config) (BindPW config)) (\<lambda>r. case r of
                       Some err \<Rightarrow> Return (Inl err)
                     | None \<Rightarrow>
                         if length userDN > 0 then Return (Inr (ldu\<lparr>ldapUserDN := userDN\<rparr>))
                         else Return (Inl errInvalidUser))))"

definition isValidLDAPUser_p :: "LdapConfig \<Rightarrow> ldapPasswdUser \<Rightarrow> (string + ldapPasswdUser) prog" where
  "isValidLDAPUser_p config ldu =
     pbind (bootstrap_p config) (\<lambda>r. case r of
       Inl err \<Rightarrow> Return (Inl err)
     | Inr _ \<Rightarrow> pbind (search_and_bind_p config ldu) close_then)"

definition changeLdapPasswd_p :: "LdapConfig \<Rightarrow> ldapPasswdUser \<Rightarrow> string option prog" where
  "changeLdapPasswd_p config ldu =
     pbind (bootstrap_p config) (\<lambda>r. case r of
       Inl err \<Rightarrow> Return (Some err)
     | Inr _ \<Rightarrow> attempt (OPasswordModify (ldapUserDN ldu) (currentPasswd ldu) (newPasswd ldu)) close_then)"

definition changePassword_p :: "LdapConfig \<Rightarrow> ldapPasswdUser \<Rightarrow> ldap_body prog" where
  "changePassword_p config ldu =
     pbind (isValidLDAPUser_p config ldu) (\<lambda>r. case r of
       Inl err \<Rightarrow> Return (Text errInvalidUser)
     | Inr ldu \<Rightarrow>
         pbind (changeLdapPasswd_p config ldu) (\<lambda>r. case r of
           Some err \<Rightarrow> Return (Text err)
         | None \<Rightarrow> Return (Text modified)))"

definition handle_p :: "'w ldap_lib \<Rightarrow> LdapConfig \<Rightarrow> ldap_request \<Rightarrow> ldap_body prog" where
  "handle_p lib config req =
     (if ToLower (Method req) = ''post'' then
        let user = Form_Get req ''username'';
            current = Form_Get req ''currentpass'';
            newPasswd1 = Form_Get req ''newpass1'';
            newPasswd2 = Form_Get req ''newpass2''
        in (case checkPasswdLen current newPasswd1 newPasswd2 of
              (_, Some body) \<Rightarrow> Return body
            | (_, None) \<Rightarrow>
                (case checkStrength lib newPasswd2 of
                   (_, Some body) \<Rightarrow> Return body
                 | (_, None) \<Rightarrow> changePassword_p config (newLdapPasswdUser user current newPasswd2)))
      else Return PasswdChangeHTML)"

section \<open>A request alone\<close>

fun perform :: "'w ldap_lib \<Rightarrow> ldap_op \<Rightarrow> 'w \<Rightarrow> ldap_answer \<times> 'w" where
  "perform lib (ODial u) w = apfst AErr (ld_Dial lib u w)"
| "perform lib OStartTLS w = apfst AErr (ld_StartTLS lib w)"
| "perform lib (OBind dn pw) w = apfst AErr (ld_Bind lib dn pw w)"
| "perform lib (OSearch b f) w = apfst AFound (ld_Search lib b f w)"
| "perform lib (OPasswordModify dn old new) w = apfst AErr (ld_PasswordModify lib dn old new w)"
| "perform lib OClose w = (ANone, ld_Close lib w)"

fun call_of :: "ldap_op \<Rightarrow> ldap_answer \<Rightarrow> ldap_call" where
  "call_of (ODial u) a = CDial u (err_of a)"
| "call_of OStartTLS a = CStartTLS (err_of a)"
| "call_of (OBind dn pw) a = CBind dn pw (err_of a)"
| "call_of (OSearch b f) a = CSearch b f (found_of a)"
| "call_of (OPasswordModify dn old new) a = CPasswordModify dn old new (err_of a)"
| "call_of OClose a = CClose"

primrec run :: "'w ldap_lib \<Rightarrow> 'a prog \<Rightarrow> 'w ldap_state \<Rightarrow> 'a \<times> 'w ldap_state" where
  "run lib (Return x) = (\<lambda>s. (x, s))"
| "run lib (Do op k) = (\<lambda>s. case perform lib op (world s) of (a, w) \<Rightarrow>
     run lib (k a) \<lparr>world = w, calls = calls s @ [call_of op a]\<rparr>)"

lemma run_pbind: "run lib (pbind p f) s = (case run lib p s of (x, s') \<Rightarrow> run lib (f x) s')"
  by (induction p arbitrary: s) (simp_all add: case_prod_unfold)

lemma run_attempt:
  "run lib (attempt (ODial u) f) s = (case call (ld_Dial lib u) (CDial u) s of (r, s') \<Rightarrow> run lib (f r) s')"
  "run lib (attempt OStartTLS f) s = (case call (ld_StartTLS lib) CStartTLS s of (r, s') \<Rightarrow> run lib (f r) s')"
  "run lib (attempt (OBind dn pw) f) s = (case call (ld_Bind lib dn pw) (CBind dn pw) s of (r, s') \<Rightarrow> run lib (f r) s')"
  "run lib (attempt (OPasswordModify dn old new) f) s =
     (case call (ld_PasswordModify lib dn old new) (CPasswordModify dn old new) s of (r, s') \<Rightarrow> run lib (f r) s')"
  by (simp_all add: attempt_def call_def err_of_def case_prod_unfold)

lemma run_search:
  "run lib (Do (OSearch b f) (\<lambda>a. g (found_of a))) s =
     (case call (ld_Search lib b f) (CSearch b f) s of (r, s') \<Rightarrow> run lib (g r) s')"
  by (simp add: call_def found_of_def case_prod_unfold)

lemma run_close [simp]: "run lib (close_then x) s = (x, Close lib s)"
  by (simp add: close_then_def Close_def)

lemma run_bootstrap: "run lib (bootstrap_p config) s = bootstrapLdapClient lib config s"
  by (auto simp: bootstrap_p_def bootstrapLdapClient_def run_attempt split: prod.splits option.splits)

lemma run_search_and_bind: "run lib (search_and_bind_p config ldu) s = search_and_bind lib config ldu s"
  unfolding search_and_bind_p_def run_search
  by (auto simp: search_and_bind_def run_attempt Let_def split: prod.splits option.splits sum.splits)

lemma run_isValid: "run lib (isValidLDAPUser_p config ldu) s = isValidLDAPUser lib config ldu s"
  by (auto simp: isValidLDAPUser_p_def isValidLDAPUser_def run_pbind run_bootstrap run_search_and_bind
      split: prod.splits sum.splits)

lemma run_changeLdapPasswd: "run lib (changeLdapPasswd_p config ldu) s = changeLdapPasswd lib config ldu s"
  by (auto simp: changeLdapPasswd_p_def changeLdapPasswd_def run_pbind run_bootstrap run_attempt
      split: prod.splits sum.splits option.splits)

lemma run_changePassword: "run lib (changePassword_p config ldu) s = changePassword lib config ldu s"
  by (auto simp: changePassword_p_def changePassword_def run_pbind run_isValid run_changeLdapPasswd
      split: prod.splits sum.splits option.splits)

lemma run_handle: "run lib (handle_p lib config req) s = changePasswordHandleFunc lib config req s"
  by (auto simp: handle_p_def changePasswordHandleFunc_def run_changePassword Let_def split: prod.splits option.splits)

section \<open>Requests at the same time\<close>

record 'w ldap_sys =
  directory :: 'w
  handlers :: "nat \<Rightarrow> ldap_body prog"
  trace :: "(nat \<times> ldap_call) list"

text \<open>
  Each request dials connections of its own, so the calls of request \<open>i\<close> are those of the library
  \<open>libs i\<close>, which may keep its connections apart from the others in the one directory.
\<close>

definition ldap_sys_init ::
  "(nat \<Rightarrow> 'w ldap_lib) \<Rightarrow> LdapConfig \<Rightarrow> (nat \<Rightarrow> ldap_request) \<Rightarrow> 'w ldap_sys \<Rightarrow> bool" where
  "ldap_sys_init libs config reqs s \<longleftrightarrow> handlers s = (\<lambda>i. handle_p (libs i) config (reqs i)) \<and> trace s = []"

inductive ldap_sys_step :: "(nat \<Rightarrow> 'w ldap_lib) \<Rightarrow> 'w ldap_sys \<Rightarrow> 'w ldap_sys \<Rightarrow> bool"
  for libs :: "nat \<Rightarrow> 'w ldap_lib" where
  next_call: "handlers s i = Do op k \<Longrightarrow> perform (libs i) op (directory s) = (a, w) \<Longrightarrow>
    ldap_sys_step libs s (s\<lparr>directory := w, handlers := (handlers s)(i := k a), trace := trace s @ [(i, call_of op a)]\<rparr>)"

definition calls_of :: "nat \<Rightarrow> (nat \<times> ldap_call) list \<Rightarrow> ldap_call list" where
  "calls_of i tr = map snd (filter (\<lambda>c. fst c = i) tr)"

lemma calls_of_simps [simp]:
  "calls_of i [] = []" "calls_of i (tr @ [(j, c)]) = (if j = i then calls_of i tr @ [c] else calls_of i tr)"
  by (simp_all add: calls_of_def)

lemma calls_of_member: "(i, c) \<in> set tr \<longleftrightarrow> c \<in> set (calls_of i tr)"
  by (force simp: calls_of_def)

text \<open>What a program has done and what is left of it, for answers of the kind that each call has.\<close>

fun fits :: "ldap_op \<Rightarrow> ldap_answer \<Rightarrow> bool" where
  "fits (OSearch b f) (AFound r) = True"
| "fits (OSearch b f) _ = False"
| "fits OClose a = (a = ANone)"
| "fits _ (AErr r) = True"
| "fits _ _ = False"

inductive advances :: "'a prog \<Rightarrow> ldap_call list \<Rightarrow> 'a prog \<Rightarrow> bool" for p :: "'a prog" where
  started: "advances p [] p"
| answer: "advances p cs (Do op k) \<Longrightarrow> fits op a \<Longrightarrow> advances p (cs @ [call_of op a]) (k a)"

lemma perform_fits: "perform lib op w = (a, w') \<Longrightarrow> fits op a"
  by (cases op) (auto simp: apfst_def map_prod_def split: prod.splits)

interpretation ldap_sys: inductive_invariant "ldap_sys_init libs config reqs" "ldap_sys_step libs"
  "\<lambda>s. \<forall>i. advances (handle_p (libs i) config (reqs i)) (calls_of i (trace s)) (handlers s i)"
proof (unfold_locales, goal_cases)
  case (1 s)
  then show ?case
    by (simp add: ldap_sys_init_def advances.started)
next
  case (2 s t)
  then show ?case
  proof (induction rule: ldap_sys_step.induct)
    case (next_call s i op k a w)
    then have "advances (handle_p (libs i) config (reqs i)) (calls_of i (trace s)) (Do op k)"
      by metis
    then show ?case
      using next_call perform_fits [OF next_call(2)] by (auto intro: advances.answer)
  qed
qed

text \<open>
  To a request the others are part of the directory: what it has done is the beginning of a run
  alone, over a directory that answers from a list.
\<close>

definition script_lib :: "(string \<Rightarrow> int) \<Rightarrow> ldap_answer list ldap_lib" where
  "script_lib score = \<lparr>ld_Dial = (\<lambda>_ as. (err_of (hd as), tl as)), ld_StartTLS = (\<lambda>as. (err_of (hd as), tl as)),
     ld_Bind = (\<lambda>_ _ as. (err_of (hd as), tl as)), ld_Search = (\<lambda>_ _ as. (found_of (hd as), tl as)),
     ld_PasswordModify = (\<lambda>_ _ _ as. (err_of (hd as), tl as)), ld_Close = tl, zxcvbn_Score = score\<rparr>"

lemma perform_script: "fits op a \<Longrightarrow> perform (script_lib score) op (a # as) = (a, as)"
  by (cases "(op, a)" rule: fits.cases) (simp_all add: script_lib_def err_of_def found_of_def apfst_def)

lemma advances_run:
  assumes "advances p cs q"
  shows "\<exists>as. \<forall>bs. run (script_lib score) p \<lparr>world = as @ bs, calls = []\<rparr> = run (script_lib score) q \<lparr>world = bs, calls = cs\<rparr>"
  using assms
proof (induction rule: advances.induct)
  case started
  then show ?case
    by (intro exI [of _ "[]"]) simp
next
  case (answer cs op k a)
  then obtain as where as: "\<And>bs. run (script_lib score) p \<lparr>world = as @ bs, calls = []\<rparr> =
      run (script_lib score) (Do op k) \<lparr>world = bs, calls = cs\<rparr>"
    by blast
  have "run (script_lib score) p \<lparr>world = (as @ [a]) @ bs, calls = []\<rparr> =
      run (script_lib score) (k a) \<lparr>world = bs, calls = cs @ [call_of op a]\<rparr>" for bs
    using as [of "a # bs"] perform_script [OF answer(2), of score bs] by simp
  then show ?case
    by blast
qed

lemma run_extends: "\<exists>ds. calls (snd (run lib p s)) = calls s @ ds"
proof (induction p arbitrary: s)
  case (Do op k)
  obtain a w where a: "perform lib op (world s) = (a, w)"
    by fastforce
  with Do [OF rangeI, of a "\<lparr>world = w, calls = calls s @ [call_of op a]\<rparr>"] show ?case
    by auto
qed simp

lemma handle_script: "handle_p (script_lib (zxcvbn_Score lib)) config req = handle_p lib config req"
  by (simp add: handle_p_def checkStrength_def script_lib_def)

lemma request_as_run:
  assumes "reach (ldap_sys_init libs config reqs) (ldap_sys_step libs) s"
  obtains w body s1 ds where
    "changePasswordHandleFunc (script_lib (zxcvbn_Score (libs i))) config (reqs i) \<lparr>world = w, calls = []\<rparr> = (body, s1)"
    and "calls s1 = calls_of i (trace s) @ ds" and "\<And>b. handlers s i = Return b \<Longrightarrow> body = b \<and> ds = []"
proof -
  let ?lib = "script_lib (zxcvbn_Score (libs i))"
  have "advances (handle_p (libs i) config (reqs i)) (calls_of i (trace s)) (handlers s i)"
    using ldap_sys.inv_reach [OF assms] by simp
  then obtain as where as: "\<And>bs. run ?lib (handle_p (libs i) config (reqs i)) \<lparr>world = as @ bs, calls = []\<rparr> =
      run ?lib (handlers s i) \<lparr>world = bs, calls = calls_of i (trace s)\<rparr>"
    using advances_run by blast
  define r where "r = run ?lib (handlers s i) \<lparr>world = [], calls = calls_of i (trace s)\<rparr>"
  have "changePasswordHandleFunc ?lib config (reqs i) \<lparr>world = as, calls = []\<rparr> = r"
    using as [of "[]"] run_handle [of ?lib config "reqs i"] by (simp add: r_def handle_script)
  moreover obtain ds where "calls (snd r) = calls_of i (trace s) @ ds"
    using run_extends [of ?lib "handlers s i" "\<lparr>world = [], calls = calls_of i (trace s)\<rparr>"] by (auto simp: r_def)
  moreover have "fst r = b \<and> ds = []" if "handlers s i = Return b" for b
    using that \<open>calls (snd r) = calls_of i (trace s) @ ds\<close> by (simp add: r_def)
  ultimately show ?thesis
    using that [of as "fst r" "snd r" ds] by simp
qed

text \<open>How many calls a program makes at most.\<close>

primrec ends_within :: "'a prog \<Rightarrow> nat \<Rightarrow> bool" where
  "ends_within (Return x) = (\<lambda>n. True)"
| "ends_within (Do op k) = (\<lambda>n. 0 < n \<and> (\<forall>a. ends_within (k a) (n - 1)))"

lemma ends_within_mono: "ends_within p m \<Longrightarrow> m \<le> n \<Longrightarrow> ends_within p n"
proof (induction p arbitrary: m n)
  case (Do op k)
  have "ends_within (k a) (n - 1)" for a
  proof (rule Do.IH)
    show "ends_within (k a) (m - 1)"
      using Do.prems(1) by simp
    show "m - 1 \<le> n - 1"
      using Do.prems(2) by (rule diff_le_mono)
  qed simp
  moreover have "0 < n"
    using Do.prems by simp
  ultimately show ?case
    by simp
qed simp

lemma ends_within_pbind: "ends_within p m \<Longrightarrow> (\<And>x. ends_within (f x) n) \<Longrightarrow> ends_within (pbind p f) (m + n)"
proof (induction p arbitrary: m)
  case (Return x)
  then show ?case
    using ends_within_mono [of "f x" n "m + n"] by simp
next
  case (Do op k)
  have "ends_within (pbind (k a) f) (m - 1 + n)" for a
    by (rule Do.IH) (use Do.prems in simp_all)
  moreover have "m - 1 + n = m + n - 1" "0 < m"
    using Do.prems(1) by simp_all
  ultimately show ?case
    by simp
qed

lemma ends_within_Do: "(\<And>a. ends_within (k a) n) \<Longrightarrow> ends_within (Do op k) (Suc n)"
  by simp

lemma ends_within_attempt: "(\<And>r. ends_within (f r) n) \<Longrightarrow> ends_within (attempt op f) (Suc n)"
  by (simp add: attempt_def)

lemma ends_within_case:
  "ends_within p n \<Longrightarrow> ends_within q n \<Longrightarrow> ends_within (if c then p else q) n"
  "(\<And>x. ends_within (f x) n) \<Longrightarrow> ends_within p n \<Longrightarrow> ends_within (case r of Some x \<Rightarrow> f x | None \<Rightarrow> p) n"
  "(\<And>x. ends_within (f x) n) \<Longrightarrow> (\<And>y. ends_within (g y) n) \<Longrightarrow> ends_within (case s of Inl x \<Rightarrow> f x | Inr y \<Rightarrow> g y) n"
  by (simp_all split: option.split sum.split)

lemma ends_within_return: "ends_within (Return x) n"
  by simp

lemmas ends_within_intros = ends_within_attempt ends_within_case ends_within_return

lemma ends_within_bootstrap: "ends_within (bootstrap_p config) (Suc (Suc (Suc 0)))"
  unfolding bootstrap_p_def by (intro ends_within_intros)

lemma ends_within_search: "ends_within (search_and_bind_p config ldu) (Suc (Suc (Suc 0)))"
  unfolding search_and_bind_p_def Let_def by (intro ends_within_Do ends_within_intros)

lemma ends_within_close: "ends_within (close_then x) (Suc 0)"
  by (simp add: close_then_def)

lemmas ends_within_parts = ends_within_pbind ends_within_bootstrap ends_within_search ends_within_close ends_within_intros

lemma valid_ends: "ends_within (isValidLDAPUser_p config ldu) (Suc (Suc (Suc 0)) + (Suc (Suc (Suc 0)) + Suc 0))"
  unfolding isValidLDAPUser_p_def by (intro ends_within_parts)

lemma change_ends: "ends_within (changeLdapPasswd_p config ldu) (Suc (Suc (Suc 0)) + Suc (Suc 0))"
  unfolding changeLdapPasswd_p_def by (intro ends_within_parts)

lemma changePassword_ends: "ends_within (changePassword_p config ldu) (7 + (5 + 0))"
  unfolding changePassword_p_def
  by (intro ends_within_pbind ends_within_intros valid_ends [THEN ends_within_mono] change_ends [THEN ends_within_mono]) simp_all

lemma handle_ends: "ends_within (handle_p lib config req) 12"
proof -
  have "ends_within (changePassword_p config ldu) 12" for ldu
    using changePassword_ends [of config ldu] by simp
  then show ?thesis
    unfolding handle_p_def Let_def case_prod_unfold by (intro ends_within_intros)
qed

lemma advances_ends: "advances p cs q \<Longrightarrow> ends_within p n \<Longrightarrow> length cs \<le> n \<and> ends_within q (n - length cs)"
proof (induction rule: advances.induct)
  case (answer cs op k a)
  then have "length cs \<le> n" "0 < n - length cs" "ends_within (k a) (n - length cs - 1)"
    by simp_all
  then show ?case
    by simp
qed simp

text \<open>A beginning of the calls that contains the modification contains what comes before it.\<close>

lemma beginning_up_to:
  assumes "cs @ ds = xs @ m # ys" and "x \<in> set cs" and "x \<notin> set xs"
  shows "\<exists>after. cs = xs @ m # after"
proof -
  from assms(1) obtain us where "cs = xs @ us \<and> us @ ds = m # ys \<or> cs @ us = xs \<and> ds = us @ m # ys"
    by (auto simp: append_eq_append_conv2)
  then show ?thesis
  proof
    assume "cs = xs @ us \<and> us @ ds = m # ys"
    then show ?thesis
      using assms(2,3) by (cases us) auto
  qed (use assms(2,3) in auto)
qed

lemma change_calls_prefix:
  assumes "cs @ ds = change_calls config ldu dn e" and "c \<in> set cs" and "is_modify c"
  shows "\<exists>after. cs = (boot_ok config @ verified config ldu dn @ [CClose] @ boot_ok config) @
    CPasswordModify dn (currentPasswd ldu) (newPasswd ldu) e # after"
proof (rule beginning_up_to)
  show "cs @ ds = (boot_ok config @ verified config ldu dn @ [CClose] @ boot_ok config) @
      CPasswordModify dn (currentPasswd ldu) (newPasswd ldu) e # [CClose]"
    using assms(1) by (simp add: change_calls_def)
  have "\<not> is_modify CClose"
    by (simp add: is_modify_def)
  then show "c \<notin> set (boot_ok config @ verified config ldu dn @ [CClose] @ boot_ok config)"
    using no_modify_traces(3,4) assms(3) by auto
qed (fact assms(2))

text \<open>A request that the others leave alone runs in the machine as it does by itself.\<close>

lemma request_runs_alone:
  assumes "reach init (ldap_sys_step libs) s" and "handlers s i = p"
  shows "\<exists>t. reach init (ldap_sys_step libs) t \<and>
    (case run (libs i) p \<lparr>world = directory s, calls = calls_of i (trace s)\<rparr> of (body, s1) \<Rightarrow>
       handlers t i = Return body \<and> calls_of i (trace t) = calls s1 \<and> directory t = world s1)"
  using assms
proof (induction p arbitrary: s)
  case (Return x)
  then show ?case
    by auto
next
  case (Do op k)
  obtain a w where a: "perform (libs i) op (directory s) = (a, w)"
    by fastforce
  let ?t = "s\<lparr>directory := w, handlers := (handlers s)(i := k a), trace := trace s @ [(i, call_of op a)]\<rparr>"
  have step: "reach init (ldap_sys_step libs) ?t"
    using Do.prems(1) next_call [of s i op k libs, OF Do.prems(2) a] by (rule reach.intros(2))
  have "k a \<in> range k" "handlers ?t i = k a"
    by simp_all
  from Do.IH [of "k a" ?t, OF this(1) step this(2)] show ?case
    using a by simp
qed

section \<open>Properties\<close>

text \<open>
  (C12) A password is modified only for an authenticated user, whatever other requests the service
  handles meanwhile and whatever they change in the directory. When request \<open>i\<close> has made the
  server change a password, it is a post, both new passwords agree and differ from the current
  one, the score is at least 3, and request \<open>i\<close> itself had found exactly one entry for its user
  and bound as it with the current password before; once it is answered, the response says
  whether the change succeeded.
\<close>

theorem concurrent_change_authenticated:
  assumes "reach (ldap_sys_init libs config reqs) (ldap_sys_step libs) s"
    and "(i, CPasswordModify dn old new e) \<in> set (trace s)"
  shows "ToLower (Method (reqs i)) = ''post'' \<and> old = Form_Get (reqs i) ''currentpass'' \<and>
    new = Form_Get (reqs i) ''newpass1'' \<and> new = Form_Get (reqs i) ''newpass2'' \<and> new \<noteq> old \<and>
    3 \<le> zxcvbn_Score (libs i) new \<and> dn \<noteq> [] \<and>
    (\<exists>before between after. calls_of i (trace s) = before @
       [CSearch (BaseDN config) (Sprintf1 True (Form_Get (reqs i) ''username'') (SearchDN config)) (Inr [dn]),
        CBind dn old None] @ between @ CPasswordModify dn old new e # after) \<and>
    (\<forall>body. handlers s i = Return body \<longrightarrow> body = (case e of None \<Rightarrow> Text modified | Some err \<Rightarrow> Text err))"
proof -
  let ?lib = "script_lib (zxcvbn_Score (libs i))" and ?m = "CPasswordModify dn old new e"
  obtain w body s1 ds where alone: "changePasswordHandleFunc ?lib config (reqs i) \<lparr>world = w, calls = []\<rparr> = (body, s1)"
    and calls: "calls s1 = calls_of i (trace s) @ ds" and ret: "\<And>b. handlers s i = Return b \<Longrightarrow> body = b \<and> ds = []"
    using request_as_run [OF assms(1)] by blast
  have m: "?m \<in> set (calls_of i (trace s))"
    using assms(2) by (simp add: calls_of_member)
  then have all_m: "?m \<in> set (calls_of i (trace s) @ ds)"
    by simp
  have "calls s1 = calls \<lparr>world = w, calls = []\<rparr> @ (calls_of i (trace s) @ ds)"
    using calls by simp
  note seq = handler_modify [OF alone this all_m]
  let ?ldu = "newLdapPasswdUser (Form_Get (reqs i) ''username'') old new"
  have all: "calls_of i (trace s) @ ds = change_calls config ?ldu dn e"
    by (rule seq(8))
  have "is_modify ?m"
    by (simp add: is_modify_def)
  then obtain after where "calls_of i (trace s) = (boot_ok config @ verified config ?ldu dn @ [CClose] @ boot_ok config) @
      CPasswordModify dn (currentPasswd ?ldu) (newPasswd ?ldu) e # after"
    using change_calls_prefix [OF all m] by blast
  then have order: "\<exists>before between after. calls_of i (trace s) = before @
       [CSearch (BaseDN config) (Sprintf1 True (Form_Get (reqs i) ''username'') (SearchDN config)) (Inr [dn]),
        CBind dn old None] @ between @ ?m # after"
    by (intro exI [of _ "boot_ok config"] exI [of _ "CBind (BindDN config) (BindPW config) None # CClose # boot_ok config"]
        exI [of _ after]) (simp add: verified_def newLdapPasswdUser_def)
  have score: "3 \<le> zxcvbn_Score (libs i) new"
    using seq(6) by (simp add: script_lib_def)
  have answered: "\<forall>b. handlers s i = Return b \<longrightarrow> b = (case e of None \<Rightarrow> Text modified | Some err \<Rightarrow> Text err)"
    using ret seq(9) by blast
  show ?thesis
    by (intro conjI) (fact seq(1-5) score seq(7) order answered)+
qed

text \<open>
  Every request is answered after at most twelve calls, and no request is ever stuck: in each
  state it is answered or can make its next call.
\<close>

lemma request_ends:
  assumes "reach (ldap_sys_init libs config reqs) (ldap_sys_step libs) s"
  shows "length (calls_of i (trace s)) \<le> 12 \<and>
    ((\<exists>body. handlers s i = Return body) \<or>
     (\<exists>t. ldap_sys_step libs s t \<and> length (calls_of i (trace t)) = Suc (length (calls_of i (trace s)))))"
proof -
  have "advances (handle_p (libs i) config (reqs i)) (calls_of i (trace s)) (handlers s i)"
    using ldap_sys.inv_reach [OF assms] by simp
  then have "length (calls_of i (trace s)) \<le> 12"
    using advances_ends [OF _ handle_ends] by blast
  moreover have "\<exists>t. ldap_sys_step libs s t \<and> length (calls_of i (trace t)) = Suc (length (calls_of i (trace s)))"
    if "handlers s i = Do op k" for op k
    using next_call [OF that, of libs "fst (perform (libs i) op (directory s))" "snd (perform (libs i) op (directory s))"]
    by (intro exI [of _ "s\<lparr>directory := snd (perform (libs i) op (directory s)),
          handlers := (handlers s)(i := k (fst (perform (libs i) op (directory s)))),
          trace := trace s @ [(i, call_of op (fst (perform (libs i) op (directory s))))]\<rparr>"]) simp
  ultimately show ?thesis
    by (cases "handlers s i") auto
qed

section \<open>A sample run\<close>

text \<open>Two requests to change the password of one user; the first is served.\<close>

lemma sample_two_requests:
  "\<exists>s. reach (ldap_sys_init (\<lambda>_. sample_ldap) sample_config (\<lambda>_. sample_post)) (ldap_sys_step (\<lambda>_. sample_ldap)) s \<and>
     calls_of 0 (trace s) = change_calls sample_config (newLdapPasswdUser ''ann'' ''old'' ''better'') ''uid=ann'' None \<and>
     handlers s 0 = Return (Text modified)"
proof -
  let ?s = "\<lparr>directory = world sample_dir, handlers = \<lambda>_. handle_p sample_ldap sample_config sample_post, trace = []\<rparr>"
  have "reach (ldap_sys_init (\<lambda>_. sample_ldap) sample_config (\<lambda>_. sample_post)) (ldap_sys_step (\<lambda>_. sample_ldap)) ?s"
    by (rule reach.intros(1)) (simp add: ldap_sys_init_def)
  moreover have "\<lparr>world = world sample_dir, calls = []\<rparr> = sample_dir"
    by (simp add: sample_dir_def)
  ultimately show ?thesis
    using request_runs_alone [of _ "\<lambda>_. sample_ldap" ?s 0, OF _ refl] by (fastforce simp: run_handle sample_run)
qed

theorem concurrent_change_authenticated_witness:
  "\<exists>s. reach (ldap_sys_init (\<lambda>_. sample_ldap) sample_config (\<lambda>_. sample_post)) (ldap_sys_step (\<lambda>_. sample_ldap)) s \<and>
     (0, CPasswordModify ''uid=ann'' ''old'' ''better'' None) \<in> set (trace s) \<and>
     3 \<le> zxcvbn_Score sample_ldap ''better'' \<and> handlers s 0 = Return (Text modified)"
proof -
  obtain s where s: "reach (ldap_sys_init (\<lambda>_. sample_ldap) sample_config (\<lambda>_. sample_post)) (ldap_sys_step (\<lambda>_. sample_ldap)) s"
    and calls: "calls_of 0 (trace s) = change_calls sample_config (newLdapPasswdUser ''ann'' ''old'' ''better'') ''uid=ann'' None"
    and answered: "handlers s 0 = Return (Text modified)"
    using sample_two_requests by blast
  have m: "(0, CPasswordModify ''uid=ann'' ''old'' ''better'' None) \<in> set (trace s)"
    unfolding calls_of_member calls by (simp add: change_calls_def newLdapPasswdUser_def)
  then have "3 \<le> zxcvbn_Score sample_ldap ''better''"
    using concurrent_change_authenticated [OF s m] by blast
  with s m answered show ?thesis
    by blast
qed

end
