(* ===== verification/Kafka_Restarter.thy ===== *)
theory Kafka_Restarter
  imports Go_Prelude
begin

text \<open>
  The rolling restarter of \<open>src/kafka-rolling-restarter/main.go\<close>: it polls three metrics from
  Prometheus and restarts the local Kafka service when they say that the cluster is stable.

  A round of the polling loop has the answers of the server to its three queries and two
  readings of the clock; the loop runs over a list of rounds, and \<open>None\<close> says that it is still
  running after them. What \<open>systemctl\<close> does is a function of the argument vector. Printing
  and sleeping are left out.
\<close>

section \<open>The client\<close>

datatype 'f query_value = Matrix "'f list list" | OtherValue

type_synonym 'f query_answer = "'f query_value \<times> string list \<times> string option"

record prom_range =
  Start :: int
  End :: int
  Step :: duration

record promQueryClient =
  timeRange :: prom_range

record 'f kafka_lib =
  flt :: "'f float64_ops"
  f_eq :: "'f \<Rightarrow> 'f \<Rightarrow> bool"
  Run :: "string list \<Rightarrow> string option"

record 'f kafka_round =
  QueryRange :: "nat \<Rightarrow> string \<Rightarrow> prom_range \<Rightarrow> 'f query_answer"
  now_start :: int
  now_end :: int

definition underReplicatedPartitionQuery :: string where
  "underReplicatedPartitionQuery =
     ''sum(rate(prometheus_http_requests_total{code=\"200\",handler=\"/rules\"}[1m]))> 0''"
definition inSyncReplicatedQuery :: string where
  "inSyncReplicatedQuery =
     ''sum(rate(prometheus_http_requests_total{code=\"200\",handler=\"/rules\"}[1m]))> 0''"
definition sumActiveControllerCountQuery :: string where
  "sumActiveControllerCountQuery =
     ''sum(rate(prometheus_http_requests_total{code=\"200\",handler=\"/rules\"}[1m]))> 0''"
definition prometheusQueryRangeStartAt :: duration where
  "prometheusQueryRangeStartAt = - (60 * Second) * 2"

text \<open>\<open>newPromQueryClient\<close>: \<open>None\<close> when the client cannot be created and the program exits.\<close>

definition newPromQueryClient :: "bool \<Rightarrow> int \<Rightarrow> int \<Rightarrow> promQueryClient option" where
  "newPromQueryClient err now1 now2 =
     (if err then None
      else Some \<lparr>timeRange = \<lparr>Start = now1 + prometheusQueryRangeStartAt, End = now2, Step = 60 * Second\<rparr>\<rparr>)"

definition setTimeRange :: "int \<Rightarrow> int \<Rightarrow> duration \<Rightarrow> promQueryClient \<Rightarrow> promQueryClient" where
  "setTimeRange s e step p = p\<lparr>timeRange := \<lparr>Start = s, End = e, Step = step\<rparr>\<rparr>"

text \<open>
  \<open>promQueryRange\<close> returns a matrix and an error. The nil matrix is the empty one; an answer
  with warnings returns it together with the error of the call, which is nil there.
\<close>

definition promQueryRange ::
  "'f kafka_round \<Rightarrow> nat \<Rightarrow> string \<Rightarrow> promQueryClient \<Rightarrow> 'f list list \<times> string option" where
  "promQueryRange rd i q p =
     (case QueryRange rd i q (timeRange p) of
        (result, warnings, err) \<Rightarrow>
          if err \<noteq> None then ([], err)
          else if length warnings > 0 then ([], err)
          else (case result of
                  Matrix m \<Rightarrow> (m, None)
                | OtherValue \<Rightarrow> ([], Some ''could not type assert to model.Matrix'')))"

definition add_values :: "'f kafka_lib \<Rightarrow> 'f list list \<Rightarrow> 'f \<Rightarrow> 'f" where
  "add_values lib m t = fold (\<lambda>x t. fold (\<lambda>v t. f_add (flt lib) t v) x t) m t"

definition getKeyMetricsSum :: "'f kafka_lib \<Rightarrow> 'f list list \<Rightarrow> 'f list list \<Rightarrow> 'f" where
  "getKeyMetricsSum lib urp isr = add_values lib isr (add_values lib urp (f_of_int (flt lib) 0))"

definition getActiveControllerSum :: "'f kafka_lib \<Rightarrow> 'f list list \<Rightarrow> 'f" where
  "getActiveControllerSum lib acc = add_values lib acc (f_of_int (flt lib) 0)"

text \<open>The constants \<open>keyMetricsSum\<close> and \<open>controllersSum\<close> are 0 and 1.\<close>

definition isRestartRequired :: "'f kafka_lib \<Rightarrow> 'f \<Rightarrow> 'f \<Rightarrow> bool" where
  "isRestartRequired lib a k \<longleftrightarrow> f_eq lib k (f_of_int (flt lib) 0) \<and> f_eq lib a (f_of_int (flt lib) 1)"

definition restart_argv :: "string \<Rightarrow> string list" where
  "restart_argv serviceName = [''systemctl'', ''restart '' @ serviceName]"

definition restart :: "'f kafka_lib \<Rightarrow> string \<Rightarrow> string option" where
  "restart lib serviceName = Run lib (restart_argv serviceName)"

section \<open>The polling loop\<close>

text \<open>The end of the program: exit status 1, or the break after a restart.\<close>

datatype kafka_end = Exit1 | Restarted

text \<open>One round: how it ends the loop, if it does, and the commands it ran.\<close>

definition main_round ::
  "'f kafka_lib \<Rightarrow> bool \<Rightarrow> promQueryClient \<Rightarrow> 'f kafka_round \<Rightarrow> kafka_end option \<times> string list list" where
  "main_round lib restartKafkaService p rd =
     (case promQueryRange rd 0 underReplicatedPartitionQuery p of
        (_, Some err) \<Rightarrow> (Some Exit1, [])
      | (urp, None) \<Rightarrow>
          (case promQueryRange rd 1 inSyncReplicatedQuery p of
             (_, Some err) \<Rightarrow> (Some Exit1, [])
           | (isr, None) \<Rightarrow>
               (case promQueryRange rd 2 sumActiveControllerCountQuery p of
                  (_, Some err) \<Rightarrow> (Some Exit1, [])
                | (acc, None) \<Rightarrow>
                    let activeControllerSum = f_add (flt lib) (f_of_int (flt lib) 0) (getActiveControllerSum lib acc);
                        keyMetrics = f_add (flt lib) (f_of_int (flt lib) 0) (getKeyMetricsSum lib urp isr)
                    in if isRestartRequired lib activeControllerSum keyMetrics \<and> restartKafkaService
                       then (case restart lib ''kafka-server.service'' of
                               Some err \<Rightarrow> (Some Exit1, [restart_argv ''kafka-server.service''])
                             | None \<Rightarrow> (Some Restarted, [restart_argv ''kafka-server.service'']))
                       else (None, []))))"

fun main_loop ::
  "'f kafka_lib \<Rightarrow> bool \<Rightarrow> promQueryClient \<Rightarrow> 'f kafka_round list \<Rightarrow> kafka_end option \<times> string list list" where
  "main_loop lib r p [] = (None, [])"
| "main_loop lib r p (rd # rds) =
     (case main_round lib r p rd of
        (Some e, cmds) \<Rightarrow> (Some e, cmds)
      | (None, cmds) \<Rightarrow>
          (case main_loop lib r
                  (setTimeRange (now_start rd + prometheusQueryRangeStartAt) (now_end rd) (60 * Second) p) rds of
             (e, cmds') \<Rightarrow> (e, cmds @ cmds')))"

section \<open>Lemmas\<close>

text \<open>The values a query contributes: none when it is answered with warnings.\<close>

definition query_values :: "'f query_answer \<Rightarrow> 'f list" where
  "query_values a = (case a of (Matrix m, [], None) \<Rightarrow> concat m | _ \<Rightarrow> [])"

definition query_usable :: "'f query_answer \<Rightarrow> bool" where
  "query_usable a \<longleftrightarrow> snd (snd a) = None \<and> (fst (snd a) \<noteq> [] \<or> fst a \<noteq> OtherValue)"

lemma add_values_concat: "add_values lib m t = fold (\<lambda>v t. f_add (flt lib) t v) (concat m) t"
  by (induction m arbitrary: t) (simp_all add: add_values_def)

lemma promQueryRange_cases:
  "query_usable (QueryRange rd i q (timeRange p)) \<Longrightarrow>
     \<exists>m. promQueryRange rd i q p = (m, None) \<and> concat m = query_values (QueryRange rd i q (timeRange p))"
  "\<not> query_usable (QueryRange rd i q (timeRange p)) \<Longrightarrow> \<exists>e. promQueryRange rd i q p = ([], Some e)"
  by (auto simp: promQueryRange_def query_usable_def query_values_def split: prod.splits query_value.splits list.splits)

text \<open>The three answers of a round.\<close>

definition answers :: "'f kafka_round \<Rightarrow> promQueryClient \<Rightarrow> 'f query_answer list" where
  "answers rd p = [QueryRange rd 0 underReplicatedPartitionQuery (timeRange p),
     QueryRange rd 1 inSyncReplicatedQuery (timeRange p), QueryRange rd 2 sumActiveControllerCountQuery (timeRange p)]"

definition metric_sum :: "'f kafka_lib \<Rightarrow> 'f list \<Rightarrow> 'f" where
  "metric_sum lib vs = f_add (flt lib) (f_of_int (flt lib) 0)
     (fold (\<lambda>v t. f_add (flt lib) t v) vs (f_of_int (flt lib) 0))"

definition stable :: "'f kafka_lib \<Rightarrow> promQueryClient \<Rightarrow> 'f kafka_round \<Rightarrow> bool" where
  "stable lib p rd \<longleftrightarrow>
     f_eq lib (metric_sum lib (query_values (answers rd p ! 0) @ query_values (answers rd p ! 1))) (f_of_int (flt lib) 0) \<and>
     f_eq lib (metric_sum lib (query_values (answers rd p ! 2))) (f_of_int (flt lib) 1)"

lemma main_round_eq:
  "main_round lib r p rd =
     (if \<not> (\<forall>a \<in> set (answers rd p). query_usable a) then (Some Exit1, [])
      else if stable lib p rd \<and> r
      then (Some (if Run lib (restart_argv ''kafka-server.service'') = None then Restarted else Exit1),
            [restart_argv ''kafka-server.service''])
      else (None, []))"
proof -
  note c = promQueryRange_cases [of rd _ _ p]
  consider (bad) e where "promQueryRange rd 0 underReplicatedPartitionQuery p = ([], Some e)"
      "\<not> query_usable (answers rd p ! 0)"
    | (bad1) m e where "promQueryRange rd 0 underReplicatedPartitionQuery p = (m, None)"
      "promQueryRange rd 1 inSyncReplicatedQuery p = ([], Some e)" "\<not> query_usable (answers rd p ! 1)"
    | (bad2) m n e where "promQueryRange rd 0 underReplicatedPartitionQuery p = (m, None)"
      "promQueryRange rd 1 inSyncReplicatedQuery p = (n, None)"
      "promQueryRange rd 2 sumActiveControllerCountQuery p = ([], Some e)" "\<not> query_usable (answers rd p ! 2)"
    | (good) k m n where "promQueryRange rd 0 underReplicatedPartitionQuery p = (k, None)"
      "promQueryRange rd 1 inSyncReplicatedQuery p = (m, None)"
      "promQueryRange rd 2 sumActiveControllerCountQuery p = (n, None)"
      "concat k = query_values (answers rd p ! 0)" "concat m = query_values (answers rd p ! 1)"
      "concat n = query_values (answers rd p ! 2)" "\<forall>a \<in> set (answers rd p). query_usable a"
    using c(1) [of 0 underReplicatedPartitionQuery] c(2) [of 0 underReplicatedPartitionQuery]
      c(1) [of 1 inSyncReplicatedQuery] c(2) [of 1 inSyncReplicatedQuery]
      c(1) [of 2 sumActiveControllerCountQuery] c(2) [of 2 sumActiveControllerCountQuery]
    by (simp add: answers_def) metis
  then show ?thesis
  proof cases
    case good
    then show ?thesis
      by (simp add: main_round_def Let_def isRestartRequired_def stable_def metric_sum_def getKeyMetricsSum_def
          getActiveControllerSum_def add_values_concat restart_def split: option.splits)
  qed (simp_all add: main_round_def answers_def)
qed

text \<open>The client of the next round, of the round after some rounds, and whether a round ends the loop.\<close>

definition next_client :: "'f kafka_round \<Rightarrow> promQueryClient \<Rightarrow> promQueryClient" where
  "next_client rd p = setTimeRange (now_start rd + prometheusQueryRangeStartAt) (now_end rd) (60 * Second) p"

definition client_after :: "'f kafka_round list \<Rightarrow> promQueryClient \<Rightarrow> promQueryClient" where
  "client_after rds p = fold next_client rds p"

definition stops :: "'f kafka_lib \<Rightarrow> bool \<Rightarrow> promQueryClient \<Rightarrow> 'f kafka_round \<Rightarrow> bool" where
  "stops lib r p rd \<longleftrightarrow> \<not> (\<forall>a \<in> set (answers rd p). query_usable a) \<or> (stable lib p rd \<and> r)"

lemma main_loop_Cons:
  "main_loop lib r p (rd # rds) =
     (if stops lib r p rd then main_round lib r p rd else main_loop lib r (next_client rd p) rds)"
  by (simp add: main_round_eq stops_def next_client_def split: prod.split)

declare main_loop.simps(2) [simp del]

lemma main_loop_runs_on:
  "\<forall>i < length rds. \<not> stops lib r (client_after (take i rds) p) (rds ! i) \<Longrightarrow>
   main_loop lib r p (rds @ rest) = main_loop lib r (client_after rds p) rest"
proof (induction rds arbitrary: p)
  case (Cons rd rds)
  have "\<not> stops lib r p rd"
    using Cons.prems [rule_format, of 0] by (simp add: client_after_def)
  moreover have "\<forall>i < length rds. \<not> stops lib r (client_after (take i rds) (next_client rd p)) (rds ! i)"
    using Cons.prems by (auto simp: client_after_def dest: spec [of _ "Suc _"])
  ultimately show ?case
    using Cons.IH by (simp add: main_loop_Cons client_after_def)
qed (simp add: client_after_def)

section \<open>Properties\<close>

text \<open>
  (C26) The polling loop ends at the first round in which a query fails, or in which the metrics
  are stable and restarts are enabled, with the outcome of that round; as long as there is no
  such round it runs on, and it has run no command.
\<close>

theorem polling_ends_at_first_stop:
  assumes "\<forall>i < length rds. \<not> stops lib r (client_after (take i rds) p) (rds ! i)"
  shows "main_loop lib r p rds = (None, []) \<and>
    (stops lib r (client_after rds p) rd \<longrightarrow>
       main_loop lib r p (rds @ rd # rest) = main_round lib r (client_after rds p) rd \<and>
       fst (main_loop lib r p (rds @ rd # rest)) \<noteq> None)"
  using main_loop_runs_on [OF assms, of "[]"] main_loop_runs_on [OF assms, of "rd # rest"]
  by (auto simp: main_loop_Cons main_round_eq stops_def)

text \<open>
  (C27) The service is restarted only when restarts are enabled and in a round whose queries
  were all usable and whose sums are 0 and 1, and at most once: the loop ends with it.
\<close>

theorem restart_only_when_stable:
  assumes "main_loop lib r p rounds = (e, cmds)" and "cmds \<noteq> []"
  shows "r \<and> cmds = [restart_argv ''kafka-server.service''] \<and>
    e = Some (if Run lib (restart_argv ''kafka-server.service'') = None then Restarted else Exit1) \<and>
    (\<exists>before rd after. rounds = before @ rd # after \<and>
       (\<forall>a \<in> set (answers rd (client_after before p)). query_usable a) \<and> stable lib (client_after before p) rd)"
  using assms
proof (induction rounds arbitrary: p)
  case (Cons rd rds)
  show ?case
  proof (cases "stops lib r p rd")
    case True
    then show ?thesis
      using Cons.prems
      by (intro conjI exI [of _ "[]"] exI [of _ rd] exI [of _ rds])
        (auto simp: main_loop_Cons main_round_eq client_after_def split: if_splits)
  next
    case False
    then obtain before rd' after where "rds = before @ rd' # after"
        "\<forall>a \<in> set (answers rd' (client_after before (next_client rd p))). query_usable a"
        "stable lib (client_after before (next_client rd p)) rd'"
      and rest: "r" "cmds = [restart_argv ''kafka-server.service'']"
        "e = Some (if Run lib (restart_argv ''kafka-server.service'') = None then Restarted else Exit1)"
      using Cons.IH [of "next_client rd p"] Cons.prems by (auto simp: main_loop_Cons)
    then have "\<exists>before rd' after. rd # rds = before @ rd' # after \<and>
        (\<forall>a \<in> set (answers rd' (client_after before p)). query_usable a) \<and> stable lib (client_after before p) rd'"
      by (intro exI [of _ "rd # before"] exI [of _ rd'] exI [of _ after]) (simp add: client_after_def)
    then show ?thesis
      using rest by blast
  qed
qed simp

text \<open>Exact arithmetic, and a server that answers the same query the same way within a round.\<close>

definition rat_kafka :: "(string list \<Rightarrow> string option) \<Rightarrow> rat kafka_lib" where
  "rat_kafka run = \<lparr>flt = rat_ops, f_eq = (=), Run = run\<rparr>"

definition consistent :: "'f kafka_round \<Rightarrow> bool" where
  "consistent rd \<longleftrightarrow> (\<forall>i j q rg. QueryRange rd i q rg = QueryRange rd j q rg)"

lemma metric_sum_rat: "metric_sum (rat_kafka run) vs = sum_list vs"
proof -
  have "fold (\<lambda>v t. t + v) vs a = a + sum_list vs" for a :: rat
    by (induction vs arbitrary: a) simp_all
  then show ?thesis
    by (simp add: metric_sum_def rat_kafka_def rat_ops_def)
qed

lemma consistent_never_stable:
  assumes "consistent rd"
  shows "\<not> stable (rat_kafka run) p rd"
proof -
  have "answers rd p ! 0 = answers rd p ! 2" "answers rd p ! 1 = answers rd p ! 2"
    using assms
    by (simp_all add: answers_def consistent_def underReplicatedPartitionQuery_def inSyncReplicatedQuery_def
        sumActiveControllerCountQuery_def)
  then show ?thesis
    by (simp add: stable_def metric_sum_rat) (simp add: rat_kafka_def rat_ops_def)
qed

text \<open>
  With the queries as they are written the restarter never restarts anything: the three
  query strings are the same, so the controller sum cannot be 1 while twice that sum is 0. The
  arithmetic is exact and the server answers equal queries of a round equally.
\<close>

theorem identical_queries_never_restart:
  assumes "\<forall>rd \<in> set rounds. consistent rd"
  shows "snd (main_loop (rat_kafka run) r p rounds) = []"
  using assms
  by (induction rounds arbitrary: p)
    (auto simp: main_loop_Cons main_round_eq consistent_never_stable)

section \<open>Sample rounds\<close>

text \<open>A server that tells its calls apart, as one would with three different metrics.\<close>

definition sample_round :: "rat list \<Rightarrow> rat list \<Rightarrow> rat kafka_round" where
  "sample_round key acc = \<lparr>QueryRange = (\<lambda>i q rg. (Matrix [if i = 2 then acc else key], [], None)), now_start = 0, now_end = 0\<rparr>"

definition sample_client :: promQueryClient where
  "sample_client = \<lparr>timeRange = \<lparr>Start = 0, End = 0, Step = 0\<rparr>\<rparr>"

lemma sample_usable: "\<forall>a \<in> set (answers (sample_round key acc) p). query_usable a"
  by (simp add: answers_def sample_round_def query_usable_def)

lemma sample_stable: "stable (rat_kafka run) p (sample_round key acc) \<longleftrightarrow> sum_list key = 0 \<and> sum_list acc = 1"
  by (simp add: stable_def answers_def sample_round_def query_values_def metric_sum_rat)
    (simp add: rat_kafka_def rat_ops_def)

lemma sample_stops: "stops (rat_kafka run) True p (sample_round key acc) \<longleftrightarrow> sum_list key = 0 \<and> sum_list acc = 1"
  using sample_usable [of key acc p] by (simp add: stops_def sample_stable)

lemma sample_restart:
  "main_loop (rat_kafka (\<lambda>_. None)) True sample_client [sample_round [3] [1], sample_round [0] [1]] =
     (Some Restarted, [restart_argv ''kafka-server.service''])"
  using sample_usable [of "[0]" "[1]"]
  by (simp add: main_loop_Cons main_round_eq sample_stops sample_stable) (simp add: rat_kafka_def)

theorem polling_ends_at_first_stop_witness:
  "fst (main_loop (rat_kafka (\<lambda>_. None)) True sample_client ([sample_round [3] [1]] @ sample_round [0] [1] # [])) \<noteq> None"
  by (rule polling_ends_at_first_stop [THEN conjunct2, THEN mp, THEN conjunct2]) (simp_all add: sample_stops)

theorem restart_only_when_stable_witness:
  "\<exists>before rd after. [sample_round [3] [1], sample_round [0] [1]] = before @ rd # after \<and>
     stable (rat_kafka (\<lambda>_. None)) (client_after before sample_client) rd"
  using restart_only_when_stable [OF sample_restart] by blast

theorem identical_queries_never_restart_witness:
  "snd (main_loop (rat_kafka (\<lambda>_. None)) True sample_client [sample_round [1] [1], sample_round [0] [0]]) = []"
  by (rule identical_queries_never_restart) (simp add: consistent_def sample_round_def)

end
