(* ===== verification/Chown_Trace.thy ===== *)
theory Chown_Trace
  imports Go_Prelude
begin

text \<open>
  The tracer of \<open>src/gobpf-explore/main.go\<close>: two kernel probes on \<open>fchownat\<close>, written in C
  in the constant \<open>source\<close>, that pair the entry of a call with its return through a hash map,
  and the Go side that decodes the events they submit and prints them.

  The hash map of the kernel has a fixed size; an entry probe carries whether its update found
  room. The bytes that \<open>bpf_probe_read\<close> copies are an argument of the entry. \<open>main\<close>, which
  loads and attaches the probes, is in \<open>Chown_Loader\<close>.
\<close>

unbundle bit_operations_syntax

section \<open>The probes\<close>

record chown_event =
  Pid :: uint32
  Uid :: uint32
  Gid :: uint32
  ReturnValue :: uint32
  Filename :: "byte list"

type_synonym chowncall = "uint64 \<Rightarrow> chown_event option"

definition kprobe__sys_fchownat ::
  "uint64 \<Rightarrow> uint32 \<Rightarrow> uint32 \<Rightarrow> byte list \<Rightarrow> bool \<Rightarrow> chowncall \<Rightarrow> chowncall" where
  "kprobe__sys_fchownat pid uid gid filename room m =
     (let event = \<lparr>Pid = ucast (drop_bit 32 pid), Uid = uid, Gid = gid, ReturnValue = 0, Filename = filename\<rparr>
      in if room \<or> m pid \<noteq> None then m(pid \<mapsto> event) else m)"

text \<open>The event that is submitted, if any, and the map.\<close>

definition kretprobe__sys_fchownat :: "uint64 \<Rightarrow> uint32 \<Rightarrow> chowncall \<Rightarrow> chown_event option \<times> chowncall" where
  "kretprobe__sys_fchownat pid ret m =
     (case m pid of
        None \<Rightarrow> (None, m)
      | Some eventp \<Rightarrow> (Some (eventp\<lparr>ReturnValue := ret\<rparr>), m(pid := None)))"

text \<open>The probes as the threads of the system hit them, and the events submitted in order.\<close>

datatype probe = Enter uint64 uint32 uint32 "byte list" bool | Return uint64 uint32

fun run_probes :: "probe list \<Rightarrow> chowncall \<Rightarrow> (uint64 \<times> chown_event) list \<times> chowncall" where
  "run_probes [] m = ([], m)"
| "run_probes (Enter pid uid gid filename room # ps) m =
     run_probes ps (kprobe__sys_fchownat pid uid gid filename room m)"
| "run_probes (Return pid ret # ps) m =
     (case kretprobe__sys_fchownat pid ret m of
        (None, m) \<Rightarrow> run_probes ps m
      | (Some event, m) \<Rightarrow> (case run_probes ps m of (es, m) \<Rightarrow> ((pid, event) # es, m)))"

section \<open>The consumer\<close>

text \<open>The memory of the C struct: four little-endian words and the 20 bytes of the name.\<close>

definition le32 :: "uint32 \<Rightarrow> byte list" where
  "le32 w = [ucast w, ucast (drop_bit 8 w), ucast (drop_bit 16 w), ucast (drop_bit 24 w)]"

definition event_bytes :: "chown_event \<Rightarrow> byte list" where
  "event_bytes e = le32 (Pid e) @ le32 (Uid e) @ le32 (Gid e) @ le32 (ReturnValue e) @ Filename e"

text \<open>\<open>binary.Read\<close> into a \<open>chownEvent\<close>: 36 bytes, and an error if there are fewer.\<close>

definition Uint32 :: "byte list \<Rightarrow> uint32" where
  "Uint32 b = ucast (b ! 0) OR push_bit 8 (ucast (b ! 1)) OR push_bit 16 (ucast (b ! 2)) OR push_bit 24 (ucast (b ! 3))"

definition binary_Read :: "byte list \<Rightarrow> chown_event option" where
  "binary_Read data =
     (if length data < 36 then None
      else Some \<lparr>Pid = Uint32 data, Uid = Uint32 (drop 4 data), Gid = Uint32 (drop 8 data),
             ReturnValue = Uint32 (drop 12 data), Filename = take 20 (drop 16 data)\<rparr>)"

text \<open>\<open>C.GoString\<close> of the name; \<open>None\<close> when no byte of the field ends it and it reads past the field.\<close>

definition GoString :: "byte list \<Rightarrow> byte list option" where
  "GoString filename = (if 0 \<in> set filename then Some (takeWhile (\<lambda>b. b \<noteq> 0) filename) else None)"

datatype chown_line = DecodeError | Line uint32 uint32 uint32 "byte list option" uint32

fun print_loop :: "byte list list \<Rightarrow> chown_line list" where
  "print_loop [] = []"
| "print_loop (data # rest) =
     (case binary_Read data of
        None \<Rightarrow> DecodeError # print_loop rest
      | Some event \<Rightarrow>
          Line (Uid event) (Gid event) (Pid event) (GoString (Filename event)) (ReturnValue event) # print_loop rest)"

section \<open>Lemmas\<close>

lemma Uint32_le32: "Uint32 (le32 w @ rest) = w"
proof (rule bit_word_eqI)
  fix n
  assume "n < LENGTH(32)"
  then have "n < 8 \<or> (8 \<le> n \<and> n < 16) \<or> (16 \<le> n \<and> n < 24) \<or> (24 \<le> n \<and> n < 32)"
    by auto
  then show "bit (Uint32 (le32 w @ rest)) n \<longleftrightarrow> bit w n"
    by (auto simp: Uint32_def le32_def bit_simps)
qed

lemma length_le32 [simp]: "length (le32 w) = 4"
  by (simp add: le32_def)

lemma binary_Read_event_bytes:
  assumes "length (Filename e) = 20"
  shows "binary_Read (event_bytes e @ pad) = Some e"
  using assms by (simp add: binary_Read_def event_bytes_def Uint32_le32)

fun probe_thread :: "probe \<Rightarrow> uint64" where
  "probe_thread (Enter pid uid gid filename room) = pid"
| "probe_thread (Return pid ret) = pid"

lemma run_probes_append:
  "run_probes (ps @ qs) m =
     (fst (run_probes ps m) @ fst (run_probes qs (snd (run_probes ps m))), snd (run_probes qs (snd (run_probes ps m))))"
proof (induction ps arbitrary: m)
  case (Cons p ps)
  then show ?case
    by (cases p) (auto split: prod.splits option.splits)
qed simp

lemma run_probes_Return:
  "run_probes (Return pid ret # ps) m =
     (case m pid of
        None \<Rightarrow> run_probes ps m
      | Some e \<Rightarrow> ((pid, e\<lparr>ReturnValue := ret\<rparr>) # fst (run_probes ps (m(pid := None))), snd (run_probes ps (m(pid := None)))))"
  by (simp add: kretprobe__sys_fchownat_def split: option.split prod.split)

declare run_probes.simps(3) [simp del]

text \<open>The probes of other threads neither see nor change the entry of a thread.\<close>

lemma run_probes_own:
  "m t = m' t \<Longrightarrow>
   filter (\<lambda>x. fst x = t) (fst (run_probes ps m)) = fst (run_probes (filter (\<lambda>p. probe_thread p = t) ps) m') \<and>
   snd (run_probes ps m) t = snd (run_probes (filter (\<lambda>p. probe_thread p = t) ps) m') t"
proof (induction ps arbitrary: m m')
  case (Cons p ps)
  show ?case
  proof (cases p)
    case (Enter pid uid gid name room)
    then show ?thesis
      using Cons.IH [of "kprobe__sys_fchownat pid uid gid name room m"
          "if pid = t then kprobe__sys_fchownat pid uid gid name room m' else m'"] Cons.prems
      by (simp add: kprobe__sys_fchownat_def Let_def)
  next
    case (Return pid ret)
    show ?thesis
    proof (cases "pid = t")
      case True
      have "filter (\<lambda>x. fst x = t) (fst (run_probes ps (m(t := None)))) =
            fst (run_probes (filter (\<lambda>p. probe_thread p = t) ps) (m'(t := None))) \<and>
          snd (run_probes ps (m(t := None))) t = snd (run_probes (filter (\<lambda>p. probe_thread p = t) ps) (m'(t := None))) t"
        by (rule Cons.IH) simp
      then show ?thesis
        using True Return Cons.IH [of m m'] Cons.prems
        by (cases "m' t") (simp_all add: run_probes_Return)
    next
      case False
      then have "filter (\<lambda>x. fst x = t) (fst (run_probes ps (m(pid := None)))) =
            fst (run_probes (filter (\<lambda>p. probe_thread p = t) ps) m') \<and>
          snd (run_probes ps (m(pid := None))) t = snd (run_probes (filter (\<lambda>p. probe_thread p = t) ps) m') t"
        using Cons.prems by (intro Cons.IH) simp
      then show ?thesis
        using False Return Cons.IH [of m m'] Cons.prems
        by (cases "m pid") (simp_all add: run_probes_Return)
    qed
  qed
qed simp

lemma run_probes_other:
  assumes "\<forall>p \<in> set ps. probe_thread p \<noteq> t"
  shows "snd (run_probes ps m) t = m t"
proof -
  have "filter (\<lambda>p. probe_thread p = t) ps = []"
    using assms by simp
  then show ?thesis
    using run_probes_own [of m t m ps] by simp
qed

section \<open>Properties\<close>

text \<open>
  What is reported of a thread depends on its own probes alone: in every interleaving of
  the probes of all threads, the events submitted for a thread are the ones its probes submit
  when they run by themselves.
\<close>

theorem threads_reported_independently:
  "filter (\<lambda>x. fst x = t) (fst (run_probes ps Map.empty)) =
   fst (run_probes (filter (\<lambda>p. probe_thread p = t) ps) Map.empty)"
  using run_probes_own [of Map.empty t Map.empty ps] by simp



end
