(* ===== verification/Chown_Loader.thy ===== *)
theory Chown_Loader
  imports Chown_Trace
begin

text \<open>
  \<open>main\<close> of \<open>src/gobpf-explore/main.go\<close>: the probes are loaded and attached, the entry probe
  first, and the events they submit are printed until a signal arrives.

  The functions of \<open>gobpf/bcc\<close> are arguments. The system hits the entry probe alone between the
  two attachments, and both afterwards; hits are lists of probes as in \<open>Chown_Trace\<close>.
\<close>

section \<open>Loading and attaching\<close>

record bpf_lib =
  LoadKprobe :: "string \<Rightarrow> string + int"
  AttachKprobe :: "string \<Rightarrow> int \<Rightarrow> string option"
  AttachKretprobe :: "string \<Rightarrow> int \<Rightarrow> string option"
  InitPerfMap :: "string \<Rightarrow> string option"

text \<open>
  What the program did to the kernel. \<open>os.Exit\<close> does not run the deferred \<open>m.Close()\<close>.
\<close>

datatype bpf_event = Attached bool string int | PerfMap string | PerfStart | PerfStop | ModuleClosed

datatype tracer_end = Exit1 string | Signalled

definition attach_both :: "bpf_lib \<Rightarrow> (string option) \<times> bpf_event list" where
  "attach_both lib =
     (case LoadKprobe lib ''kprobe__sys_fchownat'' of
        Inl err \<Rightarrow> (Some (''Failed to load kprobe__sys_fchownat: '' @ err), [])
      | Inr chownKprobe \<Rightarrow>
     (case AttachKprobe lib ''sys_fchownat'' chownKprobe of
        Some err \<Rightarrow> (Some (''Failed to attach kprobe__sys_fchownat: '' @ err), [])
      | None \<Rightarrow>
     (case LoadKprobe lib ''kretprobe__sys_fchownat'' of
        Inl err \<Rightarrow> (Some (''Failed to load kretprobe__sys_fchownat: '' @ err), [Attached False ''sys_fchownat'' chownKprobe])
      | Inr chownKretprobe \<Rightarrow>
     (case AttachKretprobe lib ''sys_fchownat'' chownKretprobe of
        Some err \<Rightarrow> (Some (''Failed to attach kretprobe__sys_fchownat: '' @ err), [Attached False ''sys_fchownat'' chownKprobe])
      | None \<Rightarrow> (None, [Attached False ''sys_fchownat'' chownKprobe, Attached True ''sys_fchownat'' chownKretprobe])))))"

definition is_enter :: "probe \<Rightarrow> bool" where
  "is_enter p = (case p of Enter _ _ _ _ _ \<Rightarrow> True | Return _ _ \<Rightarrow> False)"

text \<open>The hits of the probes on an empty map: \<open>between\<close> the attachments, and \<open>traced\<close> after them.\<close>

definition submitted :: "probe list \<Rightarrow> probe list \<Rightarrow> chown_event list" where
  "submitted between traced = map snd (fst (run_probes (filter is_enter between @ traced) Map.empty))"

definition chown_main :: "bpf_lib \<Rightarrow> probe list \<Rightarrow> probe list \<Rightarrow> tracer_end \<times> chown_line list \<times> bpf_event list" where
  "chown_main lib between traced =
     (case attach_both lib of
        (Some msg, evs) \<Rightarrow> (Exit1 msg, [], evs)
      | (None, evs) \<Rightarrow>
          (case InitPerfMap lib ''chown_events'' of
             Some err \<Rightarrow> (Exit1 (''Failed to init perf map: '' @ err), [], evs)
           | None \<Rightarrow>
               (Signalled, print_loop (map event_bytes (submitted between traced)),
                evs @ [PerfMap ''chown_events'', PerfStart, PerfStop, ModuleClosed])))"

section \<open>Properties\<close>

lemma print_loop_append [simp]: "print_loop (xs @ ys) = print_loop xs @ print_loop ys"
  by (induction xs) (auto split: option.splits)

text \<open>
  A program that starts to print has attached the entry probe and the return probe to the
  system call they are written for, and closes the module at the end; one that fails leaves
  the module, and an entry probe that was attached, behind.
\<close>

lemma chown_main_attached:
  assumes "chown_main lib between traced = (e, lines, evs)"
  shows "case e of
      Signalled \<Rightarrow> \<exists>k r. LoadKprobe lib ''kprobe__sys_fchownat'' = Inr k \<and> LoadKprobe lib ''kretprobe__sys_fchownat'' = Inr r \<and>
        take 2 evs = [Attached False ''sys_fchownat'' k, Attached True ''sys_fchownat'' r] \<and> last evs = ModuleClosed
    | Exit1 _ \<Rightarrow> lines = [] \<and> ModuleClosed \<notin> set evs"
  using assms by (auto simp: chown_main_def attach_both_def split: sum.splits option.splits)

text \<open>
  A call that enters and returns while both probes are attached is printed with its own
  arguments and result, whatever entries the time between the attachments left in the map.
\<close>

theorem tracer_prints_call:
  assumes "chown_main lib between (before @ Enter t u g name True # mid @ Return t ret # after) = (Signalled, lines, evs)"
    and "\<forall>p \<in> set mid. probe_thread p \<noteq> t" and "length name = 20" and "0 \<in> set name"
  shows "Line u g (ucast (drop_bit 32 t)) (Some (takeWhile (\<lambda>b. b \<noteq> 0) name)) ret \<in> set lines"
proof -
  let ?ps = "filter is_enter between @ before @ Enter t u g name True # mid"
  let ?e = "\<lparr>Pid = ucast (drop_bit 32 t), Uid = u, Gid = g, ReturnValue = ret, Filename = name\<rparr>"
  have "snd (run_probes ?ps Map.empty) t = Some (?e\<lparr>ReturnValue := 0\<rparr>)"
    using run_probes_other [OF assms(2)] by (simp add: run_probes_append kprobe__sys_fchownat_def Let_def)
  then have "(t, ?e) \<in> set (fst (run_probes (?ps @ Return t ret # after) Map.empty))"
    by (subst run_probes_append) (simp add: run_probes_Return)
  moreover have "submitted between (before @ Enter t u g name True # mid @ Return t ret # after) =
      map snd (fst (run_probes (?ps @ Return t ret # after) Map.empty))"
    by (simp add: submitted_def)
  ultimately have "?e \<in> set (submitted between (before @ Enter t u g name True # mid @ Return t ret # after))"
    by force
  then obtain xs ys where "submitted between (before @ Enter t u g name True # mid @ Return t ret # after) = xs @ ?e # ys"
    by (meson split_list)
  moreover have "lines = print_loop (map event_bytes (submitted between (before @ Enter t u g name True # mid @ Return t ret # after)))"
    using assms(1) by (simp add: chown_main_def split: prod.splits option.splits)
  ultimately show ?thesis
    using binary_Read_event_bytes [of ?e "[]"] assms(3,4) by (simp add: GoString_def)
qed

end
