(* ===== verification/Dockerfile_Gen.thy ===== *)
theory Dockerfile_Gen
  imports Go_Prelude
begin

text \<open>
  The generator of \<open>src/dockerfile\<close>, which reconstructs a Dockerfile from the history of an
  image. The Docker daemon is a world of an arbitrary type: listing and history read it, a pull
  may change it and answers with a stream of decoded events. Log output and the progress bar
  are left out. A fatal log entry ends the program.
\<close>

section \<open>Replacing strings\<close>

text \<open>
  \<open>strings.NewReplacer\<close> and its \<open>Replace\<close>: from left to right, without overlaps, the first
  pair in the order of the arguments whose old string matches. No old string is empty.
\<close>

fun find_pair :: "(string \<times> string) list \<Rightarrow> string \<Rightarrow> (string \<times> string) option" where
  "find_pair [] s = None"
| "find_pair ((old, new) # ps) s =
     (if old \<noteq> [] \<and> take (length old) s = old then Some (old, new) else find_pair ps s)"

lemma find_pair_Some: "find_pair ps s = Some (old, new) \<Longrightarrow> old \<noteq> [] \<and> take (length old) s = old \<and> (old, new) \<in> set ps"
  by (induction ps s rule: find_pair.induct) (auto split: if_splits)

function Replace :: "(string \<times> string) list \<Rightarrow> string \<Rightarrow> string" where
  "Replace ps [] = []"
| "Replace ps (c # cs) =
     (case find_pair ps (c # cs) of
        None \<Rightarrow> c # Replace ps cs
      | Some (old, new) \<Rightarrow> new @ Replace ps (drop (length old) (c # cs)))"
  by pat_completeness auto
termination
proof (relation "measure (\<lambda>(ps, s). length s)")
  fix ps c cs x old new
  assume "find_pair ps (c # cs) = Some x" "(old, new) = x"
  then have "old \<noteq> []"
    using find_pair_Some by metis
  then show "((ps, drop (length old) (c # cs)), ps, c # cs) \<in> measure (\<lambda>(ps, s). length s)"
    by (cases old) auto
qed simp_all

definition ReplaceAll :: "string \<Rightarrow> string \<Rightarrow> string \<Rightarrow> string" where
  "ReplaceAll s old new = Replace [(old, new)] s"

section \<open>The client\<close>

datatype Level = DebugLevel | InfoLevel | WarnLevel | ErrorLevel | FatalLevel

record DockerImageClient =
  level :: Level
  imageName :: string
  imageId :: string
  repo :: string

record docker_image =
  ID :: string
  RepoTags :: "string list"

record image_history =
  CreatedBy :: string
  Tags :: "string list"

record DockerImagePullEvent =
  Status :: string
  Error :: string
  Progress :: string

record 'w docker_lib =
  ImageList :: "'w \<Rightarrow> string + docker_image list"
  ImageHistory :: "string \<Rightarrow> 'w \<Rightarrow> string + image_history list"
  ImagePull :: "string \<Rightarrow> 'w \<Rightarrow> (string + (string + DockerImagePullEvent) list option) \<times> 'w"

definition errLocalImageNotFound :: string where
  "errLocalImageNotFound = ''tried listing the image name but could not find any image''"

definition newDockerImageClient :: "string \<Rightarrow> string \<Rightarrow> DockerImageClient" where
  "newDockerImageClient imageRepo loglevel =
     (let l = ToLower loglevel;
          ll = (if l = ''debug'' then DebugLevel
                else if l = ''warn'' then WarnLevel
                else if l = ''info'' then InfoLevel
                else if l = ''error'' then ErrorLevel
                else if l = ''fatal'' then FatalLevel
                else InfoLevel)
      in \<lparr>level = ll, imageName = [], imageId = [], repo = imageRepo @ ''/''\<rparr>)"

fun find_tag :: "DockerImageClient \<Rightarrow> string list \<Rightarrow> bool" where
  "find_tag d [] = False"
| "find_tag d (i # tags) =
     (if length i > 0 \<and> (i = repo d @ imageName d \<or> i = imageName d) then True else find_tag d tags)"

fun find_image :: "DockerImageClient \<Rightarrow> docker_image list \<Rightarrow> string + string" where
  "find_image d [] = Inl errLocalImageNotFound"
| "find_image d (img # images) = (if find_tag d (RepoTags img) then Inr (ID img) else find_image d images)"

definition getImageIdByName :: "'w docker_lib \<Rightarrow> DockerImageClient \<Rightarrow> 'w \<Rightarrow> string + string" where
  "getImageIdByName lib d w =
     (case ImageList lib w of Inl err \<Rightarrow> Inl err | Inr imageList \<Rightarrow> find_image d imageList)"

definition getBaseImageTagByImageId :: "'w docker_lib \<Rightarrow> string \<Rightarrow> 'w \<Rightarrow> string + string" where
  "getBaseImageTagByImageId lib i w =
     (case ImageHistory lib i w of
        Inl err \<Rightarrow> Inl err
      | Inr imageHistory \<Rightarrow>
          Inr (fold (\<lambda>ih t. if length (Tags ih) = 0 then t else Tags ih ! 0) imageHistory []))"

definition reservedInstructions :: "string list" where
  "reservedInstructions =
     [''ENV'', ''EXPOSE'', ''ARG'', ''LABEL'', ''USER'', ''EXPOSE'', ''CMD'', ''MAINTAINER'', ''ENTRYPOINT'',
      ''STOPSIGNAL'', ''COPY'', ''VOLUME'', ''WORKDIR'', ''ONBUILD'', ''HEALTHCHECK'', ''SHELL'']"

definition cleaner :: "(string \<times> string) list" where
  "cleaner =
     [(''/bin/sh -c #(nop) '', []), (''/bin/sh -c'', ''RUN /bin/sh -c''),
      (''&&'', [CHR 0x5C, CHR 0x0A] @ ''    &&'')]"

text \<open>The text of one step, and the loop over the history from its last entry down.\<close>

definition clean_step :: "string \<Rightarrow> string" where
  "clean_step history =
     fold (\<lambda>e steps. ReplaceAll steps (CHR '' '' # e) e) reservedInstructions (Replace cleaner history)"

fun history_loop :: "image_history list \<Rightarrow> nat \<Rightarrow> string \<Rightarrow> string" where
  "history_loop imageHistory 0 df = df"
| "history_loop imageHistory (Suc i) df =
     (let history = CreatedBy (imageHistory ! i)
      in if length history = 0 then history_loop imageHistory i df
         else history_loop imageHistory i (df @ clean_step history @ [CHR 0x0A]))"

definition dockerFile :: "'w docker_lib \<Rightarrow> DockerImageClient \<Rightarrow> string \<Rightarrow> 'w \<Rightarrow> string + string" where
  "dockerFile lib d base w =
     (case ImageHistory lib (imageId d) w of
        Inl err \<Rightarrow> Inl err
      | Inr imageHistory \<Rightarrow>
          Inr (history_loop imageHistory (length imageHistory) (''FROM '' @ base @ [CHR 0x0A])))"

text \<open>The events of a pull until the end of the stream or an error of the decoder.\<close>

fun pull_loop :: "(string + DockerImagePullEvent) list \<Rightarrow> string option" where
  "pull_loop [] = None"
| "pull_loop (Inl err # es) = Some err"
| "pull_loop (Inr pullEvent # es) = (if length (Progress pullEvent) = 0 then pull_loop es else pull_loop es)"

definition pullImage :: "'w docker_lib \<Rightarrow> DockerImageClient \<Rightarrow> 'w \<Rightarrow> string option \<times> 'w" where
  "pullImage lib d w =
     (if length (repo d) = 0 then (Some ''invalid repo'', w)
      else if length (imageName d) = 0 then (Some ''invalid image name'', w)
      else let canonicalRepo = repo d @ imageName d
           in (case ImagePull lib canonicalRepo w of
                 (Inl err, w) \<Rightarrow> (Some err, w)
               | (Inr None, w) \<Rightarrow> (Some (''error occurred when trying to pull image tag '' @ canonicalRepo), w)
               | (Inr (Some events), w) \<Rightarrow> (pull_loop events, w)))"

text \<open>\<open>main\<close>: the usage exit, a fatal error, or the Dockerfile.\<close>

datatype docker_result = Usage127 | Fatal string | Output string

definition docker_main ::
  "'w docker_lib \<Rightarrow> string \<Rightarrow> string \<Rightarrow> string \<Rightarrow> string \<Rightarrow> 'w \<Rightarrow> docker_result \<times> 'w" where
  "docker_main lib imageIdOpt imageNameOpt imageRepo loglevel w =
     (if length imageNameOpt = 0 \<and> length imageIdOpt = 0 then (Usage127, w)
      else let dir = newDockerImageClient imageRepo loglevel;
               rebuild = (\<lambda>dir w.
                 case getImageIdByName lib dir w of
                   Inl err \<Rightarrow> (Fatal err, w)
                 | Inr i \<Rightarrow>
                     let dir = dir\<lparr>imageId := i\<rparr>
                     in (case getBaseImageTagByImageId lib i w of
                           Inl err \<Rightarrow> (Fatal err, w)
                         | Inr bi \<Rightarrow>
                             (case dockerFile lib dir bi w of Inl err \<Rightarrow> (Fatal err, w) | Inr df \<Rightarrow> (Output df, w))))
           in if length imageNameOpt > 0
              then let dir = dir\<lparr>imageName := imageNameOpt\<rparr>;
                       dir = dir\<lparr>imageId := (case getImageIdByName lib dir w of Inl _ \<Rightarrow> [] | Inr i \<Rightarrow> i)\<rparr>
                   in if length (imageId dir) = 0
                      then (case pullImage lib dir w of (Some err, w) \<Rightarrow> (Fatal err, w) | (None, w) \<Rightarrow> rebuild dir w)
                      else rebuild dir w
              else let dir = dir\<lparr>imageName := (case getBaseImageTagByImageId lib imageIdOpt w of Inl _ \<Rightarrow> [] | Inr t \<Rightarrow> t)\<rparr>
                   in if length (imageName dir) = 0 then (Fatal ''the image could not be found in local disk'', w)
                      else rebuild (dir\<lparr>imageId := imageIdOpt\<rparr>) w)"

section \<open>Lemmas\<close>

lemma Contains_drop: "Contains (drop n s) sub \<Longrightarrow> Contains s sub"
  by (induction n arbitrary: s) (simp, case_tac s, auto)

lemma Replace_inert:
  "\<forall>(old, new) \<in> set ps. \<not> Contains s old \<Longrightarrow> Replace ps s = s"
proof (induction s)
  case (Cons c cs)
  have "find_pair ps (c # cs) = None"
    using Cons.prems find_pair_Some [of ps "c # cs"] by (cases "find_pair ps (c # cs)") fastforce+
  moreover have "\<forall>(old, new) \<in> set ps. \<not> Contains cs old"
    using Cons.prems by auto
  ultimately show ?case
    using Cons.IH by simp
qed simp

lemma history_loop_rev:
  "i \<le> length hs \<Longrightarrow>
   history_loop hs i df =
     df @ concat (map (\<lambda>h. clean_step h @ [CHR 0x0A]) (filter (\<lambda>h. h \<noteq> []) (rev (map CreatedBy (take i hs)))))"
  by (induction hs i df rule: history_loop.induct) (simp_all add: take_Suc_conv_app_nth Let_def)

text \<open>A text in which neither replacement finds anything.\<close>

definition inert :: "string \<Rightarrow> bool" where
  "inert s \<longleftrightarrow> (\<forall>(old, new) \<in> set cleaner. \<not> Contains s old) \<and>
     (\<forall>e \<in> set reservedInstructions. \<not> Contains s (CHR '' '' # e))"

text \<open>A step of a Dockerfile, as the builder records it in the history and as it is written.\<close>

datatype build_step = Meta string | RunShell string

fun created_by :: "build_step \<Rightarrow> string" where
  "created_by (Meta i) = ''/bin/sh -c #(nop)  '' @ i"
| "created_by (RunShell c) = ''/bin/sh -c '' @ c"

fun step_line :: "build_step \<Rightarrow> string" where
  "step_line (Meta i) = i"
| "step_line (RunShell c) = ''RUN /bin/sh -c '' @ c"

fun step_ok :: "build_step \<Rightarrow> bool" where
  "step_ok (Meta i) \<longleftrightarrow> inert i \<and> (\<exists>e \<in> set reservedInstructions. take (length e) i = e)"
| "step_ok (RunShell c) \<longleftrightarrow> inert (CHR '' '' # c) \<and> take 7 c \<noteq> ''#(nop) ''"

lemma fold_inert:
  "\<forall>e \<in> set es. \<not> Contains s (CHR '' '' # e) \<Longrightarrow> fold (\<lambda>e s. ReplaceAll s (CHR '' '' # e) e) es s = s"
  by (induction es) (simp_all add: ReplaceAll_def Replace_inert)

text \<open>The space before a reserved word is dropped when the word is reached in the list.\<close>

lemma fold_space:
  assumes "\<forall>e \<in> set es. \<not> Contains s (CHR '' '' # e)" and "e \<in> set es" and "take (length e) s = e" and "e \<noteq> []"
  shows "fold (\<lambda>e s. ReplaceAll s (CHR '' '' # e) e) es (CHR '' '' # s) = s"
  using assms(1,2)
proof (induction es)
  case (Cons f es)
  show ?case
  proof (cases "take (length f) s = f")
    case True
    have "\<not> Contains (drop (length f) s) (CHR '' '' # f)"
      using Cons.prems(1) Contains_drop by auto
    then have "ReplaceAll (CHR '' '' # s) (CHR '' '' # f) f = s"
      using True append_take_drop_id [of "length f" s] by (simp add: ReplaceAll_def Replace_inert)
    then show ?thesis
      using fold_inert Cons.prems(1) by simp
  next
    case False
    then have "ReplaceAll (CHR '' '' # s) (CHR '' '' # f) f = CHR '' '' # s"
      using Cons.prems(1) by (simp add: ReplaceAll_def Replace_inert)
    moreover have "e \<in> set es"
      using False Cons.prems(2) assms(3) by auto
    ultimately show ?thesis
      using Cons by simp
  qed
qed simp

lemma reserved_nonempty: "e \<in> set reservedInstructions \<Longrightarrow> e \<noteq> []"
  by (auto simp: reservedInstructions_def)

lemma clean_step_Meta:
  assumes "step_ok (Meta i)"
  shows "clean_step (''/bin/sh -c #(nop)  '' @ i) = i"
proof -
  obtain e where e: "e \<in> set reservedInstructions" "take (length e) i = e"
    using assms by auto
  have "Replace cleaner (CHR '' '' # i) = CHR '' '' # i"
    using assms by (intro Replace_inert) (auto simp: inert_def cleaner_def)
  then have "Replace cleaner (''/bin/sh -c #(nop)  '' @ i) = CHR '' '' # i"
    by (simp add: cleaner_def)
  then show ?thesis
    using fold_space [of reservedInstructions i e] e assms reserved_nonempty [OF e(1)]
    by (simp add: clean_step_def inert_def)
qed

lemma take_prefix_iff: "take (length (a @ b)) (a @ c) = a @ b \<longleftrightarrow> take (length b) c = b"
  by simp

lemma find_pair_shell:
  assumes "take 7 c \<noteq> ''#(nop) ''"
  shows "find_pair cleaner (''/bin/sh -c '' @ c) = Some (''/bin/sh -c'', ''RUN /bin/sh -c'')"
proof -
  have len: "length ''#(nop) '' = 7"
    by simp
  have nop: "''/bin/sh -c #(nop) '' = ''/bin/sh -c '' @ ''#(nop) ''"
    by simp
  have "take (length ''/bin/sh -c #(nop) '') (''/bin/sh -c '' @ c) \<noteq> ''/bin/sh -c #(nop) ''"
    unfolding nop take_prefix_iff len by (rule assms)
  then have "find_pair cleaner (''/bin/sh -c '' @ c) = find_pair (tl cleaner) (''/bin/sh -c '' @ c)"
    unfolding cleaner_def list.sel(3) find_pair.simps(2) [of "''/bin/sh -c #(nop) ''"] by (simp only: simp_thms if_False)
  also have "\<dots> = Some (''/bin/sh -c'', ''RUN /bin/sh -c'')"
    by (simp add: cleaner_def)
  finally show ?thesis .
qed

lemma Replace_shell:
  assumes "take 7 c \<noteq> ''#(nop) ''"
  shows "Replace cleaner (''/bin/sh -c '' @ c) = ''RUN /bin/sh -c'' @ Replace cleaner (CHR '' '' # c)"
proof -
  have "''/bin/sh -c '' @ c = CHR ''/'' # (''bin/sh -c '' @ c)"
    by simp
  then have "Replace cleaner (''/bin/sh -c '' @ c) =
      ''RUN /bin/sh -c'' @ Replace cleaner (drop (length ''/bin/sh -c'') (''/bin/sh -c '' @ c))"
    using find_pair_shell [OF assms] by (simp only: Replace.simps option.case prod.case)
  then show ?thesis
    by simp
qed

text \<open>Skipping characters at which no reserved word starts.\<close>

lemma Contains_skip:
  "c \<noteq> CHR '' '' \<Longrightarrow> Contains (c # cs) (CHR '' '' # e) = Contains cs (CHR '' '' # e)"
  "e \<noteq> [] \<Longrightarrow> hd e \<noteq> d \<Longrightarrow> Contains (CHR '' '' # d # cs) (CHR '' '' # e) = Contains (d # cs) (CHR '' '' # e)"
  by (simp, cases e, simp_all)

lemma reserved_hd: "e \<in> set reservedInstructions \<Longrightarrow> hd e \<noteq> CHR ''/'' \<and> hd e \<noteq> CHR ''-''"
  by (auto simp: reservedInstructions_def)

lemma Contains_run_prefix:
  assumes "e \<in> set reservedInstructions"
  shows "Contains (''RUN /bin/sh -c'' @ s) (CHR '' '' # e) = Contains s (CHR '' '' # e)"
  using reserved_nonempty [OF assms] reserved_hd [OF assms]
  by (simp add: Contains_skip del: Contains.simps)

lemma clean_step_RunShell:
  assumes "step_ok (RunShell c)"
  shows "clean_step (''/bin/sh -c '' @ c) = ''RUN /bin/sh -c '' @ c"
proof -
  have "Replace cleaner (CHR '' '' # c) = CHR '' '' # c"
    using assms by (intro Replace_inert) (simp add: inert_def)
  then have "Replace cleaner (''/bin/sh -c '' @ c) = ''RUN /bin/sh -c'' @ CHR '' '' # c"
    using Replace_shell [of c] assms by simp
  moreover have "fold (\<lambda>e s. ReplaceAll s (CHR '' '' # e) e) reservedInstructions (''RUN /bin/sh -c'' @ CHR '' '' # c) =
      ''RUN /bin/sh -c'' @ CHR '' '' # c"
    using assms Contains_run_prefix by (intro fold_inert) (simp add: inert_def del: Contains.simps)
  ultimately show ?thesis
    by (simp add: clean_step_def)
qed

section \<open>Properties\<close>


text \<open>
  Reserved words are searched for anywhere in a command: a shell command that mentions
  one after a space loses the space, and is a different command.
\<close>

theorem clean_step_corrupts_command:
  "clean_step ''/bin/sh -c export USER=x'' = ''RUN /bin/sh -c exportUSER=x''"
  by code_simp

text \<open>A pull succeeds for every stream that decodes, whatever errors its events report; an
  empty repository option makes the reference start with a slash.\<close>

lemma pull_ignores_reported_errors:
  assumes "ImagePull lib (imageRepo @ ''/'' @ name) w = (Inr (Some (map Inr events)), w')" and "name \<noteq> []"
  shows "pullImage lib ((newDockerImageClient imageRepo loglevel)\<lparr>imageName := name\<rparr>) w = (None, w')"
proof -
  have "pull_loop (map Inr events) = None"
    by (induction events) simp_all
  then show ?thesis
    using assms by (simp add: pullImage_def newDockerImageClient_def Let_def)
qed

definition sample_docker :: "unit docker_lib" where
  "sample_docker = \<lparr>ImageList = (\<lambda>_. Inr []),
     ImageHistory = (\<lambda>_ _. Inr [\<lparr>CreatedBy = ''/bin/sh -c #(nop)  CMD [bash]'', Tags = [''a:1'']\<rparr>,
        \<lparr>CreatedBy = [], Tags = []\<rparr>, \<lparr>CreatedBy = ''/bin/sh -c echo hi'', Tags = []\<rparr>]),
     ImagePull = (\<lambda>_ w. (Inr None, w))\<rparr>"

lemma sample_steps: "step_ok (RunShell ''echo hi'')" "step_ok (Meta ''CMD [bash]'')"
  by (simp_all add: inert_def cleaner_def reservedInstructions_def)


end
