(* ===== verification/Vault_Import.thy ===== *)
theory Vault_Import
  imports Go_Prelude
begin

text \<open>
  The importer of \<open>src/vault-secrets\<close>, which copies the rows of a KeePass export into Vault.
  The Vault server is a world that a write changes and that may answer with an error; the
  writes are recorded in order. The decoding of the CSV file is an argument. An index out of
  range panics, a fatal log entry ends the program.
\<close>

section \<open>Entries\<close>

record keepassEntry =
  group :: string
  title :: string
  username :: string
  password :: string
  url :: string
  entry_notes :: string

text \<open>The entry of a row, \<open>None\<close> for the panic on a row with fewer than six fields.\<close>

definition row_entry :: "string list \<Rightarrow> keepassEntry option" where
  "row_entry e =
     (case go_index e 0 of None \<Rightarrow> None | Some e0 \<Rightarrow>
      case go_index e 1 of None \<Rightarrow> None | Some e1 \<Rightarrow>
      case go_index e 2 of None \<Rightarrow> None | Some e2 \<Rightarrow>
      case go_index e 3 of None \<Rightarrow> None | Some e3 \<Rightarrow>
      case go_index e 4 of None \<Rightarrow> None | Some e4 \<Rightarrow>
      case go_index e 5 of None \<Rightarrow> None | Some e5 \<Rightarrow>
        Some \<lparr>group = e0, title = e1, username = e2, password = e3, url = e4, entry_notes = e5\<rparr>)"

fun read_entries :: "string list list \<Rightarrow> keepassEntry list \<Rightarrow> keepassEntry list option" where
  "read_entries [] entries = Some entries"
| "read_entries (e # records) entries =
     (case row_entry e of None \<Rightarrow> None | Some entry \<Rightarrow> read_entries records (entries @ [entry]))"

section \<open>The import\<close>

type_synonym secret = "string \<Rightarrow> string option"

datatype vault_end = Done | FatalExit string | Panic

record 'w vault_lib =
  Write :: "string \<Rightarrow> secret \<Rightarrow> 'w \<Rightarrow> string option \<times> 'w"

record 'w vault_state =
  world :: 'w
  writes :: "(string \<times> secret) list"

definition secretPath :: "keepassEntry \<Rightarrow> string" where
  "secretPath e = ''cubbyhole/'' @ title e"

definition fill :: "keepassEntry \<Rightarrow> secret \<Rightarrow> secret" where
  "fill e secret = secret(''Group'' \<mapsto> group e, ''Title'' \<mapsto> title e, ''Username'' \<mapsto> username e,
     ''Password'' \<mapsto> password e, ''URL'' \<mapsto> url e, ''Notes'' \<mapsto> entry_notes e)"

text \<open>The loop over the entries with its index; one map serves all of them.\<close>

fun write_loop ::
  "'w vault_lib \<Rightarrow> nat \<Rightarrow> keepassEntry list \<Rightarrow> secret \<Rightarrow> 'w vault_state \<Rightarrow> vault_end \<times> 'w vault_state" where
  "write_loop lib i [] secret s = (Done, s)"
| "write_loop lib i (e # es) secret s =
     (if i = 0 then write_loop lib (Suc i) es secret s
      else let secret = fill e secret
           in (case Write lib (secretPath e) secret (world s) of
                 (Some err, w) \<Rightarrow> 
                   (FatalExit (''error while writing to secret path '' @ [CHR 0x27] @ secretPath e @ [CHR 0x27] @ '' to Vault: '' @ err),
                    \<lparr>world = w, writes = writes s @ [(secretPath e, secret)]\<rparr>)
               | (None, w) \<Rightarrow>
                   write_loop lib (Suc i) es (secret(''Password'' := None))
                     \<lparr>world = w, writes = writes s @ [(secretPath e, secret)]\<rparr>))"

text \<open>\<open>NewClient\<close> of \<open>vault_client\<close>, for the error of the library if it has one.\<close>

record HashiVault =
  Client_token :: string

definition NewClient :: "string option \<Rightarrow> string \<Rightarrow> string + HashiVault" where
  "NewClient clientErr token =
     (case clientErr of Some err \<Rightarrow> Inl (''err: '' @ err) | None \<Rightarrow> Inr \<lparr>Client_token = token\<rparr>)"

definition vault_main ::
  "'w vault_lib \<Rightarrow> string \<Rightarrow> string \<Rightarrow> string option \<Rightarrow> string option \<Rightarrow> string + string list list
   \<Rightarrow> 'w vault_state \<Rightarrow> vault_end \<times> 'w vault_state" where
  "vault_main lib vaultToken vaultAddr clientErr openErr readAll s =
     (if vaultToken = [] then (FatalExit ''VAULT_TOKEN env variable is empty'', s)
      else if vaultAddr = [] then (FatalExit ''VAULT_ADDR env variable is empty'', s)
      else (case NewClient clientErr vaultToken of
              Inl err \<Rightarrow> (FatalExit (''err: '' @ err), s)
            | Inr c \<Rightarrow>
                (case openErr of
                   Some err \<Rightarrow> (FatalExit (''error: '' @ err), s)
                 | None \<Rightarrow>
                     (case readAll of
                        Inl err \<Rightarrow> (FatalExit (''error: '' @ err), s)
                      | Inr records \<Rightarrow>
                          (case read_entries records [] of
                             None \<Rightarrow> (Panic, s)
                           | Some entries \<Rightarrow> write_loop lib 0 entries Map.empty s)))))"

section \<open>Lemmas\<close>

text \<open>The secret of one entry, by itself.\<close>

definition entry_secret :: "keepassEntry \<Rightarrow> secret" where
  "entry_secret e = [''Group'' \<mapsto> group e, ''Title'' \<mapsto> title e, ''Username'' \<mapsto> username e,
     ''Password'' \<mapsto> password e, ''URL'' \<mapsto> url e, ''Notes'' \<mapsto> entry_notes e]"

definition secret_keys :: "string set" where
  "secret_keys = {''Group'', ''Title'', ''Username'', ''Password'', ''URL'', ''Notes''}"

lemma fill_eq: "dom secret \<subseteq> secret_keys \<Longrightarrow> fill e secret = entry_secret e"
  by (rule ext) (auto simp: fill_def entry_secret_def secret_keys_def dom_def)

lemma dom_entry_secret: "dom (entry_secret e) \<subseteq> secret_keys"
  by (auto simp: entry_secret_def secret_keys_def)

lemma read_entries_eq: "read_entries rows es = map_option ((@) es) (those (map row_entry rows))"
proof (induction rows arbitrary: es)
  case (Cons r rows)
  then show ?case
    by (cases "row_entry r"; cases "those (map row_entry rows)") auto
qed simp

lemma row_entry_Some: "(\<exists>e. row_entry r = Some e) \<longleftrightarrow> 6 \<le> length r"
  by (auto simp: row_entry_def go_index_def split: option.splits if_splits)

lemma write_loop_writes:
  assumes "0 < i" and "dom secret \<subseteq> secret_keys"
  shows "\<exists>k \<le> length es. writes (snd (write_loop lib i es secret s)) =
      writes s @ map (\<lambda>e. (secretPath e, entry_secret e)) (take k es) \<and>
    (fst (write_loop lib i es secret s) = Done \<longrightarrow> k = length es) \<and>
    fst (write_loop lib i es secret s) \<noteq> Panic"
  using assms
proof (induction es arbitrary: i secret s)
  case (Cons e es)
  obtain r w where w: "Write lib (secretPath e) (entry_secret e) (world s) = (r, w)"
    by fastforce
  let ?s = "\<lparr>world = w, writes = writes s @ [(secretPath e, entry_secret e)]\<rparr>"
  define rest where "rest = (entry_secret e)(''Password'' := None)"
  have "dom rest \<subseteq> secret_keys"
    using dom_entry_secret [of e] by (auto simp: rest_def)
  then obtain k where k: "k \<le> length es"
      "writes (snd (write_loop lib (Suc i) es rest ?s)) =
        writes ?s @ map (\<lambda>e. (secretPath e, entry_secret e)) (take k es)"
      "fst (write_loop lib (Suc i) es rest ?s) = Done \<longrightarrow> k = length es"
      "fst (write_loop lib (Suc i) es rest ?s) \<noteq> Panic"
    using Cons.IH [of "Suc i" rest ?s] by auto
  show ?case
  proof (cases r)
    case None
    then show ?thesis
      using k w Cons.prems fill_eq [OF Cons.prems(2), of e] unfolding rest_def by (intro exI [of _ "Suc k"]) (simp add: Let_def)
  next
    case (Some err)
    then show ?thesis
      using w Cons.prems fill_eq [OF Cons.prems(2), of e] by (intro exI [of _ 1]) (simp add: Let_def)
  qed
qed simp

section \<open>Properties\<close>


lemma vault_import_short_row:
  assumes "token \<noteq> []" and "addr \<noteq> []" and "r \<in> set rows" and "length r < 6"
  shows "vault_main lib token addr None None (Inr rows) s = (Panic, s)"
proof -
  have "row_entry r = None"
    using row_entry_Some [of r] assms(4) by (cases "row_entry r") auto
  then have "those (map row_entry rows) = None"
    using assms(3) by (induction rows) (auto split: option.split)
  then show ?thesis
    using assms(1,2) by (simp add: vault_main_def NewClient_def read_entries_eq)
qed

definition sample_vault :: "unit vault_lib" where
  "sample_vault = \<lparr>Write = (\<lambda>_ _ w. (None, w))\<rparr>"


end
