(* ===== verification/Hci_Scan.thy ===== *)
theory Hci_Scan
  imports Go_Prelude "HOL-Library.List_Lexorder" "HOL-Library.Char_ord"
begin

text \<open>
  The Bluetooth scanner of \<open>src/hciscan\<close>: the map of discovered devices, the discovery loop
  and the sorted listing it prints every five seconds.

  The Bluetooth adapter is an argument: the results of opening it and the events of its
  discovery channel, each with what \<open>device.NewDevice1\<close> returns for it. Go iterates over a map
  in no particular order, so the listing takes an enumeration of the keys. The watchers
  of beacons are in \<open>Hci_Beacon\<close>.
\<close>

section \<open>Devices\<close>

record bluetoothDev =
  addr :: string
  devAlias :: string
  rssi :: int

record hciScan =
  adapterID :: string
  beacon :: bool
  uniqDevices :: "string \<Rightarrow> bluetoothDev option"

definition New :: "string \<Rightarrow> bool \<Rightarrow> hciScan" where
  "New adapter b = \<lparr>adapterID = adapter, beacon = b, uniqDevices = Map.empty\<rparr>"

definition update :: "string \<Rightarrow> string \<Rightarrow> int \<Rightarrow> hciScan \<Rightarrow> hciScan" where
  "update a al r hci =
     (let dev = \<lparr>addr = a, devAlias = al, rssi = r\<rparr>
      in hci\<lparr>uniqDevices := (uniqDevices hci)(a \<mapsto> dev)\<rparr>)"

text \<open>An event of the discovery channel, with the device object behind its path.\<close>

datatype discovery_type = DeviceAdded | DeviceRemoved

record device_properties =
  Address :: string
  Alias :: string
  RSSI :: int

record DeviceDiscovered =
  Type :: discovery_type
  Path :: string
  NewDevice1 :: "string + device_properties option"

text \<open>\<open>store\<close>; for a removed device it only writes to the log before it goes on.\<close>

definition store :: "DeviceDiscovered \<Rightarrow> hciScan \<Rightarrow> string option \<times> hciScan" where
  "store ev hci =
     (case NewDevice1 ev of
        Inl err \<Rightarrow> (Some err, hci)
      | Inr None \<Rightarrow> (Some (''[new dev] '' @ Path ev @ '': not found''), hci)
      | Inr (Some dev) \<Rightarrow> (None, update (Address dev) (Alias dev) (RSSI dev) hci))"

section \<open>The listing\<close>

text \<open>The keys are enumerated by \<open>order\<close>; a nil device is skipped.\<close>

fun collect_addresses :: "(string \<Rightarrow> bluetoothDev option) \<Rightarrow> string list \<Rightarrow> string list" where
  "collect_addresses m [] = []"
| "collect_addresses m (k # ks) =
     (case m k of None \<Rightarrow> collect_addresses m ks | Some v \<Rightarrow> addr v # collect_addresses m ks)"

definition sortHCIAddresses :: "string list \<Rightarrow> hciScan \<Rightarrow> string list" where
  "sortHCIAddresses order hci = sort (collect_addresses (uniqDevices hci) order)"

fun listing :: "hciScan \<Rightarrow> string list \<Rightarrow> bluetoothDev list" where
  "listing hci [] = []"
| "listing hci (k # ks) =
     (case uniqDevices hci k of None \<Rightarrow> listing hci ks | Some dev \<Rightarrow> dev # listing hci ks)"

text \<open>The estimated distance of a printed device.\<close>

definition distanceMt :: "'f float64_ops \<Rightarrow> ('f \<Rightarrow> 'f \<Rightarrow> 'f) \<Rightarrow> bluetoothDev \<Rightarrow> 'f" where
  "distanceMt fl math_Pow dev =
     math_Pow (f_of_int fl 10)
       (f_div fl (f_add fl (f_of_int fl (- 69)) (f_mul fl (f_of_int fl (- 1)) (f_of_int fl (rssi dev))))
          (f_mul fl (f_of_int fl 10) (f_of_int fl 2)))"

section \<open>The scan\<close>

text \<open>What the select of the loop receives: a tick with its map order, or an event (nil ends it).\<close>

datatype scan_input = Tick "string list" | Discovered "DeviceDiscovered option"

text \<open>The loop: whether it returned, the listings printed, and the scanner.\<close>

fun scan_loop :: "scan_input list \<Rightarrow> hciScan \<Rightarrow> bool \<times> bluetoothDev list list \<times> hciScan" where
  "scan_loop [] hci = (False, [], hci)"
| "scan_loop (Tick order # ins) hci =
     (case scan_loop ins hci of
        (b, ls, hci') \<Rightarrow> (b, listing hci (sortHCIAddresses order hci) # ls, hci'))"
| "scan_loop (Discovered None # ins) hci = (True, [], hci)"
| "scan_loop (Discovered (Some ev) # ins) hci = scan_loop ins (snd (store ev hci))"

definition Scan ::
  "string option \<Rightarrow> string option \<Rightarrow> string option \<Rightarrow> scan_input list \<Rightarrow> hciScan
   \<Rightarrow> string option \<times> bluetoothDev list list \<times> hciScan" where
  "Scan adapterErr flushErr discoverErr ins hci =
     (if adapterErr \<noteq> None then (adapterErr, [], hci)
      else if flushErr \<noteq> None then (flushErr, [], hci)
      else if discoverErr \<noteq> None then (discoverErr, [], hci)
      else (case scan_loop ins hci of (_, ls, hci) \<Rightarrow> (None, ls, hci)))"

section \<open>Lemmas\<close>

text \<open>The type of the map: finite, and every device under its own address.\<close>

definition devices_wf :: "hciScan \<Rightarrow> bool" where
  "devices_wf hci \<longleftrightarrow> finite (dom (uniqDevices hci)) \<and>
     (\<forall>k dev. uniqDevices hci k = Some dev \<longrightarrow> addr dev = k)"

lemma New_devices_wf: "devices_wf (New a b)"
  by (simp add: devices_wf_def New_def)

lemma store_wf: "devices_wf hci \<Longrightarrow> devices_wf (snd (store ev hci))"
  by (auto simp: devices_wf_def store_def update_def split: sum.split option.split)

text \<open>An enumeration of the keys of the map.\<close>

definition enumerates :: "string list \<Rightarrow> hciScan \<Rightarrow> bool" where
  "enumerates order hci \<longleftrightarrow> distinct order \<and> set order = dom (uniqDevices hci)"

lemma collect_addresses_wf:
  "\<forall>k dev. m k = Some dev \<longrightarrow> addr dev = k \<Longrightarrow> collect_addresses m ks = filter (\<lambda>k. m k \<noteq> None) ks"
  by (induction ks) (auto split: option.split)

lemma sortHCIAddresses_wf:
  assumes "devices_wf hci" and "enumerates order hci"
  shows "sortHCIAddresses order hci = sorted_list_of_set (dom (uniqDevices hci))"
proof -
  have "collect_addresses (uniqDevices hci) order = filter (\<lambda>k. uniqDevices hci k \<noteq> None) order"
    using assms(1) by (intro collect_addresses_wf) (simp add: devices_wf_def)
  also have "\<dots> = order"
    using assms(2) by (auto simp: enumerates_def filter_id_conv)
  finally have "sortHCIAddresses order hci = sort (remdups order)"
    using assms(2) by (simp add: sortHCIAddresses_def enumerates_def distinct_remdups_id)
  then show ?thesis
    using assms(2) by (simp add: enumerates_def sorted_list_of_set_sort_remdups [symmetric])
qed

text \<open>The devices that the events of a run sighted, in order, and the last sighting of each address.\<close>

fun sightings :: "scan_input list \<Rightarrow> (string \<times> bluetoothDev) list" where
  "sightings [] = []"
| "sightings (Discovered (Some ev) # ins) =
     (case NewDevice1 ev of
        Inr (Some dev) \<Rightarrow> (Address dev, \<lparr>addr = Address dev, devAlias = Alias dev, rssi = RSSI dev\<rparr>) # sightings ins
      | _ \<Rightarrow> sightings ins)"
| "sightings (i # ins) = sightings ins"

definition latest :: "scan_input list \<Rightarrow> string \<Rightarrow> bluetoothDev option" where
  "latest ins = map_of (rev (sightings ins))"

lemma scan_loop_devices:
  "Discovered None \<notin> set ins \<Longrightarrow>
   uniqDevices (snd (snd (scan_loop ins hci))) = uniqDevices hci ++ map_of (rev (sightings ins))"
  by (induction ins hci rule: scan_loop.induct)
    (auto simp: store_def update_def Let_def split: prod.splits sum.splits option.splits)

lemma scan_loop_wf: "devices_wf hci \<Longrightarrow> devices_wf (snd (snd (scan_loop ins hci)))"
  by (induction ins hci rule: scan_loop.induct) (auto simp: store_wf split: prod.splits)

lemma scan_loop_snoc:
  "Discovered None \<notin> set ins \<Longrightarrow>
   fst (snd (scan_loop (ins @ [Tick order]) hci)) =
     fst (snd (scan_loop ins hci)) @
     [listing (snd (snd (scan_loop ins hci))) (sortHCIAddresses order (snd (snd (scan_loop ins hci))))]"
  by (induction ins hci rule: scan_loop.induct) (auto split: prod.splits)

lemma listing_eq: "set ks \<subseteq> dom (uniqDevices hci) \<Longrightarrow> listing hci ks = map (\<lambda>k. the (uniqDevices hci k)) ks"
  by (induction ks) (auto split: option.split)

section \<open>Properties\<close>

text \<open>
  (C30) The map of devices keeps its type over any run of the discovery loop, every device under
  its own address, and so a tick lists every address sighted so far exactly once, in
  ascending order whatever order the map is iterated in, each with its latest sighting.
\<close>

theorem scan_lists_latest:
  assumes "Discovered None \<notin> set ins" and "enumerates order (snd (snd (scan_loop ins (New a b))))"
  shows "devices_wf (snd (snd (scan_loop ins (New a b)))) \<and>
    fst (snd (scan_loop (ins @ [Tick order]) (New a b))) =
      fst (snd (scan_loop ins (New a b))) @
      [map (\<lambda>k. the (latest ins k)) (sorted_list_of_set (dom (latest ins)))]"
proof -
  let ?hci = "snd (snd (scan_loop ins (New a b)))"
  have wf: "devices_wf ?hci"
    using scan_loop_wf New_devices_wf by blast
  have devices: "uniqDevices ?hci = latest ins"
    using scan_loop_devices [OF assms(1)] by (simp add: latest_def New_def)
  have "set (sorted_list_of_set (dom (latest ins))) \<subseteq> dom (uniqDevices ?hci)"
    using wf devices by (simp add: devices_wf_def)
  then show ?thesis
    using scan_loop_snoc [OF assms(1)] sortHCIAddresses_wf [OF wf assms(2)] wf listing_eq devices by simp
qed

definition sample_event :: "string \<Rightarrow> int \<Rightarrow> scan_input" where
  "sample_event a r = Discovered (Some \<lparr>Type = DeviceAdded, Path = a,
     NewDevice1 = Inr (Some \<lparr>Address = a, Alias = ''x'', RSSI = r\<rparr>)\<rparr>)"

theorem scan_lists_latest_witness:
  "fst (snd (scan_loop ([sample_event ''b'' 1, sample_event ''a'' 2, sample_event ''b'' 3] @ [Tick [''b'', ''a'']])
      (New ''hci0'' False))) =
   fst (snd (scan_loop [sample_event ''b'' 1, sample_event ''a'' 2, sample_event ''b'' 3] (New ''hci0'' False))) @
   [map (\<lambda>k. the (latest [sample_event ''b'' 1, sample_event ''a'' 2, sample_event ''b'' 3] k))
     (sorted_list_of_set (dom (latest [sample_event ''b'' 1, sample_event ''a'' 2, sample_event ''b'' 3])))]"
  by (rule scan_lists_latest [THEN conjunct2])
    (auto simp: sample_event_def enumerates_def store_def update_def New_def)

end
