(* ===== verification/Hci_Beacon.thy ===== *)
theory Hci_Beacon
  imports Hci_Scan
begin

text \<open>
  The beacon watchers of \<open>src/hciscan/hci_scan.go\<close>: each stored device starts a goroutine that
  waits for the first change of the device and logs what kind of beacon it is.

  The beacon library is an argument: what \<open>beacon.NewBeacon\<close> and \<open>WatchDeviceChanges\<close> return for
  a device, and the first value of the channel of changes, if it ever comes. Log lines are data;
  a watcher touches nothing that the scanner reads.
\<close>

section \<open>Beacons\<close>

datatype eddystone_frame = UID | TLM | URL | OtherFrame

record 'f eddystone =
  Frame :: eddystone_frame
  ed_UID :: string
  InstanceUID :: string
  CalibratedTxPower :: int
  TLMTemperature :: 'f
  TLMBatteryVoltage :: int
  TLMLastRebootedTime :: int
  TLMAdvertisingPDU :: int
  ed_URL :: string

record ibeacon =
  ProximityUUID :: string
  MeasuredPower :: int
  Major :: int
  Minor :: int

record 'f Beacon =
  b_Type :: string
  b_Alias :: string
  b_Name :: string
  GetEddystone :: "'f eddystone option"
  GetIBeacon :: "ibeacon option"

record 'f beacon_lib =
  NewBeacon :: "string + 'f Beacon"
  WatchDeviceChanges :: "string option"
  beaconUpdated :: "bool option"

datatype 'f beacon_log =
  Weird bool
| Found string string
| EddystoneUID string string int
| EddystoneTLM 'f int int int int
| EddystoneURL string int
| IBeacon string int int int

definition log_eddystone :: "'f eddystone \<Rightarrow> 'f beacon_log list" where
  "log_eddystone ed =
     (case Frame ed of
        UID \<Rightarrow> [EddystoneUID (ed_UID ed) (InstanceUID ed) (CalibratedTxPower ed)]
      | TLM \<Rightarrow> [EddystoneTLM (TLMTemperature ed) (TLMBatteryVoltage ed) (TLMLastRebootedTime ed)
                 (TLMAdvertisingPDU ed) (CalibratedTxPower ed)]
      | URL \<Rightarrow> [EddystoneURL (ed_URL ed) (CalibratedTxPower ed)]
      | OtherFrame \<Rightarrow> [])"

text \<open>The error and the log of a watcher; \<open>None\<close> while it waits for the channel.\<close>

definition handleBeacon :: "'f beacon_lib \<Rightarrow> (string option \<times> 'f beacon_log list) option" where
  "handleBeacon lib =
     (case NewBeacon lib of
        Inl err \<Rightarrow> Some (Some err, [])
      | Inr b \<Rightarrow>
          (case WatchDeviceChanges lib of
             Some err \<Rightarrow> Some (Some err, [])
           | None \<Rightarrow>
               (case beaconUpdated lib of
                  None \<Rightarrow> None
                | Some isBeacon \<Rightarrow>
                    if \<not> isBeacon then Some (None, [Weird isBeacon])
                    else let name = (if b_Alias b = [] then b_Name b else b_Alias b)
                         in Some (None, Found (b_Type b) name #
                              (case GetEddystone b of Some ed \<Rightarrow> log_eddystone ed | None \<Rightarrow> []) @
                              (case GetIBeacon b of
                                 Some ib \<Rightarrow> [IBeacon (ProximityUUID ib) (MeasuredPower ib) (Major ib) (Minor ib)]
                               | None \<Rightarrow> [])))))"

section \<open>The watchers of a scan\<close>

text \<open>
  The goroutine that \<open>store\<close> starts for an event, with the library as it is for the device; and
  those of a run, in the order they are started.
\<close>

definition store_watcher :: "(string \<Rightarrow> 'f beacon_lib) \<Rightarrow> DeviceDiscovered \<Rightarrow> (string \<times> (string option \<times> 'f beacon_log list) option) option" where
  "store_watcher libs ev =
     (case NewDevice1 ev of
        Inr (Some dev) \<Rightarrow> Some (Path ev, handleBeacon (libs (Address dev)))
      | _ \<Rightarrow> None)"

fun scan_watchers :: "(string \<Rightarrow> 'f beacon_lib) \<Rightarrow> scan_input list \<Rightarrow> (string \<times> (string option \<times> 'f beacon_log list) option) list" where
  "scan_watchers libs [] = []"
| "scan_watchers libs (Tick order # ins) = scan_watchers libs ins"
| "scan_watchers libs (Discovered None # ins) = []"
| "scan_watchers libs (Discovered (Some ev) # ins) =
     (case store_watcher libs ev of Some w \<Rightarrow> [w] | None \<Rightarrow> []) @ scan_watchers libs ins"

text \<open>The goroutines that still wait.\<close>

definition waiting :: "(string \<Rightarrow> 'f beacon_lib) \<Rightarrow> scan_input list \<Rightarrow> nat" where
  "waiting libs ins = length (filter (\<lambda>w. snd w = None) (scan_watchers libs ins))"

section \<open>Properties\<close>

text \<open>
  Every sighting starts a watcher of its own, also the repeated sighting of a device and its
  removal, and nothing ends one that waits: as many wait as there were sightings of devices
  whose change has not come.
\<close>

theorem watchers_per_sighting:
  assumes "Discovered None \<notin> set ins"
  shows "length (scan_watchers libs ins) = length (sightings ins)"
    and "waiting libs ins = length (filter (\<lambda>s. handleBeacon (libs (fst s)) = None) (sightings ins))"
  using assms by (induction libs ins rule: scan_watchers.induct)
    (auto simp: store_watcher_def waiting_def split: sum.splits option.splits)

text \<open>A device that never changes costs one goroutine per event, while the map keeps one entry for it.\<close>

lemma silent_device_accumulates:
  assumes "handleBeacon (libs (Address dev)) = None"
  shows "waiting libs (replicate n (Discovered (Some \<lparr>Type = ty, Path = p, NewDevice1 = Inr (Some dev)\<rparr>))) = n"
  using assms by (induction n) (simp_all add: waiting_def store_watcher_def)

text \<open>The log of a watcher that ends without an error names the device first and has at most one line of each kind.\<close>

lemma handleBeacon_log:
  assumes "handleBeacon lib = Some (None, msgs)"
  shows "msgs = [Weird False] \<or>
    (\<exists>ty name rest. msgs = Found ty name # rest \<and> length rest \<le> 2 \<and> distinct rest \<and>
       (\<forall>b. NewBeacon lib = Inr b \<longrightarrow> (name = [] \<longleftrightarrow> b_Alias b = [] \<and> b_Name b = [])))"
  using assms
  by (auto simp: handleBeacon_def log_eddystone_def Let_def split: sum.splits option.splits if_splits eddystone_frame.splits)

end
