(* ===== verification/Tls_Handshake.thy ===== *)
theory Tls_Handshake
  imports Go_Prelude
begin

text \<open>
  The TLS server and client of \<open>src/tls-handshake-go\<close>: their configurations, the callbacks
  that report the negotiated version and slow old versions down, the handler, and one request
  of the client.

  Of \<open>crypto/tls\<close> the negotiation of the version is modelled, for the Go versions that have the
  callback \<open>VerifyConnection\<close> (1.15 and later): the library supports TLS 1.0 to 1.3, a
  configuration bounds them by its fields, zero meaning the default, and the server takes the
  first version of the client's list that it supports. Whether the certificates and cipher
  suites fit is an argument.
\<close>

section \<open>Configurations and versions\<close>

type_synonym tls_version = uint16

abbreviation VersionSSL30 :: tls_version where "VersionSSL30 \<equiv> 0x300"
abbreviation VersionTLS10 :: tls_version where "VersionTLS10 \<equiv> 0x301"
abbreviation VersionTLS11 :: tls_version where "VersionTLS11 \<equiv> 0x302"
abbreviation VersionTLS12 :: tls_version where "VersionTLS12 \<equiv> 0x303"
abbreviation VersionTLS13 :: tls_version where "VersionTLS13 \<equiv> 0x304"

datatype tls_event = Println string | Sleep duration

record tls_config =
  MinVersion :: tls_version
  MaxVersion :: tls_version
  VerifyConnection :: "tls_version \<Rightarrow> string option \<times> tls_event list"
  CurvePreferences :: "string list"
  PreferServerCipherSuites :: bool
  CipherSuites :: "string list"
  ServerName :: string
  ClientAuth :: nat
  InsecureSkipVerify :: bool
  SessionTicketsDisabled :: bool
  DynamicRecordSizingDisabled :: bool
  Renegotiation :: nat

definition DeprecatedTlsVersionWait :: duration where
  "DeprecatedTlsVersionWait = 15 * Second"

definition server_VerifyConnection :: "tls_version \<Rightarrow> string option \<times> tls_event list" where
  "server_VerifyConnection v =
     (None,
      (if v = VersionSSL30 then [Println ''Negotiated SSL Version: 3.0'', Sleep DeprecatedTlsVersionWait] else []) @
      (if v = VersionTLS10 then [Println ''Negotiated TLS Version: 1.0'', Sleep DeprecatedTlsVersionWait] else []) @
      (if v = VersionTLS11 then [Println ''Negotiated TLS Version: 1.1'', Sleep DeprecatedTlsVersionWait] else []) @
      (if v = VersionTLS12 then [Println ''Negotiated TLS Version: 1.2'', Sleep DeprecatedTlsVersionWait] else []) @
      (if v = VersionTLS13 then [Println ''Negotiated TLS Version: 1.3''] else []))"

definition client_VerifyConnection :: "tls_version \<Rightarrow> string option \<times> tls_event list" where
  "client_VerifyConnection v =
     (None,
      (if v = VersionTLS10 then [Println ''Negotiated TLS Version: 1.0''] else []) @
      (if v = VersionTLS11 then [Println ''Negotiated TLS Version: 1.1''] else []) @
      (if v = VersionTLS12 then [Println ''Negotiated TLS Version: 1.2''] else []) @
      (if v = VersionTLS13 then [Println ''Negotiated TLS Version: 1.3''] else []) @
      (if v = VersionSSL30 then [Println ''Negotiated SSL Version: 3.0''] else []))"

definition server_cfg :: tls_config where
  "server_cfg = \<lparr>MinVersion = VersionSSL30, MaxVersion = VersionTLS13, VerifyConnection = server_VerifyConnection,
     CurvePreferences = [''P521'', ''P384'', ''P256''], PreferServerCipherSuites = True,
     CipherSuites = [''ECDHE_RSA_WITH_AES_256_GCM_SHA384'', ''ECDHE_RSA_WITH_AES_256_CBC_SHA'',
       ''RSA_WITH_AES_256_GCM_SHA384'', ''RSA_WITH_AES_256_CBC_SHA''],
     ServerName = ''localhost.localdomain'', ClientAuth = 0, InsecureSkipVerify = False,
     SessionTicketsDisabled = False, DynamicRecordSizingDisabled = False, Renegotiation = 0\<rparr>"

definition client_cfg :: tls_config where
  "client_cfg = \<lparr>MinVersion = 0, MaxVersion = 0, VerifyConnection = client_VerifyConnection,
     CurvePreferences = [], PreferServerCipherSuites = True, CipherSuites = [],
     ServerName = ''localhost.localdomain'', ClientAuth = 0, InsecureSkipVerify = False,
     SessionTicketsDisabled = False, DynamicRecordSizingDisabled = False, Renegotiation = 0\<rparr>"

section \<open>Negotiation\<close>

definition supportedVersions :: "tls_version \<Rightarrow> tls_config \<Rightarrow> tls_version list" where
  "supportedVersions default_min cfg =
     filter (\<lambda>v. (if MinVersion cfg = 0 then default_min else MinVersion cfg) \<le> v \<and>
                 (MaxVersion cfg = 0 \<or> v \<le> MaxVersion cfg))
       [VersionTLS13, VersionTLS12, VersionTLS11, VersionTLS10]"

definition mutualVersion :: "tls_config \<Rightarrow> tls_version list \<Rightarrow> tls_version option" where
  "mutualVersion cfg peer = find (\<lambda>v. v \<in> set (supportedVersions VersionTLS10 cfg)) peer"

text \<open>
  One connection to the server: the versions the peer offers, whether the rest of the handshake
  succeeds, and the events of the server. The connection is up when the version is returned.
\<close>

definition server_handshake ::
  "tls_version list \<Rightarrow> (tls_version \<Rightarrow> bool) \<Rightarrow> tls_version option \<times> tls_event list" where
  "server_handshake peer rest_ok =
     (case mutualVersion server_cfg peer of
        None \<Rightarrow> (None, [])
      | Some v \<Rightarrow>
          if \<not> rest_ok v then (None, [])
          else (case VerifyConnection server_cfg v of
                  (Some err, evs) \<Rightarrow> (None, evs)
                | (None, evs) \<Rightarrow> (Some v, evs)))"

section \<open>Server and client\<close>

record tls_response =
  resp_header :: "(string \<times> string) list"
  resp_body :: string

definition server_handler :: tls_response where
  "server_handler =
     \<lparr>resp_header = [(''Strict-Transport-Security'', ''max-age=63072000; includeSubDomains'')],
      resp_body = ''This is an example server.'' @ [CHR 0x0A]\<rparr>"

text \<open>The client: a panic, a fatal error, or the line with the body.\<close>

datatype tls_end = TlsPanic string | TlsFatal string | TlsPrinted string

record client_env =
  AppendCertsFromPEM :: bool
  client_min :: tls_version
  trusts :: "tls_version \<Rightarrow> bool"
  ReadAll_err :: "string option"

definition client_main :: "client_env \<Rightarrow> tls_end \<times> tls_event list \<times> tls_event list" where
  "client_main env =
     (if \<not> AppendCertsFromPEM env then (TlsPanic ''failed to parse root certificate'', [], [])
      else (case server_handshake (supportedVersions (client_min env) client_cfg) (trusts env) of
              (None, server_evs) \<Rightarrow> (TlsFatal ''Failed to get URL'', [], server_evs)
            | (Some v, server_evs) \<Rightarrow>
                (case VerifyConnection client_cfg v of
                   (Some err, evs) \<Rightarrow> (TlsFatal (''Failed to get URL: '' @ err), evs, server_evs)
                 | (None, evs) \<Rightarrow>
                     (case ReadAll_err env of
                        Some err \<Rightarrow> (TlsFatal (''Failed to get body: '' @ err), evs, server_evs)
                      | None \<Rightarrow> (TlsPrinted (''body: '' @ resp_body server_handler), evs, server_evs)))))"

section \<open>Lemmas\<close>

definition slept :: "tls_event list \<Rightarrow> duration" where
  "slept evs = sum_list (map (\<lambda>e. case e of Sleep d \<Rightarrow> d | Println _ \<Rightarrow> 0) evs)"

lemma server_versions: "supportedVersions VersionTLS10 server_cfg = [VersionTLS13, VersionTLS12, VersionTLS11, VersionTLS10]"
  by (simp add: supportedVersions_def server_cfg_def)

text \<open>
  Whatever a peer offers, the server connects with a version from TLS 1.0 to 1.3 only, its
  lower bound SSL 3.0 notwithstanding, so the branch for SSL 3.0 never runs; it reports exactly
  the version, and delays the connection by 15 seconds for every version but TLS 1.3.
\<close>

theorem server_delays_old_versions:
  assumes "server_handshake peer ok = (Some v, evs)"
  shows "v \<in> set peer \<and> VersionTLS10 \<le> v \<and> v \<le> VersionTLS13 \<and>
    slept evs = (if v = VersionTLS13 then 0 else 15 * Second) \<and>
    (\<exists>minor \<in> {''0'', ''1'', ''2'', ''3''}. filter (\<lambda>e. case e of Println _ \<Rightarrow> True | _ \<Rightarrow> False) evs =
       [Println (''Negotiated TLS Version: 1.'' @ minor)])"
proof -
  have m: "mutualVersion server_cfg peer = Some v" and e: "evs = snd (server_VerifyConnection v)"
    using assms by (auto simp: server_handshake_def server_cfg_def server_VerifyConnection_def split: option.splits if_splits)
  then have v: "v \<in> set peer" "v \<in> {VersionTLS13, VersionTLS12, VersionTLS11, VersionTLS10}"
    by (auto simp: mutualVersion_def server_versions dest: find_SomeD)
  from v(2) show ?thesis
    using v(1) by (auto simp: e server_VerifyConnection_def slept_def DeprecatedTlsVersionWait_def)
qed

text \<open>The client of the repository gets TLS 1.3, and the body without a delay, when it trusts the server.\<close>

lemma client_gets_body:
  assumes "AppendCertsFromPEM env" and "client_min env \<le> VersionTLS13" and "trusts env VersionTLS13" and "ReadAll_err env = None"
  shows "client_main env = (TlsPrinted (''body: '' @ resp_body server_handler),
    [Println ''Negotiated TLS Version: 1.3''], [Println ''Negotiated TLS Version: 1.3''])"
proof -
  have "hd (supportedVersions (client_min env) client_cfg) = VersionTLS13" "supportedVersions (client_min env) client_cfg \<noteq> []"
    using assms(2) by (auto simp: supportedVersions_def client_cfg_def)
  then obtain vs where "supportedVersions (client_min env) client_cfg = VersionTLS13 # vs"
    by (metis list.collapse)
  then have "server_handshake (supportedVersions (client_min env) client_cfg) (trusts env) =
      (Some VersionTLS13, [Println ''Negotiated TLS Version: 1.3''])"
    using assms(3) by (simp add: server_handshake_def mutualVersion_def server_versions server_cfg_def server_VerifyConnection_def
        supportedVersions_def)
  then show ?thesis
    using assms by (simp add: client_main_def client_cfg_def client_VerifyConnection_def)
qed

theorem server_delays_old_versions_witness:
  "server_handshake [VersionTLS12] (\<lambda>_. True) =
     (Some VersionTLS12, [Println ''Negotiated TLS Version: 1.2'', Sleep DeprecatedTlsVersionWait]) \<and>
   slept [Println ''Negotiated TLS Version: 1.2'', Sleep DeprecatedTlsVersionWait] = 15 * Second"
proof -
  have "server_handshake [VersionTLS12] (\<lambda>_. True) =
     (Some VersionTLS12, [Println ''Negotiated TLS Version: 1.2'', Sleep DeprecatedTlsVersionWait])"
    by (simp add: server_handshake_def mutualVersion_def server_versions server_cfg_def server_VerifyConnection_def
        supportedVersions_def)
  with server_delays_old_versions [OF this] show ?thesis
    by simp
qed

end
