(* ===== verification/Pebble_Store.thy ===== *)
theory Pebble_Store
  imports Go_Prelude "HOL-Library.State_Monad"
begin

text \<open>
  The exploration of the pebble database in \<open>src/pebble-foo/main.go\<close>: one thousand pairs are
  set, got back and printed, first in a database on disk and then in one in memory.

  The database of \<open>cockroachdb/pebble\<close> is a state of an arbitrary type with its operations as
  arguments. The program threads it through its calls together with the output, in the state
  monad; a fatal error is the value \<open>Some\<close> and ends the program at once.
\<close>

section \<open>The program\<close>

record 'd pebble_lib =
  pb_Open :: "string \<Rightarrow> bool \<Rightarrow> string + 'd"
  pb_Set :: "string \<Rightarrow> string \<Rightarrow> bool \<Rightarrow> 'd \<Rightarrow> string option \<times> 'd"
  pb_Get :: "string \<Rightarrow> 'd \<Rightarrow> string + string"
  pb_closer_Close :: "'d \<Rightarrow> string option \<times> 'd"
  pb_Close :: "'d \<Rightarrow> string option"

text \<open>The database and what was printed.\<close>

type_synonym 'd pebble_state = "'d \<times> string"

definition db_Set :: "'d pebble_lib \<Rightarrow> string \<Rightarrow> string \<Rightarrow> bool \<Rightarrow> ('d pebble_state, string option) state" where
  "db_Set lib key val sync = State (\<lambda>(d, out). case pb_Set lib key val sync d of (err, d) \<Rightarrow> (err, (d, out)))"

definition db_Get :: "'d pebble_lib \<Rightarrow> string \<Rightarrow> ('d pebble_state, string + string) state" where
  "db_Get lib key = State (\<lambda>(d, out). (pb_Get lib key d, (d, out)))"

definition closer_Close :: "'d pebble_lib \<Rightarrow> ('d pebble_state, string option) state" where
  "closer_Close lib = State (\<lambda>(d, out). case pb_closer_Close lib d of (err, d) \<Rightarrow> (err, (d, out)))"

definition Print :: "string \<Rightarrow> ('d pebble_state, unit) state" where
  "Print s = State (\<lambda>(d, out). ((), (d, out @ s)))"

definition pebble_key :: "nat \<Rightarrow> string" where
  "pebble_key i = ''hello '' @ Itoa (int i)"

definition pebble_line :: "string \<Rightarrow> string \<Rightarrow> string" where
  "pebble_line key val = key @ '' '' @ val @ [CHR 0x0A]"

text \<open>The body of the loop, and the loop for the counters \<open>i\<close> up to \<open>i + n\<close>.\<close>

definition pebble_body :: "'d pebble_lib \<Rightarrow> bool \<Rightarrow> nat \<Rightarrow> ('d pebble_state, string option) state" where
  "pebble_body lib sync i = do {
     err \<leftarrow> db_Set lib (pebble_key i) ''world'' sync;
     case err of
       Some e \<Rightarrow> State_Monad.return (Some e)
     | None \<Rightarrow> do {
         r \<leftarrow> db_Get lib (pebble_key i);
         case r of
           Inl e \<Rightarrow> State_Monad.return (Some e)
         | Inr val \<Rightarrow> do {
             Print (pebble_line (pebble_key i) val);
             closer_Close lib
           }
       }
   }"

fun pebble_loop :: "'d pebble_lib \<Rightarrow> bool \<Rightarrow> nat \<Rightarrow> nat \<Rightarrow> ('d pebble_state, string option) state" where
  "pebble_loop lib sync i 0 = State_Monad.return None"
| "pebble_loop lib sync i (Suc n) = do {
     err \<leftarrow> pebble_body lib sync i;
     case err of
       Some e \<Rightarrow> State_Monad.return (Some e)
     | None \<Rightarrow> pebble_loop lib sync (Suc i) n
   }"

text \<open>
  One demonstration, the body of both functions: the fatal error if there was one, the output, and whether the deferred
  \<open>closeDB\<close> ran, which it does not after \<open>log.Fatal\<close>.
\<close>

definition basedPebble :: "'d pebble_lib \<Rightarrow> string \<Rightarrow> bool \<Rightarrow> bool \<Rightarrow> string option \<times> string \<times> bool" where
  "basedPebble lib dir mem sync =
     (case pb_Open lib dir mem of
        Inl e \<Rightarrow> (Some e, [], False)
      | Inr d \<Rightarrow>
          (case run_state (pebble_loop lib sync 0 1000) (d, []) of
             (Some e, (d, out)) \<Rightarrow> (Some e, out, False)
           | (None, (d, out)) \<Rightarrow> (pb_Close lib d, out, True)))"

definition fileBasedPebble :: "'d pebble_lib \<Rightarrow> string option \<times> string \<times> bool" where
  "fileBasedPebble lib = basedPebble lib ''disk-demo'' False True"

definition memBasedPebble :: "'d pebble_lib \<Rightarrow> string option \<times> string \<times> bool" where
  "memBasedPebble lib = basedPebble lib ''memfs-demo'' True False"

definition pebble_main :: "'d pebble_lib \<Rightarrow> string option \<times> string" where
  "pebble_main lib =
     (case fileBasedPebble lib of
        (Some e, out, _) \<Rightarrow> (Some e, out)
      | (None, out, _) \<Rightarrow>
          (case memBasedPebble lib of (err, out', _) \<Rightarrow> (err, out @ ''======'' @ out')))"

section \<open>Lemmas\<close>

text \<open>The database returns what was set, when neither call fails.\<close>

definition reads_own_writes :: "'d pebble_lib \<Rightarrow> bool" where
  "reads_own_writes lib \<longleftrightarrow>
     (\<forall>k v sync d d' x. pb_Set lib k v sync d = (None, d') \<longrightarrow> pb_Get lib k d' = Inr x \<longrightarrow> x = v)"

definition expected :: "nat \<Rightarrow> nat \<Rightarrow> string" where
  "expected i n = concat (map (\<lambda>j. pebble_line (pebble_key j) ''world'') [i..<i + n])"

lemma expected_simps: "expected i 0 = []" "expected i (Suc n) = pebble_line (pebble_key i) ''world'' @ expected (Suc i) n"
  by (simp_all add: expected_def upt_conv_Cons del: upt_Suc)

lemmas pebble_run = pebble_body_def db_Set_def db_Get_def Print_def closer_Close_def State_Monad.bind_def
  State_Monad.return_def

text \<open>The body prints its line, or fails; it can fail after the line, when the closer does.\<close>

lemma pebble_body_cases:
  assumes "reads_own_writes lib" and "run_state (pebble_body lib sync i) (d, out) = (err, (d', out'))"
  shows "out' = out @ pebble_line (pebble_key i) ''world'' \<or> (\<exists>e. err = Some e) \<and> out' = out"
proof -
  obtain e1 d1 where s: "pb_Set lib (pebble_key i) ''world'' sync d = (e1, d1)"
    by fastforce
  show ?thesis
  proof (cases e1)
    case None
    then have "\<And>x. pb_Get lib (pebble_key i) d1 = Inr x \<Longrightarrow> x = ''world''"
      using assms(1) s unfolding reads_own_writes_def by blast
    with None assms(2) s show ?thesis
      by (auto simp: pebble_run split: sum.splits prod.splits)
  qed (use assms s in \<open>auto simp: pebble_run\<close>)
qed

lemma pebble_loop_prints:
  assumes "reads_own_writes lib" and "run_state (pebble_loop lib sync i n) (d, out) = (err, (d', out'))"
  shows "\<exists>m \<le> n. out' = out @ expected i m \<and> (err = None \<longrightarrow> m = n)"
  using assms(2)
proof (induction n arbitrary: i d out)
  case 0
  then show ?case
    by (simp add: State_Monad.return_def expected_simps)
next
  case (Suc n)
  obtain e1 d1 o1 where b: "run_state (pebble_body lib sync i) (d, out) = (e1, (d1, o1))"
    by (metis prod.exhaust)
  show ?case
  proof (cases e1)
    case (Some e)
    then have "out' = o1" "err = Some e"
      using Suc.prems b by (simp_all add: State_Monad.bind_def State_Monad.return_def)
    then show ?thesis
      using pebble_body_cases [OF assms(1) b]
      by (auto intro: exI [of _ 0] exI [of _ "Suc 0"] simp: expected_simps)
  next
    case None
    then have "run_state (pebble_loop lib sync (Suc i) n) (d1, o1) = (err, (d', out'))"
      using Suc.prems b by (simp add: State_Monad.bind_def)
    then obtain m where "m \<le> n" "out' = o1 @ expected (Suc i) m" "err = None \<longrightarrow> m = n"
      using Suc.IH by blast
    moreover have "o1 = out @ pebble_line (pebble_key i) ''world''"
      using pebble_body_cases [OF assms(1) b] None by simp
    ultimately show ?thesis
      by (intro exI [of _ "Suc m"]) (simp add: expected_simps)
  qed
qed

text \<open>
  Each demonstration prints the pairs in order, up to a first failure: all thousand when it
  succeeds, and then the database is closed; after a failure before that it never is.
\<close>

theorem pebble_reads_back:
  assumes "reads_own_writes lib" and "basedPebble lib dir mem sync = (err, out, db_closed)"
  shows "\<exists>m \<le> 1000. out = expected 0 m \<and> (db_closed \<longrightarrow> m = 1000) \<and> (err = None \<longrightarrow> db_closed)"
proof (cases "pb_Open lib dir mem")
  case (Inl e)
  with assms(2) show ?thesis
    by (auto simp: basedPebble_def expected_simps intro: exI [of _ 0])
next
  case (Inr d)
  obtain e d' out' where r: "run_state (pebble_loop lib sync 0 1000) (d, []) = (e, (d', out'))"
    by (metis prod.exhaust)
  obtain m where m: "m \<le> 1000" "out' = expected 0 m" "e = None \<longrightarrow> m = 1000"
    using pebble_loop_prints [OF assms(1) r] by auto
  have "out = out'" "db_closed \<longleftrightarrow> e = None" "err = None \<longrightarrow> e = None"
    using assms(2) Inr r by (auto simp: basedPebble_def split: option.splits)
  with m show ?thesis
    by blast
qed

end
