(* ===== verification/Http_Clients.thy ===== *)
theory Http_Clients
  imports Go_Prelude
begin

text \<open>
  The small network programs: the rate limited client of \<open>src/leakybucket-uber\<close>, the client
  with exponential backoff of \<open>src/backoff-exponential\<close>, the DNS lookup over HTTPS of
  \<open>src/cdoh\<close>, and the test server of \<open>src/leakybucket/test_server\<close>.

  The limiter, the backoff and the resolver are third-party packages and are arguments. The
  loops of the clients have no end of their own; they run over the list of what the network
  has answered so far.
\<close>

section \<open>The rate limited client\<close>

datatype uber_event = PrintedGap nat duration | UberLog string | CloseIdle | Dot

definition uber_fetchRequest :: "string + string option \<Rightarrow> int option \<times> uber_event list" where
  "uber_fetchRequest get =
     (case get of
        Inl err \<Rightarrow> (Some 127, [UberLog err])
      | Inr close_err \<Rightarrow>
          (None, (case close_err of Some err \<Rightarrow> [UberLog err] | None \<Rightarrow> []) @ [CloseIdle, Dot]))"

text \<open>A round has the time that \<open>Take\<close> returns and the outcome of the request.\<close>

fun uber_loop :: "nat \<Rightarrow> int \<Rightarrow> (int \<times> (string + string option)) list \<Rightarrow> int option \<times> uber_event list" where
  "uber_loop i prev [] = (None, [])"
| "uber_loop i prev ((now, get) # rounds) =
     (case uber_fetchRequest get of
        (Some code, evs) \<Rightarrow> (Some code, PrintedGap i (now - prev) # evs)
      | (None, evs) \<Rightarrow>
          (case uber_loop (Suc i) now rounds of (r, evs') \<Rightarrow> (r, PrintedGap i (now - prev) # evs @ evs')))"

definition uber_main :: "string list \<Rightarrow> int \<Rightarrow> (int \<times> (string + string option)) list \<Rightarrow> (int option \<times> uber_event list) option" where
  "uber_main args start rounds = (if length args < 2 then None else Some (uber_loop 0 start rounds))"

definition gaps :: "uber_event list \<Rightarrow> duration list" where
  "gaps evs = concat (map (\<lambda>e. case e of PrintedGap _ d \<Rightarrow> [d] | _ \<Rightarrow> []) evs)"

definition requests :: "uber_event list \<Rightarrow> nat" where
  "requests evs = length (filter (\<lambda>e. e = Dot) evs)"

text \<open>
  The limiter with ten calls per second: of any calls in a row, all but the ten of its slack
  are a tenth of a second apart.
\<close>

definition limited :: "int list \<Rightarrow> bool" where
  "limited ts \<longleftrightarrow>
     (\<forall>i j. i \<le> j \<and> j < length ts \<longrightarrow> (int j - int i - 10) * (Second div 10) \<le> ts ! j - ts ! i)"

lemma gaps_simps [simp]: "gaps [] = []" "gaps (PrintedGap i d # evs) = d # gaps evs" "gaps (xs @ ys) = gaps xs @ gaps ys"
  by (simp_all add: gaps_def)

lemma requests_simps [simp]:
  "requests [] = 0" "requests (PrintedGap i d # evs) = requests evs" "requests (xs @ ys) = requests xs + requests ys"
  by (simp_all add: requests_def)

lemma uber_fetch_cases:
  obtains (fails) err where "get = Inl err" "uber_fetchRequest get = (Some 127, [UberLog err])"
  | (gets) evs where "uber_fetchRequest get = (None, evs)" "gaps evs = []" "requests evs = 1"
proof (cases get)
  case (Inr e)
  then show ?thesis
    by (intro gets [of "snd (uber_fetchRequest get)"])
      (auto simp: uber_fetchRequest_def gaps_def requests_def split: option.splits)
qed (auto simp: uber_fetchRequest_def intro: fails)

text \<open>The printed gaps add up to the time from the start to the last call of the limiter.\<close>

lemma uber_loop_rounds:
  "\<exists>n \<le> length rounds. gaps (snd (uber_loop i prev rounds)) = map2 (-) (map fst (take n rounds)) (prev # map fst (take n rounds)) \<and>
     requests (snd (uber_loop i prev rounds)) \<le> n"
proof (induction rounds arbitrary: i prev)
  case (Cons r rounds)
  obtain now get where r: "r = (now, get)"
    by fastforce
  obtain n where n: "n \<le> length rounds" "requests (snd (uber_loop (Suc i) now rounds)) \<le> n"
    "gaps (snd (uber_loop (Suc i) now rounds)) = map2 (-) (map fst (take n rounds)) (now # map fst (take n rounds))"
    using Cons.IH by blast
  show ?case
  proof (cases get rule: uber_fetch_cases)
    case (fails err)
    then show ?thesis
      by (intro exI [of _ 1]) (simp add: r gaps_def requests_def)
  next
    case (gets evs)
    then have "gaps (snd (uber_loop i prev (r # rounds))) = (now - prev) # gaps (snd (uber_loop (Suc i) now rounds))"
      "requests (snd (uber_loop i prev (r # rounds))) = 1 + requests (snd (uber_loop (Suc i) now rounds))"
      by (auto simp: r split: prod.splits)
    then show ?thesis
      using n by (intro exI [of _ "Suc n"]) (simp add: r)
  qed
qed simp

text \<open>
  From the first call of the limiter to the last one, the program makes at most eleven requests
  and ten for each second that passes.
\<close>

theorem uber_rate:
  assumes "limited (map fst rounds)" and "rounds \<noteq> []"
  shows "(int (requests (snd (uber_loop 0 start rounds))) - 11) * (Second div 10) \<le> fst (last rounds) - fst (hd rounds)"
proof -
  let ?n = "length rounds"
  obtain n where n: "n \<le> ?n" "requests (snd (uber_loop 0 start rounds)) \<le> n"
    using uber_loop_rounds by blast
  have ends: "fst (last rounds) = map fst rounds ! (?n - 1)" "fst (hd rounds) = map fst rounds ! 0"
    using assms(2) by (simp_all add: last_conv_nth hd_conv_nth)
  have "(int (?n - 1) - int 0 - 10) * (Second div 10) \<le> fst (last rounds) - fst (hd rounds)"
    unfolding ends using assms unfolding limited_def
    by (metis (no_types, opaque_lifting) diff_less le0 length_greater_0_conv length_map less_numeral_extra(1))
  moreover have "(int (requests (snd (uber_loop 0 start rounds))) - 11) * (Second div 10) \<le> (int (?n - 1) - int 0 - 10) * (Second div 10)"
    using n assms(2) by (intro mult_right_mono) (auto simp: Second_def of_nat_diff)
  ultimately show ?thesis
    by linarith
qed

section \<open>Backoff\<close>

text \<open>The outcome of a round: the dial fails, or the write fails, or it writes some bytes.\<close>

datatype dial = DialFails string | WriteFails string | Wrote nat

datatype backoff_event = BackoffSleep duration | PrintWrote nat | ClosedConn

record 'b backoff_lib =
  NextBackOff :: "'b \<Rightarrow> duration \<times> 'b"
  Reset :: "'b \<Rightarrow> 'b"

abbreviation backoff_Stop :: duration where "backoff_Stop \<equiv> - 1"

definition backoff_next :: "'b backoff_lib \<Rightarrow> 'b \<Rightarrow> duration \<times> 'b" where
  "backoff_next lib b = (case NextBackOff lib b of (t, b) \<Rightarrow> (t, if t = backoff_Stop then Reset lib b else b))"

text \<open>The flag says whether the loop has returned.\<close>

fun backoff_loop :: "'b backoff_lib \<Rightarrow> 'b \<Rightarrow> dial list \<Rightarrow> bool \<times> backoff_event list" where
  "backoff_loop lib b [] = (False, [])"
| "backoff_loop lib b (DialFails err # ds) =
     (case backoff_next lib b of (t, b) \<Rightarrow>
      case backoff_loop lib b ds of (r, evs) \<Rightarrow> (r, BackoffSleep t # evs))"
| "backoff_loop lib b (WriteFails err # ds) = (True, [])"
| "backoff_loop lib b (Wrote n # ds) =
     (case backoff_loop lib b ds of (r, evs) \<Rightarrow> (r, PrintWrote n # ClosedConn # evs))"

fun backoff_times :: "'b backoff_lib \<Rightarrow> 'b \<Rightarrow> nat \<Rightarrow> duration list" where
  "backoff_times lib b 0 = []"
| "backoff_times lib b (Suc n) = (case backoff_next lib b of (t, b) \<Rightarrow> t # backoff_times lib b n)"

definition sleeps :: "backoff_event list \<Rightarrow> duration list" where
  "sleeps evs = concat (map (\<lambda>e. case e of BackoffSleep t \<Rightarrow> [t] | _ \<Rightarrow> []) evs)"

fun until_return :: "dial list \<Rightarrow> dial list" where
  "until_return [] = []"
| "until_return (WriteFails err # ds) = []"
| "until_return (d # ds) = d # until_return ds"

text \<open>
  The waiting times depend only on how many dials have failed: a connection in between does not
  reset the backoff, so after it the client waits as long as after another failure.
\<close>

theorem backoff_ignores_success:
  "sleeps (snd (backoff_loop lib b ds)) =
     backoff_times lib b (length (filter (\<lambda>d. case d of DialFails _ \<Rightarrow> True | _ \<Rightarrow> False) (until_return ds)))"
  by (induction lib b ds rule: backoff_loop.induct) (auto simp: sleeps_def split: prod.splits)

text \<open>The loop returns only when a write fails, and it closes every connection but that one.\<close>

lemma backoff_loop_returns:
  "fst (backoff_loop lib b ds) \<longleftrightarrow> until_return ds \<noteq> ds"
  by (induction lib b ds rule: backoff_loop.induct) (auto split: prod.splits)

lemma backoff_loop_closes:
  "length (filter (\<lambda>e. e = ClosedConn) (snd (backoff_loop lib b ds))) =
     length (filter (\<lambda>d. case d of Wrote _ \<Rightarrow> True | _ \<Rightarrow> False) (until_return ds))"
  by (induction lib b ds rule: backoff_loop.induct) (auto split: prod.splits)

section \<open>DNS over HTTPS\<close>

text \<open>The addresses with their time to live, or an error.\<close>

datatype doh_end = DohUsage int | DohPanic string | DohDone

definition doh_line :: "string \<Rightarrow> nat \<Rightarrow> string \<Rightarrow> string" where
  "doh_line fqdn ttl a = fqdn @ ''. '' @ Itoa (int ttl) @ '' IN A '' @ a @ [CHR 0x0A]"

definition doh_lookup :: "string \<Rightarrow> string + string list \<times> nat \<Rightarrow> string option \<times> string" where
  "doh_lookup fqdn answer =
     (case answer of
        Inl err \<Rightarrow> (Some err, [])
      | Inr (as, ttl) \<Rightarrow>
          (case go_index as 0 of
             None \<Rightarrow> (Some ''index out of range'', [])
           | Some a \<Rightarrow> (None, doh_line fqdn ttl a)))"

definition doh_main ::
  "string \<Rightarrow> string \<Rightarrow> (string \<Rightarrow> string \<Rightarrow> string + string list \<times> nat) \<Rightarrow> (string \<Rightarrow> string \<Rightarrow> string + string list \<times> nat)
   \<Rightarrow> doh_end \<times> string" where
  "doh_main fqdnAddr resolverAddr LookupA LookupAAAA =
     (if length fqdnAddr = 0 \<or> length resolverAddr = 0 then (DohUsage (- 1), [])
      else (case doh_lookup fqdnAddr (LookupA resolverAddr fqdnAddr) of
              (Some err, out) \<Rightarrow> (DohPanic err, out)
            | (None, out) \<Rightarrow>
                (case doh_lookup fqdnAddr (LookupAAAA resolverAddr fqdnAddr) of
                   (Some err, out') \<Rightarrow> (DohPanic err, out @ out')
                 | (None, out') \<Rightarrow> (DohDone, out @ out'))))"

text \<open>A name without an IPv6 address makes the program panic after the first line.\<close>

lemma doh_panics_without_ipv6:
  assumes "fqdn \<noteq> []" and "resolver \<noteq> []" and "A resolver fqdn = Inr (a # as, ttl)" and "AAAA resolver fqdn = Inr ([], ttl6)"
  shows "doh_main fqdn resolver A AAAA = (DohPanic ''index out of range'', doh_line fqdn ttl a)"
  using assms by (simp add: doh_main_def doh_lookup_def go_simps)

section \<open>The test server\<close>

text \<open>A header is a list of names with their values, in the order in which the map is iterated.\<close>

definition hello :: string where
  "hello = ''hello'' @ [CHR 0x0A]"

definition header_line :: "string \<Rightarrow> string \<Rightarrow> string" where
  "header_line name h = name @ '': '' @ h @ [CHR 0x0A]"

definition headers :: "(string \<times> string list) list \<Rightarrow> string" where
  "headers hs = concat (map (\<lambda>(name, vs). concat (map (header_line name) vs)) hs)"

definition test_server :: "string \<Rightarrow> (string \<times> string list) list \<Rightarrow> string option" where
  "test_server path hs =
     (if path = ''/hello'' then Some hello else if path = ''/headers'' then Some (headers hs) else None)"

text \<open>The lines of the reply are the pairs of the header, each value once.\<close>

lemma headers_lines:
  assumes "\<forall>(n, vs) \<in> set hs. CHR 0x0A \<notin> set n \<and> (\<forall>v \<in> set vs. CHR 0x0A \<notin> set v)"
  shows "split_on (CHR 0x0A) (headers hs) = [n @ '': '' @ v. (n, vs) \<leftarrow> hs, v \<leftarrow> vs] @ [[]]"
proof -
  have line: "split_on (CHR 0x0A) (concat (map (header_line n) vs) @ rest) = map (\<lambda>v. n @ '': '' @ v) vs @ split_on (CHR 0x0A) rest"
    if "CHR 0x0A \<notin> set n" "\<forall>v \<in> set vs. CHR 0x0A \<notin> set v" for n vs rest
    using that
  proof (induction vs)
    case (Cons v vs)
    then have "CHR 0x0A \<notin> set (n @ '': '' @ v)"
      by simp
    from split_on_append [OF this] Cons show ?case
      by (simp add: header_line_def)
  qed simp
  show ?thesis
    using assms
  proof (induction hs)
    case (Cons h hs)
    then show ?case
      using line [of "fst h" "snd h" "headers hs"] by (cases h) (simp add: headers_def)
  qed (simp add: headers_def)
qed

end
