(* ===== verification/Slices.thy ===== *)
theory Slices
  imports Go_Prelude "HOL-Library.Multiset"
begin

text \<open>
  Two programs on slices of integers: the three ways of removing an element of
  \<open>src/slice-delete/main.go\<close>, and the intersection of \<open>src/list-intersect/fast/fast.go\<close>.

  A function that writes through its argument returns the array behind the slice as the
  caller sees it afterwards, next to its result. A panic for an index out of range is the
  value \<open>None\<close>. The two arguments of the intersection do not share an array.
\<close>

section \<open>Removing an element\<close>

text \<open>The array afterwards and the truncated slice.\<close>

definition vFastRemoveAt :: "int \<Rightarrow> int list \<Rightarrow> (int list \<times> int list) option" where
  "vFastRemoveAt i src =
     (if i < 0 \<or> int (length src) \<le> i then None
      else let src = src[nat i := src ! (length src - 1)];
               src = src[length src - 1 := 0]
           in Some (src, take (length src - 1) src))"

text \<open>\<open>copy(src[i:], src[j:])\<close>: the elements from \<open>j\<close> on move down to \<open>i\<close>, \<open>i \<le> j\<close>.\<close>

definition copy_down :: "nat \<Rightarrow> nat \<Rightarrow> 'a list \<Rightarrow> 'a list" where
  "copy_down i j xs = take i xs @ drop j xs @ drop (i + (length xs - j)) xs"

definition okRemoveAt :: "int \<Rightarrow> int list \<Rightarrow> (int list \<times> int list) option" where
  "okRemoveAt i src =
     (if i < 0 \<or> int (length src) < i \<or> int (length src) < i + 1 then None
      else let src = copy_down (nat i) (nat i + 1) src;
               src = src[length src - 1 := 0]
           in Some (src, take (length src - 1) src))"

fun keep_others :: "int \<Rightarrow> int \<Rightarrow> int list \<Rightarrow> int list" where
  "keep_others i pos [] = []"
| "keep_others i pos (item # items) =
     (if pos \<noteq> i then item # keep_others i (pos + 1) items else keep_others i (pos + 1) items)"

definition slowRemoveAt :: "int \<Rightarrow> int list \<Rightarrow> string + int list" where
  "slowRemoveAt i src =
     (if i < 0 \<or> i > int (length src) then Inl ''invalid index'' else Inr (keep_others i 0 src))"

text \<open>
  What a removal promises: exactly one occurrence of the element goes. A removal that keeps
  the order of the others promises more.
\<close>

locale removal =
  fixes rem :: "nat \<Rightarrow> int list \<Rightarrow> int list"
  assumes rem_mset: "i < length xs \<Longrightarrow> add_mset (xs ! i) (mset (rem i xs)) = mset xs"
begin

lemma rem_length: "i < length xs \<Longrightarrow> length (rem i xs) = length xs - 1"
  using rem_mset [of i xs] by (metis size_add_mset size_mset diff_Suc_1)

lemma rem_set: "i < length xs \<Longrightarrow> set xs = insert (xs ! i) (set (rem i xs))"
  using rem_mset [of i xs] by (metis set_mset_add_mset_insert set_mset_mset)

lemma rem_distinct: "i < length xs \<Longrightarrow> distinct xs \<Longrightarrow> distinct (rem i xs) \<and> xs ! i \<notin> set (rem i xs)"
  using mset_eq_imp_distinct_iff [of xs "xs ! i # rem i xs"] rem_mset [of i xs] by simp

end

locale ordered_removal =
  fixes rem :: "nat \<Rightarrow> int list \<Rightarrow> int list"
  assumes rem_eq: "i < length xs \<Longrightarrow> rem i xs = take i xs @ drop (Suc i) xs"

sublocale ordered_removal \<subseteq> removal
proof
  fix i and xs :: "int list"
  assume i: "i < length xs"
  have "mset xs = mset (take i xs @ xs ! i # drop (Suc i) xs)"
    using i by (simp add: id_take_nth_drop [symmetric])
  then show "add_mset (xs ! i) (mset (rem i xs)) = mset xs"
    by (simp add: rem_eq [OF i])
qed

text \<open>The slices that the three functions return for an index inside.\<close>

definition vFast_result :: "nat \<Rightarrow> int list \<Rightarrow> int list" where
  "vFast_result i xs = snd (the (vFastRemoveAt (int i) xs))"

definition ok_result :: "nat \<Rightarrow> int list \<Rightarrow> int list" where
  "ok_result i xs = snd (the (okRemoveAt (int i) xs))"

definition slow_result :: "nat \<Rightarrow> int list \<Rightarrow> int list" where
  "slow_result i xs = (case slowRemoveAt (int i) xs of Inr ys \<Rightarrow> ys | Inl _ \<Rightarrow> [])"

lemma keep_others_past: "i < pos \<Longrightarrow> keep_others i pos xs = xs"
  by (induction xs arbitrary: pos) auto

lemma keep_others_eq: "keep_others (pos + int i) pos xs = take i xs @ drop (Suc i) xs"
proof (induction xs arbitrary: i pos)
  case (Cons x xs)
  show ?case
  proof (cases i)
    case 0
    then show ?thesis
      by (simp add: keep_others_past)
  next
    case (Suc k)
    then show ?thesis
      using Cons.IH [of "pos + 1" k] by (simp add: algebra_simps)
  qed
qed simp

lemma copy_down_result:
  "i < length xs \<Longrightarrow> take (length xs - 1) ((copy_down i (Suc i) xs)[length xs - 1 := v]) =
   take i xs @ drop (Suc i) xs"
  by (auto simp: copy_down_def take_update_swap list_update_append)

lemma okRemoveAt_inside:
  "i < length xs \<Longrightarrow> okRemoveAt (int i) xs =
   Some ((copy_down i (Suc i) xs)[length xs - 1 := 0], take i xs @ drop (Suc i) xs)"
  using copy_down_result [of i xs 0] by (simp add: okRemoveAt_def Let_def) (simp add: copy_down_def)

interpretation ok: ordered_removal ok_result
  by unfold_locales (simp add: ok_result_def okRemoveAt_inside)

interpretation slow: ordered_removal slow_result
  by unfold_locales (use keep_others_eq [of 0] in \<open>simp add: slow_result_def slowRemoveAt_def\<close>)

lemma vFastRemoveAt_inside:
  "i < length xs \<Longrightarrow> vFastRemoveAt (int i) xs =
   Some (xs[i := xs ! (length xs - 1), length xs - 1 := 0],
         take (length xs - 1) (xs[i := xs ! (length xs - 1)]))"
  by (simp add: vFastRemoveAt_def Let_def)

interpretation vFast: removal vFast_result
proof
  fix i and xs :: "int list"
  assume i: "i < length xs"
  let ?n = "length xs - 1" and ?ys = "xs[i := xs ! (length xs - 1)]"
  have last: "?ys ! ?n = xs ! ?n"
    using i by (auto simp: nth_list_update)
  have "?ys \<noteq> []"
    using i by auto
  then have "?ys = take ?n ?ys @ [?ys ! ?n]"
    using append_butlast_last_id [of ?ys] by (simp add: butlast_conv_take last_conv_nth)
  then have "mset ?ys = add_mset (xs ! ?n) (mset (take ?n ?ys))"
    unfolding last by (metis add_mset_add_single mset.simps mset_append)
  moreover have "mset ?ys = add_mset (xs ! ?n) (mset xs - {#xs ! i#})"
    using i by (simp add: mset_update)
  ultimately show "add_mset (xs ! i) (mset (vFast_result i xs)) = mset xs"
    using i by (simp add: vFast_result_def vFastRemoveAt_inside)
qed

section \<open>Intersection\<close>

text \<open>
  The inner loop looks for the first occurrence in \<open>high\<close>; the element is taken, removed
  from the array by a copy of the rest, and the two next elements are compared. The result
  has the intersection, whether to stop, the array behind \<open>high\<close> and its current length.
\<close>

fun index_of :: "int \<Rightarrow> int list \<Rightarrow> nat option" where
  "index_of l [] = None"
| "index_of l (h # hs) = (if l = h then Some 0 else map_option Suc (index_of l hs))"

fun inter_loop :: "int list \<Rightarrow> int list \<Rightarrow> int list \<Rightarrow> nat \<Rightarrow> int list \<times> int list" where
  "inter_loop acc [] arr n = (acc, arr)"
| "inter_loop acc (l # ls) arr n =
     (case index_of l (take n arr) of
        None \<Rightarrow> inter_loop acc ls arr n
      | Some j \<Rightarrow>
          let fin = (ls \<noteq> [] \<and> j + 1 < n \<and> ls ! 0 \<noteq> arr ! (j + 1));
              arr' = copy_down j (j + 1) (take n arr) @ drop n arr;
              acc = acc @ [l]
          in if fin then (acc, arr') else inter_loop acc ls arr' (n - 1))"

text \<open>The intersection, and the arrays of the two arguments afterwards.\<close>

definition intersection :: "int list \<Rightarrow> int list \<Rightarrow> int list \<times> int list \<times> int list" where
  "intersection a b =
     (if length a > length b
      then (case inter_loop [] b a (length a) of (res, high) \<Rightarrow> (res, high, b))
      else (case inter_loop [] a b (length b) of (res, high) \<Rightarrow> (res, a, high)))"

lemma index_of_Some: "index_of l xs = Some j \<Longrightarrow> j < length xs \<and> xs ! j = l"
  by (induction xs arbitrary: j) (auto split: if_splits)

lemma index_of_None: "l \<notin> set xs \<Longrightarrow> index_of l xs = None"
  by (induction xs) auto

lemma index_of_snoc: "l \<notin> set xs \<Longrightarrow> index_of l (xs @ [l]) = Some (length xs)"
  by (induction xs) auto

lemma take_copy_down:
  "j < n \<Longrightarrow> n \<le> length arr \<Longrightarrow>
   take (n - 1) (copy_down j (Suc j) (take n arr) @ drop n arr) = take j arr @ drop (Suc j) (take n arr)"
  by (cases "j = n - 1") (auto simp: copy_down_def min_def)

lemma length_copy_down: "j < length xs \<Longrightarrow> length (copy_down j (Suc j) xs) = length xs"
  by (simp add: copy_down_def)

text \<open>Every step moves one common element from the two lists to the intersection.\<close>

lemma inter_loop_mset:
  "n \<le> length arr \<Longrightarrow>
   mset (fst (inter_loop acc low arr n)) \<subseteq># mset acc + (mset low \<inter># mset (take n arr))"
proof (induction low arbitrary: acc arr n)
  case (Cons l ls)
  show ?case
  proof (cases "index_of l (take n arr)")
    case None
    have "mset ls \<inter># mset (take n arr) \<subseteq># mset (l # ls) \<inter># mset (take n arr)"
      by (intro subset_mset.inf_mono) simp_all
    then show ?thesis
      using Cons.IH [OF Cons.prems, of acc] None
      by (auto intro: subset_mset.order_trans subset_mset.add_left_mono)
  next
    case (Some j)
    then have j: "j < n" "arr ! j = l"
      using index_of_Some [OF Some] Cons.prems by auto
    define arr' where "arr' = copy_down j (Suc j) (take n arr) @ drop n arr"
    have len: "length arr' = length arr"
      using j Cons.prems by (simp add: arr'_def length_copy_down)
    have "take n arr = take j arr @ l # drop (Suc j) (take n arr)"
      using id_take_nth_drop [of j "take n arr"] j Cons.prems by (simp add: min_def)
    then have m: "mset (take n arr) = add_mset l (mset (take (n - 1) arr'))"
      using take_copy_down [OF j(1) Cons.prems] unfolding arr'_def
      by (metis union_mset_add_mset_right mset.simps(2) mset_append)
    then have both: "mset (l # ls) \<inter># mset (take n arr) = add_mset l (mset ls \<inter># mset (take (n - 1) arr'))"
      by (simp add: add_mset_inter_add_mset)
    show ?thesis
      using Some Cons.IH [of "n - 1" arr' "acc @ [l]"] Cons.prems len
      unfolding both by (auto simp: Let_def arr'_def [symmetric])
  qed
qed simp

lemma intersection_sound:
  "mset (fst (intersection a b)) \<subseteq># mset a \<inter># mset b"
  using inter_loop_mset [of "length a" a "[]" b] inter_loop_mset [of "length b" b "[]" a]
  by (auto simp: intersection_def case_prod_unfold subset_mset.inf_commute)

section \<open>The programs\<close>

text \<open>\<open>main\<close> of \<open>slice-delete\<close>: the three lists it prints, \<open>None\<close> for a panic.\<close>

definition slices_main :: "(int list \<times> int list \<times> int list) option" where
  "slices_main =
     (case slowRemoveAt 2 [1, 2, 3, 4, 5] of
        Inl _ \<Rightarrow> None
      | Inr x \<Rightarrow>
          (case okRemoveAt 2 [1, 2, 3, 4, 5] of
             None \<Rightarrow> None
           | Some (_, src1) \<Rightarrow>
               (case vFastRemoveAt 2 [1, 2, 3, 4, 5] of None \<Rightarrow> None | Some (_, src2) \<Rightarrow> Some (x, src1, src2))))"

lemma slices_main_prints: "slices_main = Some ([1, 2, 4, 5], [1, 2, 4, 5], [1, 2, 5, 4])"
  by code_simp

text \<open>
  \<open>main\<close> of the intersection: the numbers from 0 to \<open>r1\<close> upwards and those from \<open>r2\<close> to 1
  downwards; the length that is printed and the sorted result.
\<close>

definition intersect_main :: "int \<Rightarrow> int \<Rightarrow> nat \<times> int list" where
  "intersect_main r1 r2 =
     (let o1 = [0..r1]; o2 = rev [1..r2]; l1 = fst (intersection o1 o2)
      in (length l1, sort l1))"

text \<open>On an ascending and a descending list every match is at the end of the longer one, and nothing is missed.\<close>

lemma inter_loop_descending:
  assumes "take n arr = rev [l..r2]" and "n \<le> length arr" and "r1 \<le> r2"
  shows "fst (inter_loop acc [l..r1] arr n) = acc @ [l..r1]"
  using assms
proof (induction "nat (r1 - l + 1)" arbitrary: l acc arr n)
  case 0
  then show ?case
    by simp
next
  case (Suc m)
  then have l: "l \<le> r1" "l \<le> r2"
    by linarith+
  have n: "take n arr = rev [l + 1..r2] @ [l]"
    using Suc.prems(1) l(2) by (simp add: upto_rec1)
  have len: "n = Suc (length [l + 1..r2])"
    using arg_cong [OF n, of length] Suc.prems(2) by simp
  have idx: "index_of l (rev [l + 1..r2] @ [l]) = Some (length [l + 1..r2])"
    using index_of_snoc [of l "rev [l + 1..r2]"] by simp
  let ?arr = "copy_down (length [l + 1..r2]) (length [l + 1..r2] + 1) (take n arr) @ drop n arr"
  have "take (length [l + 1..r2]) arr = take (length [l + 1..r2]) (take n arr)"
    using len by simp
  then have "take (length [l + 1..r2]) arr = rev [l + 1..r2]"
    unfolding n by simp
  then have "take (n - 1) ?arr = rev [l + 1..r2]" "length ?arr = length arr"
    using take_copy_down [of "length [l + 1..r2]" n arr] length_copy_down [of "length [l + 1..r2]" "take n arr"]
      Suc.prems(2) len by simp_all
  then have "fst (inter_loop (acc @ [l]) [l + 1..r1] ?arr (n - 1)) = (acc @ [l]) @ [l + 1..r1]"
    using Suc by (intro Suc.hyps(1)) simp_all
  then show ?case
    using l(1) idx len n by (simp add: upto_rec1 [of l r1] Let_def)
qed

theorem intersect_main_complete:
  assumes "0 \<le> r1" and "r1 < r2"
  shows "intersect_main r1 r2 = (nat r1, [1..r1])"
proof -
  have "fst (intersection [0..r1] (rev [1..r2])) = fst (inter_loop [] [1..r1] (rev [1..r2]) (length (rev [1..r2])))"
    using assms index_of_None [of 0 "rev [1..r2]"] by (simp add: intersection_def case_prod_unfold upto_rec1 [of 0])
  also have "\<dots> = [1..r1]"
    using inter_loop_descending [of "length (rev [1..r2])" "rev [1..r2]" 1 r2 r1 "[]"] assms by simp
  finally show ?thesis
    by (simp add: intersect_main_def Let_def sorted_sort_id)
qed

section \<open>Properties\<close>

text \<open>
  (C15) The three removals remove the same thing: for every index inside the slice each of
  them succeeds and its result has exactly one occurrence less of the element at the index;
  \<open>okRemoveAt\<close> and \<open>slowRemoveAt\<close> return the same list, in the order of the original.
\<close>

theorem removals_agree:
  assumes "i < length xs"
  shows "\<exists>arr1 arr2 fast ordered. vFastRemoveAt (int i) xs = Some (arr1, fast) \<and>
    okRemoveAt (int i) xs = Some (arr2, ordered) \<and> slowRemoveAt (int i) xs = Inr ordered \<and>
    add_mset (xs ! i) (mset fast) = mset xs \<and> ordered = take i xs @ drop (Suc i) xs"
proof -
  have "vFastRemoveAt (int i) xs =
      Some (xs[i := xs ! (length xs - 1), length xs - 1 := 0], vFast_result i xs)"
    using vFastRemoveAt_inside [OF assms] by (simp add: vFast_result_def)
  moreover have "slowRemoveAt (int i) xs = Inr (take i xs @ drop (Suc i) xs)"
    using assms keep_others_eq [of 0 i xs] by (simp add: slowRemoveAt_def)
  ultimately show ?thesis
    using vFast.rem_mset [OF assms] okRemoveAt_inside [OF assms] by auto
qed

text \<open>
  \<open>slowRemoveAt\<close> accepts one index too many: at the index one past the end it removes
  nothing and reports no error, where the other two panic.
\<close>

theorem slowRemoveAt_past_end:
  "slowRemoveAt (int (length xs)) xs = Inr xs \<and> okRemoveAt (int (length xs)) xs = None \<and>
   vFastRemoveAt (int (length xs)) xs = None"
  using keep_others_eq [of 0 "length xs" xs]
  by (simp add: slowRemoveAt_def okRemoveAt_def vFastRemoveAt_def)

text \<open>
  The intersection is sound and not complete, and it destroys an argument. What it
  returns is contained in both lists, with multiplicities; but it stops at the first match
  whose next elements differ, so 2 is missing from the intersection of 1, 2 and 1, 3, 2, and
  the array of the longer list has lost the elements that were found.
\<close>

theorem intersection_sound_incomplete:
  "mset (fst (intersection a b)) \<subseteq># mset a \<inter># mset b \<and>
   intersection [1, 2] [1, 3, 2] = ([1], [1, 2], [3, 2, 2])"
  using intersection_sound by (simp add: intersection_def copy_down_def)

section \<open>Witnesses\<close>

theorem removals_agree_witness:
  "\<exists>arr1 arr2 fast ordered. vFastRemoveAt 2 [1, 2, 3, 4, 5] = Some (arr1, fast) \<and>
    okRemoveAt 2 [1, 2, 3, 4, 5] = Some (arr2, ordered) \<and> slowRemoveAt 2 [1, 2, 3, 4, 5] = Inr ordered \<and>
    ordered = [1, 2, 4, 5]"
  using removals_agree [of 2 "[1, 2, 3, 4, 5]"] by auto

end
