(* ===== verification/Bloom_Filter.thy ===== *)
theory Bloom_Filter
  imports Go_Prelude
begin

unbundle bit_operations_syntax

text \<open>
  The Bloom filter of \<open>src/bloomfilter-explore/main.go\<close>. A hash object is written, summed and
  reset by every use, so it is a function from bytes to a 64-bit sum; the two of the standard
  library are defined here, and \<open>murmur3\<close> of \<open>spaolacci/murmur3\<close> is the argument of \<open>New\<close>.
  The type \<open>uint\<close> has 64 bits.
\<close>

section \<open>Hash functions\<close>

definition offset64 :: uint64 where
  "offset64 = 14695981039346656037"

definition prime64 :: uint64 where
  "prime64 = 1099511628211"

definition fnv_New64 :: "byte list \<Rightarrow> uint64" where
  "fnv_New64 data = fold (\<lambda>c hash. (hash * prime64) XOR ucast c) data offset64"

definition fnv_New64a :: "byte list \<Rightarrow> uint64" where
  "fnv_New64a data = fold (\<lambda>c hash. (hash XOR ucast c) * prime64) data offset64"

section \<open>The filter\<close>

record bloom_filter =
  bitset :: "bool list"
  bf_k :: uint64
  bf_n :: uint64
  bf_m :: uint64
  hashFuncs :: "(byte list \<Rightarrow> uint64) list"

definition New :: "(byte list \<Rightarrow> uint64) \<Rightarrow> uint64 \<Rightarrow> bloom_filter" where
  "New murmur3 sz =
     \<lparr>bitset = replicate (unat sz) False, bf_k = 3, bf_n = 0, bf_m = sz,
      hashFuncs = [murmur3, fnv_New64, fnv_New64a]\<rparr>"

definition hashValues :: "bloom_filter \<Rightarrow> byte list \<Rightarrow> uint64 list" where
  "hashValues bf item = map (\<lambda>hashFunc. hashFunc item) (hashFuncs bf)"

text \<open>
  The loops over the \<open>k\<close> hash values, on the values still to handle. A modulus of zero, and a
  position outside the bit set, panic: \<open>None\<close>.
\<close>

definition position :: "bloom_filter \<Rightarrow> uint64 \<Rightarrow> nat option" where
  "position bf h =
     (if bf_m bf = 0 then None
      else let p = unat (h mod bf_m bf) in if p < length (bitset bf) then Some p else None)"

fun add_loop :: "bloom_filter \<Rightarrow> uint64 list \<Rightarrow> bloom_filter option" where
  "add_loop bf [] = Some bf"
| "add_loop bf (h # hs) =
     (case position bf h of
        None \<Rightarrow> None
      | Some p \<Rightarrow> add_loop (bf\<lparr>bitset := (bitset bf)[p := True]\<rparr>) hs)"

fun test_loop :: "bloom_filter \<Rightarrow> uint64 list \<Rightarrow> bool option" where
  "test_loop bf [] = Some True"
| "test_loop bf (h # hs) =
     (case position bf h of
        None \<Rightarrow> None
      | Some p \<Rightarrow> if \<not> bitset bf ! p then Some False else test_loop bf hs)"

definition hashes_used :: "bloom_filter \<Rightarrow> byte list \<Rightarrow> uint64 list option" where
  "hashes_used bf item =
     (let hashes = hashValues bf item
      in if unat (bf_k bf) \<le> length hashes then Some (take (unat (bf_k bf)) hashes) else None)"

definition Add :: "byte list \<Rightarrow> bloom_filter \<Rightarrow> bloom_filter option" where
  "Add item bf =
     (case hashes_used bf item of
        None \<Rightarrow> None
      | Some hs \<Rightarrow> map_option (\<lambda>bf. bf\<lparr>bf_n := bf_n bf + 1\<rparr>) (add_loop bf hs))"

definition TestIsPresent :: "bloom_filter \<Rightarrow> byte list \<Rightarrow> bool option" where
  "TestIsPresent bf item =
     (case hashes_used bf item of None \<Rightarrow> None | Some hs \<Rightarrow> test_loop bf hs)"

section \<open>The contract of a filter\<close>

text \<open>
  What a user relies on: in a well-formed filter adding and testing succeed, an added item
  is present, and a present item stays present. Then no item is ever lost.
\<close>

locale membership_filter =
  fixes wf :: "'s \<Rightarrow> bool"
    and add :: "'i \<Rightarrow> 's \<Rightarrow> 's"
    and present :: "'s \<Rightarrow> 'i \<Rightarrow> bool"
  assumes add_wf: "wf s \<Longrightarrow> wf (add x s)"
    and present_added: "wf s \<Longrightarrow> present (add x s) x"
    and present_kept: "wf s \<Longrightarrow> present s x \<Longrightarrow> present (add y s) x"
begin

lemma fold_wf: "wf s \<Longrightarrow> wf (fold add xs s)"
  by (induction xs arbitrary: s) (simp_all add: add_wf)

lemma fold_kept: "wf s \<Longrightarrow> present s x \<Longrightarrow> present (fold add xs s) x"
  by (induction xs arbitrary: s) (simp_all add: add_wf present_kept)

lemma no_false_negative: "wf s \<Longrightarrow> x \<in> set xs \<Longrightarrow> present (fold add xs s) x"
  by (induction xs arbitrary: s) (auto simp: add_wf present_added fold_kept)

end

section \<open>Lemmas\<close>

definition bf_wf :: "bloom_filter \<Rightarrow> bool" where
  "bf_wf bf \<longleftrightarrow> bf_m bf \<noteq> 0 \<and> length (bitset bf) = unat (bf_m bf) \<and> unat (bf_k bf) \<le> length (hashFuncs bf)"

definition slot :: "bloom_filter \<Rightarrow> uint64 \<Rightarrow> nat" where
  "slot bf h = unat (h mod bf_m bf)"

definition set_slots :: "nat list \<Rightarrow> bool list \<Rightarrow> bool list" where
  "set_slots ps = fold (\<lambda>p bs. bs[p := True]) ps"

lemma set_slots_simps [simp]:
  "set_slots [] bs = bs" "set_slots (p # ps) bs = set_slots ps (bs[p := True])"
  by (simp_all add: set_slots_def)

lemma length_set_slots [simp]: "length (set_slots ps bs) = length bs"
  by (induction ps arbitrary: bs) simp_all

lemma nth_set_slots: "i < length bs \<Longrightarrow> set_slots ps bs ! i \<longleftrightarrow> bs ! i \<or> i \<in> set ps"
  by (induction ps arbitrary: bs) (simp_all, metis nth_list_update_eq nth_list_update_neq)

lemma New_wf: "0 < sz \<Longrightarrow> bf_wf (New murmur3 sz)"
  by (simp add: bf_wf_def New_def word_neq_0_conv)

lemma slot_less: "bf_wf bf \<Longrightarrow> slot bf h < length (bitset bf)"
  by (simp add: bf_wf_def slot_def unat_mod unat_gt_0)

lemma position_wf: "bf_wf bf \<Longrightarrow> position bf h = Some (slot bf h)"
  using slot_less [of bf h] by (simp add: position_def slot_def bf_wf_def)

lemma bf_wf_bitset: "length bs = length (bitset bf) \<Longrightarrow> bf_wf (bf\<lparr>bitset := bs\<rparr>) \<longleftrightarrow> bf_wf bf"
  by (simp add: bf_wf_def)

lemma add_loop_wf:
  "bf_wf bf \<Longrightarrow> add_loop bf hs = Some (bf\<lparr>bitset := set_slots (map (slot bf) hs) (bitset bf)\<rparr>)"
proof (induction hs arbitrary: bf)
  case (Cons h hs)
  let ?bf = "bf\<lparr>bitset := (bitset bf)[slot bf h := True]\<rparr>"
  have "slot ?bf = slot bf"
    by (auto simp: slot_def)
  then show ?case
    using Cons.IH [of ?bf] Cons.prems by (simp add: position_wf bf_wf_bitset)
qed simp

lemma test_loop_wf: "bf_wf bf \<Longrightarrow> test_loop bf hs = Some (\<forall>h \<in> set hs. bitset bf ! slot bf h)"
  by (induction hs) (simp_all add: position_wf)

text \<open>The hash values of an item, the operations on well-formed filters, and their contract.\<close>

definition item_hashes :: "bloom_filter \<Rightarrow> byte list \<Rightarrow> uint64 list" where
  "item_hashes bf item = take (unat (bf_k bf)) (hashValues bf item)"

lemma Add_wf:
  "bf_wf bf \<Longrightarrow> Add item bf =
   Some (bf\<lparr>bitset := set_slots (map (slot bf) (item_hashes bf item)) (bitset bf), bf_n := bf_n bf + 1\<rparr>)"
  by (simp add: Add_def hashes_used_def item_hashes_def add_loop_wf Let_def)
    (simp add: bf_wf_def hashValues_def)

lemma TestIsPresent_wf:
  "bf_wf bf \<Longrightarrow> TestIsPresent bf item = Some (\<forall>h \<in> set (item_hashes bf item). bitset bf ! slot bf h)"
  by (simp add: TestIsPresent_def hashes_used_def item_hashes_def test_loop_wf Let_def)
    (simp add: bf_wf_def hashValues_def)

definition add_item :: "byte list \<Rightarrow> bloom_filter \<Rightarrow> bloom_filter" where
  "add_item item bf = the (Add item bf)"

definition is_present :: "bloom_filter \<Rightarrow> byte list \<Rightarrow> bool" where
  "is_present bf item \<longleftrightarrow> TestIsPresent bf item = Some True"

lemma add_item_frame [simp]:
  assumes "bf_wf bf"
  shows "slot (add_item item bf) = slot bf" "item_hashes (add_item item bf) = item_hashes bf"
    "bf_wf (add_item item bf)"
  using assms
  by (auto simp: add_item_def Add_wf slot_def item_hashes_def hashValues_def bf_wf_def fun_eq_iff)

lemma bitset_add_item:
  "bf_wf bf \<Longrightarrow> bitset (add_item item bf) = set_slots (map (slot bf) (item_hashes bf item)) (bitset bf)"
  by (simp add: add_item_def Add_wf)

interpretation bloom: membership_filter bf_wf add_item is_present
  by unfold_locales
    (auto simp: is_present_def TestIsPresent_wf bitset_add_item nth_set_slots slot_less)

text \<open>\<open>main\<close>: twenty times the same item, then three tests.\<close>

fun add_times :: "nat \<Rightarrow> byte list \<Rightarrow> bloom_filter \<Rightarrow> bloom_filter option" where
  "add_times 0 item bf = Some bf"
| "add_times (Suc n) item bf = (case Add item bf of None \<Rightarrow> None | Some bf \<Rightarrow> add_times n item bf)"

definition bytes_of :: "string \<Rightarrow> byte list" where
  "bytes_of s = map (\<lambda>c. of_nat (of_char c)) s"

definition bloom_main :: "(byte list \<Rightarrow> uint64) \<Rightarrow> bool option list" where
  "bloom_main murmur3 =
     (case add_times 20 (bytes_of ''hello'') (New murmur3 20) of
        None \<Rightarrow> [None]
      | Some bf \<Rightarrow> map (\<lambda>s. TestIsPresent bf (bytes_of s)) [''hello'', ''world'', ''hi''])"

lemma add_times_wf: "bf_wf bf \<Longrightarrow> add_times n item bf = Some (fold add_item (replicate n item) bf)"
proof (induction n arbitrary: bf)
  case (Suc n)
  have "Add item bf = Some (add_item item bf)"
    using Add_wf [OF Suc.prems] by (simp add: add_item_def)
  then show ?case
    using Suc add_item_frame(3) by simp
qed simp

text \<open>The program does not panic, and its first line is true for every third hash function.\<close>

lemma bloom_main_first: "length (bloom_main murmur3) = 3 \<and> bloom_main murmur3 ! 0 = Some True"
proof -
  have "bf_wf (New murmur3 20)"
    by (simp add: New_wf)
  then show ?thesis
    using bloom.no_false_negative [of "New murmur3 20" "bytes_of ''hello''" "replicate 20 (bytes_of ''hello'')"]
    by (simp add: bloom_main_def add_times_wf is_present_def)
qed

section \<open>Properties\<close>



end
