(* ===== verification/Leaky_Bucket.thy ===== *)
theory Leaky_Bucket
  imports Go_Prelude
begin

text \<open>
  The rate limiter of \<open>src/leakybucket/main.go\<close> as a machine of three goroutines: \<open>process\<close>
  leaks at every tick, \<open>rateLimitedHttpClient\<close> makes the requests, \<open>debug\<close> reads the counter.
  The channels are unbuffered, so a send is a joint step of two goroutines. The Go code holds
  the mutex while it sends, and nobody else takes it. The ticker drops ticks that nobody
  receives, so a tick is a step that is possible whenever \<open>process\<close> is at its select; the
  machine counts the ticks that were received. What the network does in a request is an
  argument of the step; a request that fails ends the process.
\<close>

section \<open>The bucket\<close>

record bucket_state =
  dynamicCapacity :: int
  maxCapacity :: int
  leak :: int
  counter :: uint64
  enableDebug :: bool

definition newLeakyBucket :: "int \<Rightarrow> int \<Rightarrow> bool \<Rightarrow> string + bucket_state" where
  "newLeakyBucket cap lk dbg =
     (if lk > cap then Inl ''can't leak more than the dynamic capacity of the bucket''
      else Inr \<lparr>dynamicCapacity = cap, maxCapacity = cap, leak = lk, counter = 0, enableDebug = dbg\<rparr>)"

definition refill :: "bucket_state \<Rightarrow> bucket_state" where
  "refill b = b\<lparr>dynamicCapacity := maxCapacity b\<rparr>"

text \<open>What \<open>process\<close> does with the bucket at a tick, before it sends the leak.\<close>

definition process_tick :: "bucket_state \<Rightarrow> bucket_state" where
  "process_tick b =
     (let b = (if dynamicCapacity b \<le> 0 then refill b else b)
      in b\<lparr>dynamicCapacity := dynamicCapacity b - leak b\<rparr>)"

text \<open>What \<open>debug\<close> does with a counter it receives: whether it dumps the bucket.\<close>

definition debug_dumps :: "uint64 \<Rightarrow> uint64 \<Rightarrow> bucket_state \<Rightarrow> bool" where
  "debug_dumps every c b \<longleftrightarrow> c mod every = 0 \<and> enableDebug b"

text \<open>
  \<open>fetchRequest\<close>: the error of \<open>Get\<close>, or that of closing the body. The result is the exit
  code of the process, if it ends, and what happens in order.
\<close>

datatype fetch_event = LogPrintln string | CloseIdleConnections | PrintDot

definition fetchRequest :: "string + string option \<Rightarrow> int option \<times> fetch_event list" where
  "fetchRequest get =
     (case get of
        Inl err \<Rightarrow> (Some 127, [LogPrintln err])
      | Inr close_err \<Rightarrow>
          (None, (case close_err of Some err \<Rightarrow> [LogPrintln err] | None \<Rightarrow> []) @ [CloseIdleConnections, PrintDot]))"

section \<open>The machine\<close>

text \<open>
  \<open>process\<close> is at its select or sends the leak; the client is at its select, at the head of
  its loop with slots left, or sends the counter after a request.
\<close>

datatype process_pc = AtSelect | SendingReady int
datatype client_pc = ClientSelect | ClientLoop int | SendingCount int

record bucket_sys =
  bucket :: bucket_state
  producer :: process_pc
  consumer :: client_pc
  ticks :: nat
  fetched :: nat
  dumped :: "uint64 list"
  exit_code :: "int option"

definition bucket_init :: "int \<Rightarrow> int \<Rightarrow> bucket_sys \<Rightarrow> bool" where
  "bucket_init cap lk s \<longleftrightarrow> (\<exists>dbg. Inr (bucket s) = newLeakyBucket cap lk dbg) \<and> producer s = AtSelect \<and>
     consumer s = ClientSelect \<and> ticks s = 0 \<and> fetched s = 0 \<and> dumped s = [] \<and> exit_code s = None"

inductive bucket_step :: "uint64 \<Rightarrow> bucket_sys \<Rightarrow> bucket_sys \<Rightarrow> bool" for every :: uint64
where
  tick: "exit_code s = None \<Longrightarrow> producer s = AtSelect \<Longrightarrow>
     bucket_step every s (s\<lparr>bucket := process_tick (bucket s), producer := SendingReady (leak (bucket s)),
                         ticks := ticks s + 1\<rparr>)"
| handover: "exit_code s = None \<Longrightarrow> producer s = SendingReady slots \<Longrightarrow> consumer s = ClientSelect \<Longrightarrow>
     bucket_step every s (s\<lparr>producer := AtSelect, consumer := ClientLoop slots\<rparr>)"
| fetch: "exit_code s = None \<Longrightarrow> consumer s = ClientLoop i \<Longrightarrow> i \<ge> 1 \<Longrightarrow> fetchRequest get = (None, evs) \<Longrightarrow>
     bucket_step every s (s\<lparr>bucket := (bucket s)\<lparr>counter := counter (bucket s) + 1\<rparr>,
                         consumer := SendingCount i, fetched := fetched s + 1\<rparr>)"
| fetch_exits: "exit_code s = None \<Longrightarrow> consumer s = ClientLoop i \<Longrightarrow> i \<ge> 1 \<Longrightarrow> fetchRequest get = (Some code, evs) \<Longrightarrow>
     bucket_step every s (s\<lparr>exit_code := Some code\<rparr>)"
| count_sent: "exit_code s = None \<Longrightarrow> consumer s = SendingCount i \<Longrightarrow>
     bucket_step every s (s\<lparr>consumer := ClientLoop (i - 1),
       dumped := dumped s @ (if debug_dumps every (counter (bucket s)) (bucket s) then [counter (bucket s)] else [])\<rparr>)"
| loop_done: "exit_code s = None \<Longrightarrow> consumer s = ClientLoop i \<Longrightarrow> i < 1 \<Longrightarrow>
     bucket_step every s (s\<lparr>consumer := ClientSelect\<rparr>)"

text \<open>The bucket of \<open>main\<close>: capacity 10, leak 4, debug output at every multiple of 1024.\<close>

definition leaky_main :: "bucket_sys \<Rightarrow> bool" where
  "leaky_main s \<longleftrightarrow> bucket_init 10 4 s \<and> enableDebug (bucket s)"

abbreviation leaky_main_step :: "bucket_sys \<Rightarrow> bucket_sys \<Rightarrow> bool" where
  "leaky_main_step \<equiv> bucket_step 1024"

section \<open>Invariant\<close>

definition pending_ready :: "process_pc \<Rightarrow> int" where
  "pending_ready p = (case p of AtSelect \<Rightarrow> 0 | SendingReady n \<Rightarrow> n)"

definition pending_slots :: "client_pc \<Rightarrow> int" where
  "pending_slots c = (case c of ClientSelect \<Rightarrow> 0 | ClientLoop i \<Rightarrow> i | SendingCount i \<Rightarrow> i - 1)"

text \<open>Every leaked slot is used, in use or on its way.\<close>

definition bucket_inv :: "uint64 \<Rightarrow> int \<Rightarrow> int \<Rightarrow> bucket_sys \<Rightarrow> bool" where
  "bucket_inv every cap lk s \<longleftrightarrow>
     maxCapacity (bucket s) = cap \<and> leak (bucket s) = lk \<and>
     - lk < dynamicCapacity (bucket s) \<and> dynamicCapacity (bucket s) \<le> cap \<and>
     counter (bucket s) = of_nat (fetched s) \<and>
     (\<forall>c \<in> set (dumped s). c mod every = 0) \<and> exit_code s \<in> {None, Some 127} \<and>
     pending_ready (producer s) \<ge> 0 \<and> pending_slots (consumer s) \<ge> 0 \<and>
     int (fetched s) + pending_slots (consumer s) + pending_ready (producer s) = lk * int (ticks s)"

lemma bucket_step_inv: "0 < lk \<Longrightarrow> lk \<le> cap \<Longrightarrow> bucket_step every s t \<Longrightarrow> bucket_inv every cap lk s \<Longrightarrow> bucket_inv every cap lk t"
  by (erule bucket_step.cases)
    (auto simp: bucket_inv_def pending_ready_def pending_slots_def process_tick_def refill_def Let_def
      fetchRequest_def debug_dumps_def algebra_simps split: sum.splits)

lemma bucket_inv_init: "0 < lk \<Longrightarrow> bucket_init cap lk s \<Longrightarrow> bucket_inv every cap lk s \<and> lk \<le> cap"
  by (auto simp: bucket_init_def bucket_inv_def newLeakyBucket_def pending_ready_def pending_slots_def
      split: if_splits)

text \<open>The machine restricted to positive leaks, for the interpretation.\<close>

definition good_init :: "int \<Rightarrow> int \<Rightarrow> bucket_sys \<Rightarrow> bool" where
  "good_init cap lk s \<longleftrightarrow> 0 < lk \<and> bucket_init cap lk s"

interpretation bucket: inductive_invariant "good_init cap lk" "bucket_step every"
  "\<lambda>s. 0 < lk \<and> lk \<le> cap \<and> bucket_inv every cap lk s"
  by unfold_locales (auto simp: good_init_def bucket_inv_init dest: bucket_inv_init bucket_step_inv)

section \<open>Properties\<close>

text \<open>
  (C14) The limiter limits: in every reachable state the number of requests made is at most
  the leak times the number of ticks received, and falls short of it exactly by what is
  handed over or on its way and not yet requested; the capacity stays above the negative of
  the leak and never passes the maximum; the bucket is dumped only at multiples of the given
  number of requests; and if the process has ended, it did with code 127.
\<close>

theorem bucket_rate_limit:
  assumes "reach (good_init cap lk) (bucket_step every) s"
  shows "int (fetched s) \<le> lk * int (ticks s) \<and>
    int (fetched s) + pending_slots (consumer s) + pending_ready (producer s) = lk * int (ticks s) \<and>
    - lk < dynamicCapacity (bucket s) \<and> dynamicCapacity (bucket s) \<le> cap \<and>
    (\<forall>c \<in> set (dumped s). c mod every = 0) \<and> exit_code s \<in> {None, Some 127}"
  using bucket.inv_reach [OF assms] by (auto simp: bucket_inv_def)

definition sample_bucket :: bucket_sys where
  "sample_bucket = \<lparr>bucket = \<lparr>dynamicCapacity = 10, maxCapacity = 10, leak = 4, counter = 0, enableDebug = True\<rparr>,
     producer = AtSelect, consumer = ClientSelect, ticks = 0, fetched = 0, dumped = [], exit_code = None\<rparr>"

theorem bucket_rate_limit_witness:
  "int (fetched (sample_bucket\<lparr>bucket := process_tick (bucket sample_bucket), producer := SendingReady 4,
     ticks := 1\<rparr>)) \<le> 4 * 1"
proof -
  have "reach (good_init 10 4) leaky_main_step sample_bucket"
    by (rule reach_init) (auto simp: good_init_def bucket_init_def newLeakyBucket_def sample_bucket_def)
  moreover have "leaky_main_step sample_bucket (sample_bucket\<lparr>bucket := process_tick (bucket sample_bucket),
      producer := SendingReady 4, ticks := 1\<rparr>)"
    using bucket_step.tick [of sample_bucket 1024] by (simp add: sample_bucket_def)
  ultimately have "reach (good_init 10 4) leaky_main_step (sample_bucket\<lparr>bucket := process_tick (bucket sample_bucket),
      producer := SendingReady 4, ticks := 1\<rparr>)"
    by (rule reach_step)
  from bucket_rate_limit [OF this] show ?thesis
    by simp
qed

text \<open>
  The capacity is not a limit: with the capacity 10 and the leak 4 of the program, the
  bucket is refilled only after its capacity has become negative, so that 12 slots leak for
  a capacity of 10.
\<close>

lemma bucket_leaks_past_capacity:
  "map (\<lambda>i. dynamicCapacity ((process_tick ^^ i) \<lparr>dynamicCapacity = 10, maxCapacity = 10, leak = 4,
       counter = 0, enableDebug = True\<rparr>)) [0, 1, 2, 3, 4] = [10, 6, 2, -2, 6]"
  by (simp add: process_tick_def refill_def numeral_eq_Suc)

end
