(* ===== verification/Aes_Explore.thy ===== *)
theory Aes_Explore
  imports Go_Prelude
begin

unbundle bit_operations_syntax

text \<open>
  The block-wise encryption of \<open>src/aes-explore/aes-exploration-00.go\<close>: the key, the padding
  and the loops over the blocks. The block cipher of \<open>crypto/aes\<close> is a pair of functions of a
  key and a block, the arguments \<open>enc\<close> and \<open>dec\<close>; only its checks of the key and of the block
  lengths are defined here. A slice out of range panics: \<open>None\<close>.
\<close>

section \<open>Keys\<close>

abbreviation aesKeyLen :: nat where "aesKeyLen \<equiv> 32"
abbreviation BlockSize :: nat where "BlockSize \<equiv> 16"

text \<open>The two reads of random bytes, each with its error or its 32 bytes.\<close>

definition getAESKey :: "string + byte list \<Rightarrow> string + byte list \<Rightarrow> string + byte list" where
  "getAESKey read_seed read_key =
     (case read_seed of
        Inl err \<Rightarrow> Inl (''could not get 256-bit data: '' @ err)
      | Inr seed \<Rightarrow>
          (case read_key of
             Inl err \<Rightarrow> Inl (''could not get 256-bit data: '' @ err)
           | Inr aesKey \<Rightarrow> Inr (map (\<lambda>i. of_nat i XOR seed ! i) [0..<length aesKey])))"

definition NewCipher :: "byte list \<Rightarrow> bool" where
  "NewCipher key \<longleftrightarrow> length key \<in> {16, 24, 32}"

section \<open>Blocks\<close>

text \<open>The loop of both directions: one block after the other.\<close>

function on_blocks :: "(byte list \<Rightarrow> byte list) \<Rightarrow> byte list \<Rightarrow> byte list option" where
  "on_blocks f src =
     (if src = [] then Some []
      else if length src < BlockSize then None
      else map_option (\<lambda>rest. f (take BlockSize src) @ rest) (on_blocks f (drop BlockSize src)))"
  by pat_completeness auto
termination
  by (relation "measure (\<lambda>(f, src). length src)") auto

declare on_blocks.simps [simp del]

definition pad_size :: "nat \<Rightarrow> nat" where
  "pad_size n = n + (aesKeyLen - (n mod aesKeyLen))"

definition padded :: "byte list \<Rightarrow> byte list" where
  "padded plainText = plainText @ replicate (pad_size (length plainText) - length plainText) 0"

definition aesEncrypt ::
  "(byte list \<Rightarrow> byte list \<Rightarrow> byte list) \<Rightarrow> byte list \<Rightarrow> byte list \<Rightarrow> string + byte list option" where
  "aesEncrypt enc aesKey plainText =
     (if \<not> NewCipher aesKey then Inl ''NewCipher'' else Inr (on_blocks (enc aesKey) (padded plainText)))"

definition aesDecrypt ::
  "(byte list \<Rightarrow> byte list \<Rightarrow> byte list) \<Rightarrow> byte list \<Rightarrow> byte list \<Rightarrow> string + byte list option" where
  "aesDecrypt dec aesKey cipherText =
     (if \<not> NewCipher aesKey then Inl ''NewCipher'' else Inr (on_blocks (dec aesKey) cipherText))"

section \<open>Lemmas\<close>

lemma on_blocks_inverse:
  assumes fg: "\<And>b. length b = 16 \<Longrightarrow> length (f b) = 16 \<and> g (f b) = b"
  shows "16 dvd length src \<Longrightarrow> \<exists>out. on_blocks f src = Some out \<and> length out = length src \<and>
    on_blocks g out = Some src"
proof (induction "length src" arbitrary: src rule: less_induct)
  case less
  show ?case
  proof (cases "src = []")
    case True
    then show ?thesis
      by (simp add: on_blocks.simps)
  next
    case False
    let ?b = "take 16 src" and ?r = "drop 16 src"
    have len: "16 \<le> length src"
      using False less.prems by (auto intro: dvd_imp_le)
    then have b: "length (f ?b) = 16" "g (f ?b) = ?b"
      using fg [of ?b] by simp_all
    obtain out where out: "on_blocks f ?r = Some out" "length out = length ?r" "on_blocks g out = Some ?r"
      using less.hyps [of ?r] less.prems len False by auto
    have "on_blocks f src = Some (f ?b @ out)"
      using False len out(1) by (simp add: on_blocks.simps [of f src])
    moreover have "on_blocks g (f ?b @ out) = Some src"
      using b out(3) by (auto simp: on_blocks.simps [of g "f ?b @ out"])
    ultimately show ?thesis
      using b(1) len out(2) by simp
  qed
qed

lemma pad_size_bounds: "32 dvd pad_size n" "n < pad_size n" "pad_size n \<le> n + 32"
proof -
  have "pad_size n = 32 * (n div 32) + 32"
    using mult_div_mod_eq [of 32 n] mod_less_divisor [of 32 n] unfolding pad_size_def by linarith
  then show "32 dvd pad_size n"
    by simp
qed (simp_all add: pad_size_def less_imp_le)

lemma length_padded: "length (padded p) = pad_size (length p)"
  using pad_size_bounds(2) [of "length p"] by (simp add: padded_def)

section \<open>Properties\<close>

text \<open>
  Decryption inverts encryption up to the padding: for every key of a length that AES
  has and every plain text, both loops run to the end without a slice out of range, the
  cipher text has the padded length, and what is decrypted is the plain text followed by
  zeros, at least one and at most 32 of them. The block cipher is any pair of functions of
  which the second inverts the first on blocks.
\<close>

theorem aes_roundtrip:
  assumes cipher: "\<And>b. length b = 16 \<Longrightarrow> length (enc key b) = 16 \<and> dec key (enc key b) = b"
    and key: "length key \<in> {16, 24, 32}"
  shows "\<exists>c n. aesEncrypt enc key plain = Inr (Some c) \<and> length c = pad_size (length plain) \<and>
    aesDecrypt dec key c = Inr (Some (plain @ replicate n 0)) \<and> 1 \<le> n \<and> n \<le> 32"
proof -
  have "16 dvd length (padded plain)"
    using pad_size_bounds(1) [of "length plain"] by (auto simp: length_padded elim: dvd_trans [rotated])
  then obtain c where c: "on_blocks (enc key) (padded plain) = Some c" "length c = length (padded plain)"
    "on_blocks (dec key) c = Some (padded plain)"
    using on_blocks_inverse [of "enc key" "dec key", OF cipher] by blast
  then show ?thesis
    using key pad_size_bounds(2,3) [of "length plain"]
    by (intro exI [of _ c] exI [of _ "pad_size (length plain) - length plain"])
      (auto simp: aesEncrypt_def aesDecrypt_def NewCipher_def length_padded padded_def)
qed

text \<open>A cipher that adds the first byte of the key to every byte of a block.\<close>

theorem aes_roundtrip_witness:
  "\<exists>c n. aesEncrypt (\<lambda>k. map (\<lambda>x. x + k ! 0)) (replicate 32 7) [104, 105] = Inr (Some c) \<and>
    aesDecrypt (\<lambda>k. map (\<lambda>x. x - k ! 0)) (replicate 32 7) c = Inr (Some ([104, 105] @ replicate n 0))"
  using aes_roundtrip [of "\<lambda>k. map (\<lambda>x. x + k ! 0)" "replicate 32 7" "\<lambda>k. map (\<lambda>x. x - k ! 0)" "[104, 105]"]
  by (auto simp: comp_def)

end
