(* ===== verification/Aes_Main.thy ===== *)
theory Aes_Main
  imports Aes_Explore
begin

unbundle bit_operations_syntax

text \<open>
  \<open>main\<close> and \<open>getBase64\<close> of \<open>src/aes-explore/aes-exploration-00.go\<close>: the standard encoding of
  \<open>encoding/base64\<close>, and the lines that the program prints.
\<close>

section \<open>Base64\<close>

definition alphabet :: string where
  "alphabet = ''ABCDEFGHIJKLMNOPQRSTUVWXYZabcdefghijklmnopqrstuvwxyz0123456789+/''"

text \<open>The four sextets of three bytes, and their characters.\<close>

definition sextets :: "byte \<Rightarrow> byte \<Rightarrow> byte \<Rightarrow> uint32 list" where
  "sextets a b c =
     (let val = push_bit 16 (ucast a) OR push_bit 8 (ucast b) OR (ucast c :: uint32)
      in [drop_bit 18 val AND 63, drop_bit 12 val AND 63, drop_bit 6 val AND 63, val AND 63])"

definition b64_char :: "uint32 \<Rightarrow> char" where
  "b64_char v = alphabet ! unat v"

definition EncodedLen :: "nat \<Rightarrow> nat" where
  "EncodedLen n = (n + 2) div 3 * 4"

fun Encode :: "byte list \<Rightarrow> string" where
  "Encode (a # b # c # src) = map b64_char (sextets a b c) @ Encode src"
| "Encode [a, b] = map b64_char (take 3 (sextets a b 0)) @ ''=''"
| "Encode [a] = map b64_char (take 2 (sextets a 0 0)) @ ''==''"
| "Encode [] = []"

text \<open>The encoding fills a slice that is made for it.\<close>

definition getBase64 :: "byte list \<Rightarrow> string" where
  "getBase64 val = (let dst = replicate (EncodedLen (length val)) (CHR 0x00); e = Encode val in e @ drop (length e) dst)"

section \<open>Decoding\<close>

text \<open>The reference: the inverse that a reader of the output applies.\<close>

fun index :: "char \<Rightarrow> string \<Rightarrow> nat option" where
  "index c [] = None"
| "index c (d # ds) = (if c = d then Some 0 else map_option Suc (index c ds))"

definition b64_val :: "char \<Rightarrow> uint32 option" where
  "b64_val c = map_option of_nat (index c alphabet)"

definition octets :: "uint32 \<Rightarrow> uint32 \<Rightarrow> uint32 \<Rightarrow> uint32 \<Rightarrow> byte list" where
  "octets s t u v =
     (let val = push_bit 18 s OR push_bit 12 t OR push_bit 6 u OR v
      in [ucast (drop_bit 16 val), ucast (drop_bit 8 val), ucast val])"

fun Decode :: "string \<Rightarrow> byte list option" where
  "Decode [] = Some []"
| "Decode (p # q # r # s # cs) =
     (case (b64_val p, b64_val q) of
        (Some a, Some b) \<Rightarrow>
          if r = CHR ''='' then (if s = CHR ''='' \<and> cs = [] then Some (take 1 (octets a b 0 0)) else None)
          else (case b64_val r of
                  None \<Rightarrow> None
                | Some c \<Rightarrow>
                    if s = CHR ''='' then (if cs = [] then Some (take 2 (octets a b c 0)) else None)
                    else (case b64_val s of
                            None \<Rightarrow> None
                          | Some d \<Rightarrow> map_option (\<lambda>bs. octets a b c d @ bs) (Decode cs)))
      | _ \<Rightarrow> None)"
| "Decode _ = None"

section \<open>The program\<close>

definition print_bytes :: "byte list \<Rightarrow> string" where
  "print_bytes bs = map (\<lambda>b. char_of (unat b)) bs"

fun join_sp :: "string list \<Rightarrow> string" where
  "join_sp [] = []"
| "join_sp [s] = s"
| "join_sp (s # ss) = s @ '' '' @ join_sp ss"

definition print_v :: "byte list \<Rightarrow> string" where
  "print_v bs = ''['' @ join_sp (map (\<lambda>b. Itoa (int (unat b))) bs) @ '']''"

datatype aes_end = AesFatal string | AesPanic | AesDone

definition aes_main ::
  "(byte list \<Rightarrow> byte list \<Rightarrow> byte list) \<Rightarrow> (byte list \<Rightarrow> byte list \<Rightarrow> byte list) \<Rightarrow> string + byte list \<Rightarrow> string + byte list
   \<Rightarrow> byte list \<Rightarrow> aes_end \<times> string list" where
  "aes_main enc dec read_seed read_key plainText =
     (let out = [''Plain text is: '' @ print_bytes plainText]
      in case getAESKey read_seed read_key of
           Inl err \<Rightarrow> (AesFatal err, out)
         | Inr aesKey \<Rightarrow>
     (let out = out @ [''AES key (base64): '' @ getBase64 aesKey, ''AES key: '' @ print_v aesKey]
      in case aesEncrypt enc aesKey plainText of
           Inl err \<Rightarrow> (AesFatal err, out)
         | Inr None \<Rightarrow> (AesPanic, out)
         | Inr (Some cipherText) \<Rightarrow>
     (let out = out @ [''AES cipher text (base64): '' @ getBase64 cipherText, ''AES cipher text: '' @ print_v cipherText]
      in case aesDecrypt dec aesKey cipherText of
           Inl err \<Rightarrow> (AesFatal err, out)
         | Inr None \<Rightarrow> (AesPanic, out)
         | Inr (Some decPlainText) \<Rightarrow>
             (AesDone, out @ [''AES decrypted plain text: '' @ print_bytes decPlainText,
                              ''AES decrypted plain text: '' @ print_v decPlainText]))))"

section \<open>Lemmas\<close>

lemma length_alphabet: "length alphabet = 64"
  by (simp add: alphabet_def)

lemma distinct_alphabet: "distinct alphabet"
  by code_simp

lemma padding_not_in_alphabet: "CHR ''='' \<notin> set alphabet"
  by code_simp

lemma index_nth: "distinct ds \<Longrightarrow> i < length ds \<Longrightarrow> index (ds ! i) ds = Some i"
proof (induction ds arbitrary: i)
  case (Cons d ds)
  then show ?case
    by (cases i) (auto simp: in_set_conv_nth)
qed simp

lemma unat_less_64: "v < (64 :: uint32) \<Longrightarrow> unat v < 64"
  by (simp add: word_less_nat_alt)

lemma b64_val_char: "v < 64 \<Longrightarrow> b64_val (b64_char v) = Some v"
  using index_nth [OF distinct_alphabet, of "unat v"]
  by (simp add: b64_val_def b64_char_def length_alphabet word_less_nat_alt)

lemma b64_char_not_padding: "v < 64 \<Longrightarrow> b64_char v \<noteq> CHR ''=''"
proof -
  assume "v < 64"
  then have "b64_char v \<in> set alphabet"
    by (simp add: b64_char_def length_alphabet unat_less_64)
  then show ?thesis
    using padding_not_in_alphabet by metis
qed

lemma sextet_less: "v AND 63 < (64 :: uint32)"
  using word_and_le1 [of v 63] by (rule order.strict_trans1) simp

text \<open>A word of 24 bits is put together from its four sextets, and its bytes are read off.\<close>

lemma recombine_sextets:
  fixes w :: uint32
  assumes "\<And>n. 24 \<le> n \<Longrightarrow> \<not> bit w n"
  shows "push_bit 18 (drop_bit 18 w AND mask 6) OR push_bit 12 (drop_bit 12 w AND mask 6) OR
    push_bit 6 (drop_bit 6 w AND mask 6) OR (w AND mask 6) = w"
proof (rule bit_word_eqI)
  fix n
  assume "n < LENGTH(32)"
  then have "n < 6 \<or> (6 \<le> n \<and> n < 12) \<or> (12 \<le> n \<and> n < 18) \<or> (18 \<le> n \<and> n < 24) \<or> (24 \<le> n \<and> n < 32)"
    by auto
  then show "bit (push_bit 18 (drop_bit 18 w AND mask 6) OR push_bit 12 (drop_bit 12 w AND mask 6) OR
      push_bit 6 (drop_bit 6 w AND mask 6) OR (w AND mask 6)) n \<longleftrightarrow> bit w n"
    using assms by (elim disjE) (auto simp: bit_simps)
qed

lemma bytes_of_word:
  fixes a b c :: byte
  defines "w \<equiv> push_bit 16 (ucast a) OR push_bit 8 (ucast b) OR (ucast c :: uint32)"
  shows "ucast (drop_bit 16 w) = a" "ucast (drop_bit 8 w) = b" "ucast w = c" "\<And>n. 24 \<le> n \<Longrightarrow> \<not> bit w n"
proof -
  have small: "8 \<le> n \<Longrightarrow> \<not> bit a n" "8 \<le> n \<Longrightarrow> \<not> bit b n" "8 \<le> n \<Longrightarrow> \<not> bit c n" for n
    using bit_imp_le_length [of _ n] by fastforce+
  show "ucast (drop_bit 16 w) = a" "ucast (drop_bit 8 w) = b" "ucast w = c"
    using small by (auto intro!: bit_word_eqI simp: w_def bit_simps)
  show "24 \<le> n \<Longrightarrow> \<not> bit w n" for n
    using small by (auto simp: w_def bit_simps)
qed

lemma sextets_octets:
  obtains s t u v where "sextets a b c = [s, t, u, v]" "octets s t u v = [a, b, c]"
    "s < 64" "t < 64" "u < 64" "v < 64"
proof -
  let ?w = "push_bit 16 (ucast a) OR push_bit 8 (ucast b) OR (ucast c :: uint32)"
  have "(63 :: uint32) = mask 6"
    by (simp add: mask_eq_exp_minus_1)
  then have "octets (drop_bit 18 ?w AND 63) (drop_bit 12 ?w AND 63) (drop_bit 6 ?w AND 63) (?w AND 63) = [a, b, c]"
    using recombine_sextets [OF bytes_of_word(4) [of _ a b c]] bytes_of_word(1-3) [of a b c]
    by (simp only: octets_def Let_def)
  then show thesis
    using that [of "drop_bit 18 ?w AND 63" "drop_bit 12 ?w AND 63" "drop_bit 6 ?w AND 63" "?w AND 63"] sextet_less
    by (simp add: sextets_def Let_def)
qed

lemma sextets_zero: "sextets a b 0 ! 3 = 0" "sextets a 0 0 ! 2 = 0"
proof -
  have mask6: "(63 :: uint32) = mask 6"
    by (simp add: mask_eq_exp_minus_1)
  show "sextets a b 0 ! 3 = 0" "sextets a 0 0 ! 2 = 0"
    unfolding sextets_def Let_def mask6 by (auto intro!: bit_word_eqI simp: bit_simps)
qed

lemma Decode_Encode: "Decode (Encode bs) = Some bs"
proof (induction bs rule: Encode.induct)
  case (1 a b c src)
  obtain s t u v where "sextets a b c = [s, t, u, v]" "octets s t u v = [a, b, c]" "s < 64" "t < 64" "u < 64" "v < 64"
    by (rule sextets_octets)
  then show ?case
    using 1 by (simp add: b64_val_char b64_char_not_padding)
next
  case (2 a b)
  obtain s t u v where "sextets a b 0 = [s, t, u, v]" "octets s t u v = [a, b, 0]" "s < 64" "t < 64" "u < 64" "v < 64"
    by (rule sextets_octets)
  then show ?case
    using sextets_zero(1) [of a b] by (simp add: b64_val_char b64_char_not_padding)
next
  case (3 a)
  obtain s t u v where "sextets a 0 0 = [s, t, u, v]" "octets s t u v = [a, 0, 0]" "s < 64" "t < 64" "u < 64" "v < 64"
    by (rule sextets_octets)
  then show ?case
    using sextets_zero(1) [of a 0] sextets_zero(2) [of a] by (simp add: b64_val_char b64_char_not_padding)
qed simp

lemma EncodedLen_step: "EncodedLen (Suc (Suc (Suc n))) = EncodedLen n + 4"
  unfolding EncodedLen_def by presburger

lemma length_Encode: "length (Encode bs) = EncodedLen (length bs)"
proof (induction bs rule: Encode.induct)
  case (1 a b c src)
  then show ?case
    by (simp add: EncodedLen_step sextets_def Let_def)
qed (simp_all add: EncodedLen_def sextets_def Let_def)

lemma getBase64_Encode: "getBase64 bs = Encode bs"
  by (simp add: getBase64_def length_Encode Let_def)

section \<open>Properties\<close>



end
