(* ===== verification/Disk_Calc.thy ===== *)
theory Disk_Calc
  imports Go_Prelude
begin

text \<open>
  The disk sizes of \<open>src/statfs-explore/diskcalc.go\<close>. The numbers come from \<open>statfs\<close>; the
  arithmetic is that of \<open>float64\<close>, as operations of an arbitrary type. Sizes are never a NaN,
  so \<open>a >= b\<close> is the negation of \<open>a < b\<close>.
\<close>

definition TByte :: int where "TByte = 1024 * 1024 * 1024 * 1024"
definition GByte :: int where "GByte = TByte div 1024"
definition MByte :: int where "MByte = GByte div 1024"
definition KByte :: int where "KByte = MByte div 1024"

record Statfs_t =
  Blocks :: uint64
  Bavail :: uint64
  Bsize :: int

record 'f diskSize =
  total :: 'f
  available :: 'f
  unit :: 'f
  unitStr :: string

text \<open>The unit for a size, 0 without a name when none of the conditions holds.\<close>

definition pick_unit :: "'f float64_ops \<Rightarrow> 'f \<Rightarrow> 'f \<times> string" where
  "pick_unit fl bytes =
     (let K = f_of_int fl KByte; M = f_of_int fl MByte; G = f_of_int fl GByte; T = f_of_int fl TByte;
          ge = (\<lambda>a b. \<not> f_less fl a b)
      in if ge bytes K \<and> ge M bytes then (K, ''KB'')
         else if ge bytes M \<and> ge G bytes then (M, ''MB'')
         else if ge bytes G \<and> ge T bytes then (G, ''GB'')
         else if ge bytes T then (T, ''TB'')
         else (f_of_int fl 0, []))"

definition diskCalc :: "'f float64_ops \<Rightarrow> string + Statfs_t \<Rightarrow> string + 'f diskSize" where
  "diskCalc fl Statfs =
     (case Statfs of
        Inl err \<Rightarrow> Inl err
      | Inr st \<Rightarrow>
          let totalSizeBytes = f_mul fl (f_of_int fl (uint (Blocks st))) (f_of_int fl (Bsize st));
              (u, str) = pick_unit fl totalSizeBytes
          in Inr \<lparr>total = f_div fl totalSizeBytes u,
                  available = f_div fl (f_mul fl (f_of_int fl (uint (Bavail st))) (f_of_int fl (Bsize st))) u,
                  unit = u, unitStr = str\<rparr>)"

text \<open>
  \<open>main\<close>: the dump of the structure if asked for, and the two lines, as the path, the number
  and the unit; a fatal error is its message.
\<close>

datatype 'f disk_line = Dump "'f diskSize" | TotalSpace string 'f string | AvailableSpace string 'f string

definition disk_main :: "'f float64_ops \<Rightarrow> string \<Rightarrow> bool \<Rightarrow> string + Statfs_t \<Rightarrow> string + 'f disk_line list" where
  "disk_main fl path dbg Statfs =
     (case diskCalc fl Statfs of
        Inl err \<Rightarrow> Inl err
      | Inr d \<Rightarrow> Inr ((if dbg then [Dump d] else []) @
          [TotalSpace path (total d) (unitStr d), AvailableSpace path (available d) (unitStr d)]))"

lemma units: "KByte = 1024" "MByte = 1024 ^ 2" "GByte = 1024 ^ 3" "TByte = 1024 ^ 4"
  by (simp_all add: KByte_def MByte_def GByte_def TByte_def)

text \<open>In exact arithmetic the unit divides the size into 1 to 1024 parts, up to a terabyte.\<close>

lemma pick_unit_int:
  "pick_unit rat_ops (of_int b) =
     (if KByte \<le> b \<and> b \<le> MByte then (of_int KByte, ''KB'')
      else if MByte \<le> b \<and> b \<le> GByte then (of_int MByte, ''MB'')
      else if GByte \<le> b \<and> b \<le> TByte then (of_int GByte, ''GB'')
      else if TByte \<le> b then (of_int TByte, ''TB'')
      else (0, []))"
proof -
  have "f_less rat_ops (of_int i) (of_int j) = (i < j)" "f_of_int rat_ops i = of_int i" for i j
    by (simp_all add: rat_ops_def)
  then show ?thesis
    by (simp add: pick_unit_def Let_def not_less)
qed

lemma pick_unit_rat:
  assumes "KByte \<le> b"
  obtains u str where "pick_unit rat_ops (of_int b) = (of_int u, str)" "0 < u" "u \<le> b" "b \<le> TByte \<Longrightarrow> b \<le> 1024 * u"
    "(u, str) \<in> {(KByte, ''KB''), (MByte, ''MB''), (GByte, ''GB''), (TByte, ''TB'')}"
proof -
  consider "b \<le> MByte" | "MByte < b" "b \<le> GByte" | "GByte < b" "b \<le> TByte" | "TByte < b"
    by linarith
  then show thesis
  proof cases
    case 1
    then show thesis
      using assms by (intro that [of KByte "''KB''"]) (simp_all add: pick_unit_int, simp_all add: units)
  next
    case 2
    then show thesis
      by (intro that [of MByte "''MB''"]) (simp_all add: pick_unit_int, simp_all add: units)
  next
    case 3
    then show thesis
      by (intro that [of GByte "''GB''"]) (simp_all add: pick_unit_int, simp_all add: units)
  next
    case 4
    then show thesis
      by (intro that [of TByte "''TB''"]) (simp_all add: pick_unit_int, simp_all add: units)
  qed
qed

text \<open>
  A disk of at least a kilobyte is shown with at least one of its unit, and with at most
  1024 of it up to a terabyte; the number times the unit is the size in bytes, and what is
  available is shown in the same unit. The arithmetic is exact.
\<close>

theorem diskCalc_unit_fits:
  assumes "bytes = uint (Blocks st) * Bsize st" and "KByte \<le> bytes"
  shows "\<exists>d. diskCalc rat_ops (Inr st) = Inr d \<and>
    total d * unit d = of_int bytes \<and> available d * unit d = of_int (uint (Bavail st) * Bsize st) \<and>
    1 \<le> total d \<and> (bytes \<le> TByte \<longrightarrow> total d \<le> 1024) \<and>
    (unit d, unitStr d) \<in> {(of_int KByte, ''KB''), (of_int MByte, ''MB''), (of_int GByte, ''GB''), (of_int TByte, ''TB'')}"
proof -
  obtain u str where u: "pick_unit rat_ops (of_int bytes) = (of_int u, str)" "0 < u" "u \<le> bytes"
      "bytes \<le> TByte \<Longrightarrow> bytes \<le> 1024 * u"
      "(u, str) \<in> {(KByte, ''KB''), (MByte, ''MB''), (GByte, ''GB''), (TByte, ''TB'')}"
    using pick_unit_rat [OF assms(2)] by blast
  let ?d = "\<lparr>total = of_int bytes / of_int u, available = of_int (uint (Bavail st) * Bsize st) / of_int u,
      unit = of_int u, unitStr = str\<rparr> :: rat diskSize"
  have "f_mul rat_ops (f_of_int rat_ops i) (f_of_int rat_ops j) = of_int (i * j)" "f_div rat_ops p q = p / q" for i j p q
    by (simp_all add: rat_ops_def)
  then have "diskCalc rat_ops (Inr st) = Inr ?d"
    using u(1) assms(1) by (simp only: diskCalc_def sum.case Let_def prod.case)
  moreover have "1 \<le> (of_int bytes :: rat) / of_int u" "bytes \<le> TByte \<longrightarrow> (of_int bytes :: rat) / of_int u \<le> 1024"
    using u(2-4) by (simp_all add: le_divide_eq divide_le_eq) (metis mult.commute of_int_le_iff of_int_mult of_int_numeral)
  ultimately show ?thesis
    using u(2,5) by (intro exI [of _ ?d]) auto
qed

theorem diskCalc_unit_fits_witness:
  "\<exists>d. diskCalc rat_ops (Inr \<lparr>Blocks = 1000, Bavail = 10, Bsize = 4096\<rparr>) = Inr d \<and> 1 \<le> total d \<and> total d \<le> 1024"
  using diskCalc_unit_fits [of 4096000 "\<lparr>Blocks = 1000, Bavail = 10, Bsize = 4096\<rparr>"] by (auto simp: units)

text \<open>Below a kilobyte no unit is chosen and the sizes are divided by zero.\<close>

lemma diskCalc_small_no_unit:
  assumes "\<not> f_less fl (f_of_int fl MByte) (f_of_int fl KByte)"
    and "f_less fl (f_mul fl (f_of_int fl (uint (Blocks st))) (f_of_int fl (Bsize st))) (f_of_int fl KByte)"
    and "\<And>x y z. f_less fl x y \<Longrightarrow> \<not> f_less fl z y \<Longrightarrow> f_less fl x z"
    and "\<not> f_less fl (f_of_int fl GByte) (f_of_int fl KByte)" and "\<not> f_less fl (f_of_int fl TByte) (f_of_int fl KByte)"
  shows "\<exists>d. diskCalc fl (Inr st) = Inr d \<and> unit d = f_of_int fl 0 \<and> unitStr d = []"
proof -
  let ?b = "f_mul fl (f_of_int fl (uint (Blocks st))) (f_of_int fl (Bsize st))"
  have "f_less fl ?b (f_of_int fl MByte)" "f_less fl ?b (f_of_int fl GByte)" "f_less fl ?b (f_of_int fl TByte)"
    using assms by blast+
  then show ?thesis
    using assms(2) by (simp add: diskCalc_def pick_unit_def Let_def)
qed

end
