(* ===== verification/Atomic_Counter.thy ===== *)
theory Atomic_Counter
  imports Go_Prelude
begin

text \<open>
  The counter of \<open>src/atomic-counters/main.go\<close>: two goroutines that each repeat
  \<open>x = atomic.AddInt64(&x, d)\<close>, one with 1024 and one with \<open>-1024\<close>, and a third one that
  prints \<open>x\<close>. The addition is atomic, but its result is then assigned to \<open>x\<close> in a separate
  step. A 64-bit integer is a word, since the additions wrap. Two counters of completed
  additions are added to state what the variable should hold.
\<close>

text \<open>A goroutine is before its addition, or holds the result it is about to assign.\<close>

datatype adder = AtAdd | AtAssign uint64

record counter_state =
  counter_x :: uint64
  up :: adder
  down :: adder
  ups :: nat
  downs :: nat

inductive counter_step :: "counter_state \<Rightarrow> counter_state \<Rightarrow> bool" where
  up_add: "up s = AtAdd \<Longrightarrow>
    counter_step s (s\<lparr>counter_x := counter_x s + 1024, up := AtAssign (counter_x s + 1024), ups := Suc (ups s)\<rparr>)"
| up_assign: "up s = AtAssign r \<Longrightarrow> counter_step s (s\<lparr>counter_x := r, up := AtAdd\<rparr>)"
| down_add: "down s = AtAdd \<Longrightarrow>
    counter_step s (s\<lparr>counter_x := counter_x s + - 1024, down := AtAssign (counter_x s + - 1024), downs := Suc (downs s)\<rparr>)"
| down_assign: "down s = AtAssign r \<Longrightarrow> counter_step s (s\<lparr>counter_x := r, down := AtAdd\<rparr>)"
| print: "counter_step s s"

definition counter_start :: counter_state where
  "counter_start = \<lparr>counter_x = 0, up = AtAdd, down = AtAdd, ups = 0, downs = 0\<rparr>"

definition counter_init :: "counter_state \<Rightarrow> bool" where
  "counter_init s \<longleftrightarrow> s = counter_start"

text \<open>Everything the program can hold is a multiple of 1024.\<close>

definition whole :: "uint64 \<Rightarrow> bool" where
  "whole w \<longleftrightarrow> (\<exists>k. w = 1024 * k)"

definition counter_inv :: "counter_state \<Rightarrow> bool" where
  "counter_inv s \<longleftrightarrow> whole (counter_x s) \<and> (\<forall>r. up s = AtAssign r \<longrightarrow> whole r) \<and> (\<forall>r. down s = AtAssign r \<longrightarrow> whole r)"

lemma whole_add: "whole w \<Longrightarrow> whole (w + 1024)"
  unfolding whole_def by (elim exE, rule_tac x = "k + 1" in exI) (simp only: distrib_left mult_1_right)

lemma whole_diff: "whole w \<Longrightarrow> whole (w + - 1024)"
  unfolding whole_def by (elim exE, rule_tac x = "k + - 1" in exI) (simp only: distrib_left mult_minus_right mult_1_right)

lemma whole_0: "whole 0"
  unfolding whole_def by (rule exI [of _ 0]) (simp only: mult_zero_right)

interpretation counter: inductive_invariant counter_init counter_step counter_inv
proof
  show "counter_init s \<Longrightarrow> counter_inv s" for s
    by (simp add: counter_init_def counter_start_def counter_inv_def whole_0)
  show "counter_step s t \<Longrightarrow> counter_inv s \<Longrightarrow> counter_inv t" for s t
  proof (induction rule: counter_step.induct)
    case (up_add s)
    then show ?case
      using whole_add [of "counter_x s"] by (simp add: counter_inv_def)
  next
    case (down_add s)
    then show ?case
      using whole_diff [of "counter_x s"] by (simp add: counter_inv_def)
  qed (simp_all add: counter_inv_def)
qed

text \<open>
  The counter only ever holds multiples of 1024, wrap-around included, but it is not the
  number of additions minus the number of subtractions: an assignment that follows the other
  goroutine's addition undoes it, so the program can reach a state in which both goroutines
  are at their additions and the variable differs from what they added up to.
\<close>

theorem counter_whole_but_loses_updates:
  "(\<forall>s. reach counter_init counter_step s \<longrightarrow> (\<exists>k. counter_x s = 1024 * k)) \<and>
   (\<exists>s. reach counter_init counter_step s \<and> up s = AtAdd \<and> down s = AtAdd \<and>
      counter_x s \<noteq> 1024 * of_nat (ups s) - 1024 * of_nat (downs s))"
proof
  show "\<forall>s. reach counter_init counter_step s \<longrightarrow> (\<exists>k. counter_x s = 1024 * k)"
    using counter.inv_reach unfolding counter_inv_def whole_def by blast
  define s1 where "s1 = counter_start\<lparr>counter_x := 1024, up := AtAssign 1024, ups := 1\<rparr>"
  define s2 where "s2 = s1\<lparr>counter_x := 0, down := AtAssign 0, downs := 1\<rparr>"
  define s3 where "s3 = s2\<lparr>counter_x := 0, down := AtAdd\<rparr>"
  define s4 where "s4 = s3\<lparr>counter_x := 1024, up := AtAdd\<rparr>"
  have "reach counter_init counter_step counter_start"
    by (rule reach_init) (simp add: counter_init_def)
  moreover have "counter_step counter_start s1"
    using up_add [of counter_start] by (simp add: counter_start_def s1_def)
  ultimately have "reach counter_init counter_step s1"
    by (rule reach_step)
  moreover have "counter_step s1 s2"
    using down_add [of s1] by (simp add: counter_start_def s1_def s2_def)
  ultimately have "reach counter_init counter_step s2"
    by (rule reach_step)
  moreover have "counter_step s2 s3"
    using down_assign [of s2 0] by (simp add: s2_def s3_def)
  ultimately have "reach counter_init counter_step s3"
    by (rule reach_step)
  moreover have "counter_step s3 s4"
    using up_assign [of s3 1024] by (simp add: s1_def s2_def s3_def s4_def)
  ultimately have "reach counter_init counter_step s4"
    by (rule reach_step)
  moreover have "up s4 = AtAdd" "down s4 = AtAdd" "counter_x s4 = 1024" "ups s4 = 1" "downs s4 = 1"
    by (simp_all add: s1_def s2_def s3_def s4_def)
  ultimately show "\<exists>s. reach counter_init counter_step s \<and> up s = AtAdd \<and> down s = AtAdd \<and>
      counter_x s \<noteq> 1024 * of_nat (ups s) - 1024 * of_nat (downs s)"
    by (intro exI [of _ s4]) simp
qed

theorem counter_whole_but_loses_updates_witness:
  "reach counter_init counter_step counter_start \<and> (\<exists>k. counter_x counter_start = 1024 * k)"
proof -
  have "reach counter_init counter_step counter_start"
    by (rule reach_init) (simp add: counter_init_def)
  then show ?thesis
    using counter_whole_but_loses_updates by blast
qed

end
