(* ===== verification/File_Copy.thy ===== *)
theory File_Copy
  imports Go_Prelude
begin

text \<open>
  The copy of \<open>src/io-explore1/main.go\<close>: \<open>io.Copy\<close> from a file to an \<open>io.MultiWriter\<close> of another
  file and the standard output.

  The operating system is data: the results of the reads in order, and for each write whether
  it fails after some bytes. The destination is opened without \<open>O_TRUNC\<close>, so it keeps what it
  held before.
\<close>

section \<open>Readers and writers\<close>

datatype read_end = ReadOk | ReadEOF | ReadErr string

text \<open>A file that is written to, and the faults of its writes to come.\<close>

record dest_file =
  contents :: "byte list"
  offset :: nat
  faults :: "(nat \<times> string) option list"

record writers =
  out :: dest_file
  stdout :: "byte list"
  stdout_faults :: "(nat \<times> string) option list"

text \<open>The bytes that a write takes and its error, for the next fault.\<close>

definition outcome :: "(nat \<times> string) option list \<Rightarrow> byte list \<Rightarrow> nat \<times> string option" where
  "outcome fs p = (case fs of Some (n, err) # _ \<Rightarrow> (min n (length p), Some err) | _ \<Rightarrow> (length p, None))"

definition file_Write :: "byte list \<Rightarrow> dest_file \<Rightarrow> (nat \<times> string option) \<times> dest_file" where
  "file_Write p f =
     (case outcome (faults f) p of (n, err) \<Rightarrow>
        ((n, err),
         \<lparr>contents = take (offset f) (contents f) @ take n p @ drop (offset f + n) (contents f),
          offset = offset f + n, faults = tl (faults f)\<rparr>))"

definition stdout_Write :: "byte list \<Rightarrow> writers \<Rightarrow> (nat \<times> string option) \<times> writers" where
  "stdout_Write p w =
     (case outcome (stdout_faults w) p of (n, err) \<Rightarrow>
        ((n, err), w\<lparr>stdout := stdout w @ take n p, stdout_faults := tl (stdout_faults w)\<rparr>))"

text \<open>\<open>MultiWriter\<close> stops at the first writer that fails or writes less than it is given.\<close>

definition multi_Write :: "byte list \<Rightarrow> writers \<Rightarrow> (nat \<times> string option) \<times> writers" where
  "multi_Write p w =
     (case file_Write p (out w) of ((n, err), f) \<Rightarrow>
        let w = w\<lparr>out := f\<rparr>
        in if err \<noteq> None then ((n, err), w)
           else if n \<noteq> length p then ((n, Some ''short write''), w)
           else (case stdout_Write p w of ((n, err), w) \<Rightarrow>
                   if err \<noteq> None then ((n, err), w)
                   else if n \<noteq> length p then ((n, Some ''short write''), w)
                   else ((length p, None), w)))"

section \<open>The copy\<close>

text \<open>\<open>io.Copy\<close>, over the results of the reads; after the last one the file is at its end.\<close>

fun io_Copy :: "nat \<Rightarrow> (byte list \<times> read_end) list \<Rightarrow> writers \<Rightarrow> (nat \<times> string option) \<times> writers" where
  "io_Copy written [] w = ((written, None), w)"
| "io_Copy written ((buf, er) # rs) w =
     (case (if buf = [] then ((0, None), w) else multi_Write buf w) of ((nw, ew), w) \<Rightarrow>
        if ew \<noteq> None then ((written + nw, ew), w)
        else if nw \<noteq> length buf then ((written + nw, Some ''short write''), w)
        else (case er of
                ReadOk \<Rightarrow> io_Copy (written + nw) rs w
              | ReadEOF \<Rightarrow> ((written + nw, None), w)
              | ReadErr err \<Rightarrow> ((written + nw, Some err), w)))"

definition Copy :: "(byte list \<times> read_end) list \<Rightarrow> writers \<Rightarrow> (nat \<times> string option) \<times> writers" where
  "Copy rs w = (case io_Copy 0 rs w of ((n, err), w) \<Rightarrow> ((if err = None then n else 0, err), w))"

text \<open>
  \<open>main\<close>: the errors of opening end the program; the result of the copy is dropped. The result
  is the message of the exit, and the destination.
\<close>

definition copy_main ::
  "string option \<Rightarrow> string option \<Rightarrow> (byte list \<times> read_end) list \<Rightarrow> writers \<Rightarrow> string option \<times> writers" where
  "copy_main src_err dest_err rs w =
     (case src_err of
        Some err \<Rightarrow> (Some err, w)
      | None \<Rightarrow> (case dest_err of Some err \<Rightarrow> (Some err, w) | None \<Rightarrow> (None, snd (Copy rs w))))"

section \<open>Lemmas\<close>

text \<open>The bytes that the reads deliver until one of them ends the file or fails.\<close>

fun delivered :: "(byte list \<times> read_end) list \<Rightarrow> byte list" where
  "delivered [] = []"
| "delivered ((buf, er) # rs) = buf @ (if er = ReadOk then delivered rs else [])"

text \<open>The destination after the first \<open>k\<close> bytes of \<open>d\<close> over the old content, with \<open>j\<close> of them printed.\<close>

definition copied :: "byte list \<Rightarrow> byte list \<Rightarrow> byte list \<Rightarrow> nat \<Rightarrow> nat \<Rightarrow> writers \<Rightarrow> bool" where
  "copied old printed d k j w \<longleftrightarrow>
     contents (out w) = take k d @ drop k old \<and> offset (out w) = k \<and> k \<le> length d \<and>
     stdout w = printed @ take j d \<and> j \<le> k"

lemma outcome_cases:
  obtains (ok) "outcome fs p = (length p, None)" | (fails) n err where "n \<le> length p" "outcome fs p = (n, Some err)"
proof (cases "\<exists>n err gs. fs = Some (n, err) # gs")
  case True
  then obtain n err gs where "fs = Some (n, err) # gs"
    by blast
  then show thesis
    using fails [of "min n (length p)" err] by (simp add: outcome_def)
next
  case False
  then show thesis
    using ok by (auto simp: outcome_def split: list.split option.split)
qed

lemma multi_Write_copied:
  assumes "copied old printed d (length d) (length d) w"
  obtains (ok) w' where "multi_Write p w = ((length p, None), w')" "copied old printed (d @ p) (length (d @ p)) (length (d @ p)) w'"
  | (fails) n err k j w' where "multi_Write p w = ((n, Some err), w')" "copied old printed (d @ p) k j w'"
proof -
  have w: "contents (out w) = d @ drop (length d) old" "offset (out w) = length d" "stdout w = printed @ d"
    using assms by (simp_all add: copied_def)
  have wr: "contents (snd (file_Write p (out w))) = d @ take n p @ drop (length d + n) old" "offset (snd (file_Write p (out w))) = length d + n"
    "fst (file_Write p (out w)) = (n, err)" if "outcome (faults (out w)) p = (n, err)" for n err
    using that w by (simp_all add: file_Write_def add.commute)
  show thesis
  proof (cases "faults (out w)" p rule: outcome_cases)
    case (fails n err)
    then have "multi_Write p w = ((n, Some err), w\<lparr>out := snd (file_Write p (out w))\<rparr>)"
      using wr(3) by (auto simp: multi_Write_def Let_def split: prod.split)
    moreover have "copied old printed (d @ p) (length d + n) (length d) (w\<lparr>out := snd (file_Write p (out w))\<rparr>)"
      using fails wr(1,2) w(3) by (simp add: copied_def)
    ultimately show thesis
      by (rule that(2))
  next
    case ok
    note file_ok = ok
    let ?w = "w\<lparr>out := snd (file_Write p (out w))\<rparr>"
    show thesis
    proof (cases "stdout_faults w" p rule: outcome_cases)
      case ok
      then have "multi_Write p w = ((length p, None), ?w\<lparr>stdout := stdout w @ p, stdout_faults := tl (stdout_faults w)\<rparr>)"
        using wr(3) [OF file_ok] by (auto simp: multi_Write_def stdout_Write_def Let_def split: prod.split)
      moreover have "copied old printed (d @ p) (length (d @ p)) (length (d @ p))
          (?w\<lparr>stdout := stdout w @ p, stdout_faults := tl (stdout_faults w)\<rparr>)"
        using wr [OF file_ok] w(3) by (simp add: copied_def)
      ultimately show thesis
        by (rule that(1))
    next
      case (fails n err)
      then have "multi_Write p w = ((n, Some err), ?w\<lparr>stdout := stdout w @ take n p, stdout_faults := tl (stdout_faults w)\<rparr>)"
        using wr(3) [OF file_ok] by (auto simp: multi_Write_def stdout_Write_def Let_def split: prod.split)
      moreover have "copied old printed (d @ p) (length d + length p) (length d + n)
          (?w\<lparr>stdout := stdout w @ take n p, stdout_faults := tl (stdout_faults w)\<rparr>)"
        using wr [OF file_ok] w(3) fails(1) by (simp add: copied_def)
      ultimately show thesis
        by (rule that(2))
    qed
  qed
qed

lemma copied_mono: "copied old printed d k j w \<Longrightarrow> copied old printed (d @ e) k j w"
  by (auto simp: copied_def)

text \<open>The result of a copy of \<open>d\<close>: a part of it is there, and all of it if there is no error.\<close>

definition result_ok :: "byte list \<Rightarrow> byte list \<Rightarrow> byte list \<Rightarrow> (nat \<times> string option) \<times> writers \<Rightarrow> bool" where
  "result_ok old printed d r \<longleftrightarrow>
     (\<exists>k j. copied old printed d k j (snd r) \<and> (snd (fst r) = None \<longrightarrow> k = length d \<and> j = k \<and> fst (fst r) = k))"

lemma result_okI: "copied old printed d (length d) (length d) w \<Longrightarrow> result_ok old printed d ((length d, err), w)"
  by (auto simp: result_ok_def)

lemma io_Copy_result_ok:
  assumes "copied old printed d (length d) (length d) w"
  shows "result_ok old printed (d @ delivered rs) (io_Copy (length d) rs w)"
  using assms
proof (induction rs arbitrary: d w)
  case Nil
  then show ?case
    using result_okI by simp
next
  case (Cons r rs)
  obtain buf er where r: "r = (buf, er)"
    by fastforce
  have step: "result_ok old printed (d @ delivered (r # rs))
      (case er of ReadOk \<Rightarrow> io_Copy (length (d @ buf)) rs w' | ReadEOF \<Rightarrow> ((length (d @ buf), None), w')
       | ReadErr err \<Rightarrow> ((length (d @ buf), Some err), w'))"
    if "copied old printed (d @ buf) (length (d @ buf)) (length (d @ buf)) w'" for w'
    using Cons.IH [OF that] result_okI [OF that] by (cases er) (simp_all add: r)
  show ?case
  proof (cases "buf = []")
    case True
    then show ?thesis
      using Cons.prems step [of w] by (cases er) (simp_all add: r)
  next
    case False
    from Cons.prems show ?thesis
    proof (cases rule: multi_Write_copied [where p = buf])
      case (ok w')
      then show ?thesis
        using False step [of w'] by (cases er) (simp_all add: r)
    next
      case (fails n err k j w')
      then show ?thesis
        using False copied_mono [OF fails(2), of "if er = ReadOk then delivered rs else []"]
        by (cases er) (auto simp: r result_ok_def)
    qed
  qed
qed

section \<open>Properties\<close>

text \<open>
  (C36) Whatever the reads deliver and the writes do, the copy overwrites the old content from its
  start with a prefix of what was read, of which a prefix is printed. A copy without an error
  writes and prints all of it and returns its length; still, the rest of an older and longer
  file stays behind it. After an error the result is 0, whatever was written.
\<close>

theorem copy_overwrites_prefix:
  assumes "Copy rs \<lparr>out = \<lparr>contents = old, offset = 0, faults = fs\<rparr>, stdout = [], stdout_faults = gs\<rparr> = ((n, err), w)"
  shows "\<exists>k j. j \<le> k \<and> k \<le> length (delivered rs) \<and> contents (out w) = take k (delivered rs) @ drop k old \<and>
    stdout w = take j (delivered rs) \<and>
    (if err = None then j = length (delivered rs) \<and> n = j else n = 0)"
proof -
  let ?w = "\<lparr>out = \<lparr>contents = old, offset = 0, faults = fs\<rparr>, stdout = [], stdout_faults = gs\<rparr>"
  have "copied old [] [] 0 0 ?w"
    by (simp add: copied_def)
  then obtain k j where "copied old [] (delivered rs) k j (snd (io_Copy 0 rs ?w))"
    "snd (fst (io_Copy 0 rs ?w)) = None \<longrightarrow> k = length (delivered rs) \<and> j = k \<and> fst (fst (io_Copy 0 rs ?w)) = k"
    using io_Copy_result_ok [of old "[]" "[]" ?w rs] by (auto simp: result_ok_def)
  then show ?thesis
    using assms by (intro exI [of _ k] exI [of _ j]) (auto simp: Copy_def copied_def split: prod.splits if_splits)
qed

text \<open>The first write to the standard output fails after one byte.\<close>

theorem copy_overwrites_prefix_witness:
  "\<exists>k j. j \<le> k \<and> k \<le> 2 \<and> contents (out (snd (Copy [([1, 2], ReadEOF)]
       \<lparr>out = \<lparr>contents = [7, 8, 9], offset = 0, faults = []\<rparr>, stdout = [], stdout_faults = [Some (1, ''pipe'')]\<rparr>))) =
     take k [1, 2] @ drop k [7, 8, 9]"
proof -
  let ?w = "\<lparr>out = \<lparr>contents = [7, 8, 9], offset = 0, faults = []\<rparr>, stdout = [], stdout_faults = [Some (1, ''pipe'')]\<rparr>"
  obtain n err w where run: "Copy [([1, 2], ReadEOF)] ?w = ((n, err), w)"
    by (metis prod.exhaust)
  show ?thesis
    using copy_overwrites_prefix [OF run] run by auto
qed

text \<open>A shorter file copied over a longer one leaves the end of the longer one.\<close>

lemma shorter_copy_keeps_tail:
  "contents (out (snd (copy_main None None [([1], ReadOk), ([], ReadEOF)]
     \<lparr>out = \<lparr>contents = [7, 8, 9], offset = 0, faults = []\<rparr>, stdout = [], stdout_faults = []\<rparr>))) = [1, 8, 9]"
  by code_simp

end
