(* ===== verification/Goroutine_Demos.thy ===== *)
theory Goroutine_Demos
  imports Go_Prelude
begin

text \<open>
  Small programs about goroutines: the recovery from a panic (\<open>src/recover-explore\<close>), the
  deletion by a timer (\<open>src/timer-explorer\<close>), and the map that a ticker fills
  (\<open>src/runtime-foo\<close>). All are machines of their goroutines and \<open>main\<close>; the steps of a
  machine stop when the process has ended.
\<close>

section \<open>Recovery from a panic\<close>

text \<open>
  \<open>dontPanic\<close> logs and runs its deferred \<open>Done\<close>. \<open>doPanic\<close> logs, panics, and its deferred
  function recovers the value, dumps the wait group and calls \<open>Done\<close>.
\<close>

datatype calm_pc = CalmLog | CalmDone | CalmEnded
datatype panic_pc = PanicLog | Panics | Deferred "string option" | PanicDone | PanicEnded

record recover_state =
  calm :: calm_pc
  panicking :: panic_pc
  wg :: int
  recovered :: "string list"
  main_ended :: bool

definition recover_start :: recover_state where
  "recover_start = \<lparr>calm = CalmLog, panicking = PanicLog, wg = 2, recovered = [], main_ended = False\<rparr>"

inductive recover_step :: "recover_state \<Rightarrow> recover_state \<Rightarrow> bool" where
  calm_logs: "\<not> main_ended s \<Longrightarrow> calm s = CalmLog \<Longrightarrow> recover_step s (s\<lparr>calm := CalmDone\<rparr>)"
| calm_done: "\<not> main_ended s \<Longrightarrow> calm s = CalmDone \<Longrightarrow> recover_step s (s\<lparr>calm := CalmEnded, wg := wg s - 1\<rparr>)"
| panic_logs: "\<not> main_ended s \<Longrightarrow> panicking s = PanicLog \<Longrightarrow> recover_step s (s\<lparr>panicking := Panics\<rparr>)"
| panics: "\<not> main_ended s \<Longrightarrow> panicking s = Panics \<Longrightarrow>
    recover_step s (s\<lparr>panicking := Deferred (Some ''hello i panic'ed'')\<rparr>)"
| recovers: "\<not> main_ended s \<Longrightarrow> panicking s = Deferred r \<Longrightarrow>
    recover_step s (s\<lparr>panicking := PanicDone,
      recovered := recovered s @ (case r of Some err \<Rightarrow> [err] | None \<Rightarrow> [])\<rparr>)"
| panic_done: "\<not> main_ended s \<Longrightarrow> panicking s = PanicDone \<Longrightarrow>
    recover_step s (s\<lparr>panicking := PanicEnded, wg := wg s - 1\<rparr>)"
| wait_returns: "\<not> main_ended s \<Longrightarrow> wg s = 0 \<Longrightarrow> recover_step s (s\<lparr>main_ended := True\<rparr>)"

definition recover_inv :: "recover_state \<Rightarrow> bool" where
  "recover_inv s \<longleftrightarrow>
     wg s = (if calm s = CalmEnded then 0 else 1) + (if panicking s = PanicEnded then 0 else 1) \<and>
     recovered s = (if panicking s \<in> {PanicDone, PanicEnded} then [''hello i panic'ed''] else []) \<and>
     (\<forall>r. panicking s = Deferred r \<longrightarrow> r = Some ''hello i panic'ed'') \<and>
     (main_ended s \<longrightarrow> wg s = 0)"

interpretation recover: inductive_invariant "\<lambda>s. s = recover_start" recover_step recover_inv
proof (unfold_locales, goal_cases)
  case (2 s t)
  then show ?case
    by (induction rule: recover_step.induct) (auto simp: recover_inv_def split: if_splits)
qed (simp add: recover_inv_def recover_start_def)

definition recover_rank :: "recover_state \<Rightarrow> nat" where
  "recover_rank s =
     (case calm s of CalmLog \<Rightarrow> 2 | CalmDone \<Rightarrow> 1 | CalmEnded \<Rightarrow> 0) +
     (case panicking s of PanicLog \<Rightarrow> 4 | Panics \<Rightarrow> 3 | Deferred _ \<Rightarrow> 2 | PanicDone \<Rightarrow> 1 | PanicEnded \<Rightarrow> 0) +
     (if main_ended s then 0 else 1)"

lemma recover_step_rank: "recover_step s t \<Longrightarrow> recover_rank t < recover_rank s"
  by (induction rule: recover_step.induct) (auto simp: recover_rank_def)

text \<open>
  The panic is contained: a state that has no next step has \<open>main\<close> ended after both goroutines
  called \<open>Done\<close>, with the panic recovered once; and every run reaches such a state, since each
  step decreases a rank.
\<close>

theorem recover_ends:
  assumes "reach (\<lambda>s. s = recover_start) recover_step s" and "\<nexists>t. recover_step s t"
  shows "main_ended s \<and> calm s = CalmEnded \<and> panicking s = PanicEnded \<and> recovered s = [''hello i panic'ed'']"
proof -
  have inv: "recover_inv s"
    using assms(1) by (rule recover.inv_reach)
  have "main_ended s"
  proof (rule ccontr)
    assume m: "\<not> main_ended s"
    have "calm s = CalmEnded"
      using assms(2) recover_step.calm_logs [OF m] recover_step.calm_done [OF m] by (cases "calm s") blast+
    moreover have "panicking s = PanicEnded"
      using assms(2) recover_step.panic_logs [OF m] recover_step.panics [OF m] recover_step.recovers [OF m]
        recover_step.panic_done [OF m] by (cases "panicking s") blast+
    ultimately have "wg s = 0"
      using inv by (simp add: recover_inv_def)
    then show False
      using assms(2) recover_step.wait_returns [OF m] by blast
  qed
  with inv show ?thesis
    by (auto simp: recover_inv_def split: if_splits)
qed

section \<open>Deletion by a timer\<close>

text \<open>
  The goroutine of \<open>start\<close> arms the timer and loops over its channel; \<open>finch\<close> is unbuffered, so
  the send is a joint step with the receive of \<open>main\<close>, after which the process ends. The timer
  fires once.
\<close>

datatype deleter_pc = Arming | AtTimer | SendingFin

record timer_state =
  deleter :: deleter_pc
  armed :: bool
  deleted :: "string list"
  timer_main_ended :: bool

definition newDeleterService :: timer_state where
  "newDeleterService = \<lparr>deleter = Arming, armed = False, deleted = [], timer_main_ended = False\<rparr>"

inductive timer_step :: "string \<Rightarrow> timer_state \<Rightarrow> timer_state \<Rightarrow> bool" for f :: string
where
  arm: "\<not> timer_main_ended s \<Longrightarrow> deleter s = Arming \<Longrightarrow> timer_step f s (s\<lparr>deleter := AtTimer, armed := True\<rparr>)"
| fire: "\<not> timer_main_ended s \<Longrightarrow> deleter s = AtTimer \<Longrightarrow> armed s \<Longrightarrow>
    timer_step f s (s\<lparr>armed := False, deleted := deleted s @ [f], deleter := SendingFin\<rparr>)"
| finish: "\<not> timer_main_ended s \<Longrightarrow> deleter s = SendingFin \<Longrightarrow>
    timer_step f s (s\<lparr>deleter := AtTimer, timer_main_ended := True\<rparr>)"

definition timer_inv :: "string \<Rightarrow> timer_state \<Rightarrow> bool" where
  "timer_inv f s \<longleftrightarrow>
     (armed s \<longleftrightarrow> deleter s = AtTimer \<and> \<not> timer_main_ended s) \<and>
     deleted s = (if deleter s = SendingFin \<or> timer_main_ended s then [f] else []) \<and>
     (timer_main_ended s \<longrightarrow> deleter s = AtTimer)"

interpretation timer: inductive_invariant "\<lambda>s. s = newDeleterService" "timer_step f" "timer_inv f"
proof (unfold_locales, goal_cases)
  case (2 s t)
  then show ?case
    by (induction rule: timer_step.induct) (auto simp: timer_inv_def)
qed (simp add: timer_inv_def newDeleterService_def)

text \<open>The program ends, after three steps, with the file deleted exactly once.\<close>

theorem timer_deletes_once:
  assumes "reach (\<lambda>s. s = newDeleterService) (timer_step f) s"
  shows "length (deleted s) \<le> 1 \<and> ((\<nexists>t. timer_step f s t) \<longrightarrow> timer_main_ended s \<and> deleted s = [f])"
proof -
  have inv: "timer_inv f s"
    using assms by (rule timer.inv_reach)
  have "timer_main_ended s" if "\<nexists>t. timer_step f s t"
    using that inv timer_step.arm [of s f] timer_step.fire [of s f] timer_step.finish [of s f]
    by (cases "deleter s") (auto simp: timer_inv_def)
  with inv show ?thesis
    by (auto simp: timer_inv_def)
qed

section \<open>The ticker that fills a map\<close>

text \<open>\<open>rand.Intn\<close> panics on a bound that is not positive.\<close>

definition Intn :: "nat \<Rightarrow> nat \<Rightarrow> nat option" where
  "Intn r n = (if n = 0 then None else Some (r mod n))"

text \<open>The loop of one tick, for the random numbers \<open>rnd\<close>; \<open>None\<close> is a panic or an endless loop.\<close>

partial_function (option) fill_loop :: "(nat \<Rightarrow> nat) \<Rightarrow> nat \<Rightarrow> (nat \<rightharpoonup> string) \<Rightarrow> (nat \<rightharpoonup> string) option" where
  "fill_loop rnd e mem =
     (if e < card (dom mem)
      then Option.bind (Intn (rnd e) e) (\<lambda>k. fill_loop rnd (Suc e) (mem(k \<mapsto> ''hello'')))
      else Some mem)"

text \<open>A tick never adds an entry: the empty map of the program stays empty, and any other makes it panic at once.\<close>

lemma fill_loop_tick:
  assumes "finite (dom mem)"
  shows "fill_loop rnd 0 mem = (if mem = Map.empty then Some Map.empty else None)"
  using assms by (subst fill_loop.simps) (auto simp: Intn_def card_gt_0_iff)

text \<open>
  The whole program: the goroutine of the ticker, the one that runs the garbage collector with
  its thread locked, and \<open>main\<close>, which waits for both. The default case of the select does
  nothing and is no step.
\<close>

datatype gc_pc = Unlocked | LockedThread | Collected

record runtime_state =
  mem :: "nat \<rightharpoonup> string"
  gc :: gc_pc
  wait_count :: nat
  done_printed :: nat
  ticker_panicked :: bool
  main_returned :: bool

definition runtime_start :: "runtime_state \<Rightarrow> bool" where
  "runtime_start s \<longleftrightarrow> s = \<lparr>mem = Map.empty, gc = Unlocked, wait_count = 2, done_printed = 0,
     ticker_panicked = False, main_returned = False\<rparr>"

definition runs :: "runtime_state \<Rightarrow> bool" where
  "runs s \<longleftrightarrow> \<not> ticker_panicked s \<and> \<not> main_returned s"

inductive runtime_step :: "runtime_state \<Rightarrow> runtime_state \<Rightarrow> bool" where
  tick: "runs s \<Longrightarrow> fill_loop rnd 0 (mem s) = Some m \<Longrightarrow>
    runtime_step s (s\<lparr>mem := m, done_printed := done_printed s + 1\<rparr>)"
| tick_panics: "runs s \<Longrightarrow> fill_loop rnd 0 (mem s) = None \<Longrightarrow> runtime_step s (s\<lparr>ticker_panicked := True\<rparr>)"
| LockOSThread: "runs s \<Longrightarrow> gc s = Unlocked \<Longrightarrow> runtime_step s (s\<lparr>gc := LockedThread\<rparr>)"
| GC: "runs s \<Longrightarrow> gc s = LockedThread \<Longrightarrow> runtime_step s (s\<lparr>gc := Collected\<rparr>)"
| UnlockOSThread: "runs s \<Longrightarrow> gc s = Collected \<Longrightarrow> runtime_step s (s\<lparr>gc := Unlocked\<rparr>)"
| wait_returns: "runs s \<Longrightarrow> wait_count s = 0 \<Longrightarrow> runtime_step s (s\<lparr>main_returned := True\<rparr>)"

interpretation runtime: inductive_invariant runtime_start runtime_step
  "\<lambda>s. mem s = Map.empty \<and> wait_count s = 2 \<and> runs s"
proof (unfold_locales, goal_cases)
  case (1 s)
  then show ?case
    by (simp add: runtime_start_def runs_def)
next
  case (2 s t)
  then show ?case
    by (induction rule: runtime_step.induct) (auto simp: fill_loop_tick runs_def)
qed

text \<open>The map stays empty, the ticker never panics, and \<open>main\<close> never returns: some step is always possible.\<close>

lemma runtime_never_ends:
  assumes "reach runtime_start runtime_step s"
  shows "mem s = Map.empty \<and> \<not> ticker_panicked s \<and> \<not> main_returned s \<and> (\<exists>t. runtime_step s t)"
proof -
  have inv: "mem s = Map.empty" "runs s"
    using runtime.inv_reach [OF assms] by simp_all
  then have "\<exists>t. runtime_step s t"
    using runtime_step.tick [of s "\<lambda>_. 0" Map.empty] by (auto simp: fill_loop_tick)
  with inv show ?thesis
    by (simp add: runs_def)
qed

end
