(* ===== verification/Small_Demos.thy ===== *)
theory Small_Demos
  imports Go_Prelude
begin

text \<open>
  Small programs over one library or one format: the notifier (\<open>src/interfaces-explore\<close>), the
  file lock (\<open>src/sys-lock\<close>), the allocator (\<open>src/allocate-mem\<close>), the traced work
  (\<open>src/tracing\<close>, \<open>src/tracing2\<close>), dynamic dispatch (\<open>src/dyn-dispatch\<close>) and the debugger test
  (\<open>src/dlv-testing\<close>). The allocator is an argument.
\<close>

section \<open>The notifier\<close>

record Contact =
  Name :: string
  Ph :: string

record Message =
  Address :: string
  ShopName :: string
  Contact :: Contact

definition rule :: string where
  "rule = ''==================================''"

definition message_lines :: "Message \<Rightarrow> string list" where
  "message_lines m =
     [rule, ''Address: '' @ Address m, ''Shop name: '' @ ShopName m, ''Contact Name: '' @ Name (Contact m),
      ''Contact Phone Number: '' @ Ph (Contact m), rule]"

definition String :: "Message \<Rightarrow> string" where
  "String m = join_with (CHR 0x0A) (message_lines m)"

definition send :: "Message \<Rightarrow> string option \<times> string" where
  "send m = (None, ''sent notification to: '' @ [CHR 0x0A] @ String m @ [CHR 0x0A])"

definition Notify :: "Message \<Rightarrow> string" where
  "Notify m = snd (send m)"

text \<open>The verb \<open>%+v\<close> of a message prints its \<open>String\<close>.\<close>

definition NotifyFake :: "Message \<Rightarrow> string" where
  "NotifyFake m = ''sent fake notification to '' @ [CHR 0x0A] @ String m @ [CHR 0x0A] @ ''without calling send()''"

definition notifier_main :: string where
  "notifier_main = Notify \<lparr>Address = ''ba'', ShopName = ''sdf'', Contact = \<lparr>Name = ''ab'', Ph = ''123789899''\<rparr>\<rparr>"

definition one_line :: "Message \<Rightarrow> bool" where
  "one_line m \<longleftrightarrow> (\<forall>s \<in> {Address m, ShopName m, Name (Contact m), Ph (Contact m)}. CHR 0x0A \<notin> set s)"

text \<open>A message of one-line fields can be read back from its text, line by line.\<close>

lemma String_lines:
  assumes "one_line m"
  shows "split_on (CHR 0x0A) (String m) = message_lines m"
  unfolding String_def using assms
  by (intro split_join) (auto simp: message_lines_def one_line_def rule_def)

lemma String_inj:
  assumes "one_line m" and "one_line m'" and "String m = String m'"
  shows "m = m'"
proof -
  have "message_lines m = message_lines m'"
    using assms String_lines by metis
  then show ?thesis
    by (cases m; cases m'; cases "Contact m"; cases "Contact m'") (auto simp: message_lines_def)
qed

lemma fake_not_real: "NotifyFake m \<noteq> Notify m"
  by (simp add: NotifyFake_def Notify_def send_def)

section \<open>The lock\<close>

text \<open>
  The vendored package \<open>singlefile\<close> on Linux: a lock is a listener on an abstract socket whose
  name is joined from the key, and the state is the names in use on the host. Closing the
  listener frees the name; so does the end of the process. \<open>path.Join\<close> is an argument.
\<close>

definition Lock :: "(string \<Rightarrow> string \<Rightarrow> string) \<Rightarrow> string \<Rightarrow> string list \<Rightarrow> string + string \<times> string list" where
  "Lock path_Join key held =
     (if key = [] then Inl ''key must not be empty''
      else let name = path_Join ''@singlefile'' key
           in if name \<in> set held then Inl ''address already in use'' else Inr (name, name # held))"

datatype lock_end = LockFatal string | Slept

text \<open>\<open>main\<close>: how it ends, and the names in use once the process is gone.\<close>

definition lock_main :: "(string \<Rightarrow> string \<Rightarrow> string) \<Rightarrow> string list \<Rightarrow> lock_end \<times> string list" where
  "lock_main path_Join held =
     (let key = ''xyzzy''
      in case Lock path_Join key held of
           Inl err \<Rightarrow> (LockFatal (''could not aquire singlefile lock: '' @ err), held)
         | Inr (unlock, held) \<Rightarrow>
             (case Lock path_Join key held of
                Inl err \<Rightarrow> (LockFatal (''relock failed: '' @ err), removeAll unlock held)
              | Inr (reUnlock, held) \<Rightarrow> (Slept, removeAll unlock (removeAll reUnlock held))))"

text \<open>A held lock excludes a second one; so the program never reaches its sleep, and leaves no lock.\<close>

lemma Lock_excludes: "Lock j key held = Inr (u, held') \<Longrightarrow> Lock j key held' = Inl ''address already in use''"
  by (auto simp: Lock_def Let_def split: if_splits)

lemma lock_main_fails:
  "lock_main j held =
     (if j ''@singlefile'' ''xyzzy'' \<in> set held
      then (LockFatal ''could not aquire singlefile lock: address already in use'', held)
      else (LockFatal ''relock failed: address already in use'', held))"
  by (simp add: lock_main_def Lock_def Let_def)

section \<open>The allocator\<close>

datatype alloc_end = AllocPanic string | Printed "char list" nat

text \<open>\<open>copy\<close> writes as many bytes as both slices have.\<close>

definition copy_bytes :: "'a list \<Rightarrow> 'a list \<Rightarrow> 'a list" where
  "copy_bytes dst src = take (length dst) src @ drop (length src) dst"

definition alloc_main :: "(nat \<Rightarrow> string + string) \<Rightarrow> (string \<Rightarrow> string option) \<Rightarrow> alloc_end list" where
  "alloc_main Calloc Free =
     (case Calloc (length ''hello world'') of
        Inl err \<Rightarrow> [AllocPanic err]
      | Inr b \<Rightarrow>
          let b = copy_bytes b ''hello world''
          in Printed b (length b) # (case Free b of None \<Rightarrow> [] | Some err \<Rightarrow> [AllocPanic err]))"

lemma alloc_main_prints:
  assumes "Calloc (length ''hello world'') = Inr b" and "length b = length ''hello world''"
  shows "hd (alloc_main Calloc Free) = Printed ''hello world'' (length ''hello world'')"
  using assms by (simp add: alloc_main_def copy_bytes_def Let_def)

section \<open>Traced work\<close>

datatype trace_event = TraceLog string | TraceDot | TraceDuration duration

text \<open>
  The argument of the deferred call is evaluated at the start: the clock is read before the
  work and again when it returns. \<open>dots\<close> is the number of ticks of the progress goroutine that
  were printed meanwhile.
\<close>

definition trace :: "int \<Rightarrow> int \<Rightarrow> trace_event list" where
  "trace start now = [TraceDuration (now - start)]"

definition work :: "(int \<Rightarrow> int \<Rightarrow> trace_event list) \<Rightarrow> (nat \<Rightarrow> int) \<Rightarrow> nat \<Rightarrow> trace_event list" where
  "work traceFn clock dots =
     (let s = clock 0 in TraceLog ''working..'' # replicate dots TraceDot @ traceFn s (clock 1))"

definition tracing_main :: "(nat \<Rightarrow> int) \<Rightarrow> nat \<Rightarrow> trace_event list" where
  "tracing_main clock dots = work trace clock dots @ [TraceLog ''done'']"

text \<open>The first version writes the deferred function in place; it does the same.\<close>

definition tracing1_work :: "(nat \<Rightarrow> int) \<Rightarrow> nat \<Rightarrow> trace_event list" where
  "tracing1_work clock dots =
     (let s = clock 0 in TraceLog ''working..'' # replicate dots TraceDot @ [TraceDuration (clock 1 - s)])"

lemma tracing1_work_eq: "tracing1_work clock dots = work trace clock dots"
  by (simp add: tracing1_work_def work_def trace_def)

text \<open>The traced duration contains the sleep, since the clock is read on both sides of it.\<close>

lemma trace_covers_sleep:
  assumes "clock 0 + 5 * Second \<le> clock 1"
  shows "\<exists>d \<ge> 5 * Second. TraceDuration d \<in> set (tracing_main clock dots)"
  using assms by (auto simp: tracing_main_def work_def trace_def)

section \<open>Dynamic dispatch\<close>

text \<open>
  The dynamic types behind the interface \<open>Sleeper\<close> of \<open>src/dyn-dispatch\<close>. The methods do
  nothing; what a run shows is which of them the calls select.
\<close>

datatype sleeper = Cat | Dog

datatype sleep_call = Cat_Sleep | Dog_Sleep

definition Sleep :: "sleeper \<Rightarrow> sleep_call" where
  "Sleep x = (case x of Cat \<Rightarrow> Cat_Sleep | Dog \<Rightarrow> Dog_Sleep)"

definition dispatch_main :: "sleep_call list" where
  "dispatch_main = map Sleep [Cat, Dog]"

section \<open>The debugger test\<close>

text \<open>\<open>src/dlv-testing\<close>: what \<open>os.Stat\<close> returns besides the error is dropped.\<close>

datatype dlv_end = Fatal string | Finished string

definition dlv_main :: "(string \<Rightarrow> string + 'i) \<Rightarrow> dlv_end" where
  "dlv_main Stat = (case Stat ''/tmp/file'' of Inl err \<Rightarrow> Fatal err | Inr _ \<Rightarrow> Finished ''finished'')"

end
