(* ===== verification/Cgo_Demos.thy ===== *)
theory Cgo_Demos
  imports Go_Prelude
begin

text \<open>
  Go programs that call C: the list intersection of \<open>src/list-intersect/cgo-list-intersect\<close>, the
  demonstration of the memory sanitizer (\<open>src/msanfoo\<close>) and the passing of Go bytes to C
  (\<open>src/cgo-explore/gc-protect\<close>).

  The C heap is an explicit store: a map from the addresses of allocated blocks to their
  words. What \<open>malloc\<close> answers, a null pointer or a block with arbitrary content at an address
  that is not in use, is an argument. An access that C leaves undefined is a fault, and ends
  the run.
\<close>

section \<open>The C heap\<close>

type_synonym c_ptr = nat
type_synonym c_heap = "c_ptr \<Rightarrow> int list option"

abbreviation (input) NULL :: c_ptr where "NULL \<equiv> 0"

datatype c_fault = NullDereference | UseAfterFree | OutOfBlock | InvalidFree

text \<open>An answer of \<open>malloc\<close>: no memory, or an address and what is found there.\<close>

type_synonym malloc_answer = "(c_ptr \<times> (nat \<Rightarrow> int)) option"

definition malloc :: "malloc_answer \<Rightarrow> nat \<Rightarrow> c_heap \<Rightarrow> c_ptr \<times> c_heap" where
  "malloc ans words h =
     (case ans of
        None \<Rightarrow> (NULL, h)
      | Some (p, junk) \<Rightarrow> (p, h(p \<mapsto> map junk [0..<words])))"

definition block :: "c_ptr \<Rightarrow> c_heap \<Rightarrow> c_fault + int list" where
  "block p h =
     (if p = NULL then Inl NullDereference
      else case h p of None \<Rightarrow> Inl UseAfterFree | Some ws \<Rightarrow> Inr ws)"

definition load_word :: "c_ptr \<Rightarrow> nat \<Rightarrow> c_heap \<Rightarrow> c_fault + int" where
  "load_word p i h =
     (case block p h of Inl e \<Rightarrow> Inl e | Inr ws \<Rightarrow> if i < length ws then Inr (ws ! i) else Inl OutOfBlock)"

definition store_word :: "c_ptr \<Rightarrow> nat \<Rightarrow> int \<Rightarrow> c_heap \<Rightarrow> c_fault + c_heap" where
  "store_word p i v h =
     (case block p h of
        Inl e \<Rightarrow> Inl e
      | Inr ws \<Rightarrow> if i < length ws then Inr (h(p \<mapsto> ws[i := v])) else Inl OutOfBlock)"

definition c_free :: "c_ptr \<Rightarrow> c_heap \<Rightarrow> c_fault + c_heap" where
  "c_free p h =
     (if p = NULL then Inr h
      else case h p of None \<Rightarrow> Inl InvalidFree | Some _ \<Rightarrow> Inr (h(p := None)))"

definition answer_ok :: "malloc_answer \<Rightarrow> c_heap \<Rightarrow> bool" where
  "answer_ok ans h = (case ans of None \<Rightarrow> True | Some (p, _) \<Rightarrow> p \<noteq> NULL \<and> h p = None)"

lemmas heap_defs = malloc_def block_def load_word_def store_word_def c_free_def answer_ok_def

section \<open>Sets of integers\<close>

text \<open>
  An \<open>intset\<close> is its size and, past the one declared element, as many as were asked for: a
  block of \<open>size + 1\<close> words.
\<close>

definition newset :: "malloc_answer \<Rightarrow> int \<Rightarrow> c_heap \<Rightarrow> c_fault + c_ptr \<times> c_heap" where
  "newset ans n h =
     (case malloc ans (nat (n + 1)) h of (p, h) \<Rightarrow>
        if p \<noteq> NULL
        then (case store_word p 0 n h of Inl e \<Rightarrow> Inl e | Inr h \<Rightarrow> Inr (p, h))
        else Inr (p, h))"

text \<open>The loops of \<open>intersect\<close>, which read the sizes again in every iteration.\<close>

definition size_of :: "c_ptr \<Rightarrow> c_heap \<Rightarrow> int" where
  "size_of p h = (case load_word p 0 h of Inl _ \<Rightarrow> 0 | Inr n \<Rightarrow> n)"

function inner_loop :: "c_heap \<Rightarrow> c_ptr \<Rightarrow> int \<Rightarrow> c_fault option" where
  "inner_loop h y j =
     (case load_word y 0 h of
        Inl e \<Rightarrow> Some e
      | Inr n \<Rightarrow> if j < n then inner_loop h y (j + 1) else None)"
  by pat_completeness auto
termination
  by (relation "measure (\<lambda>(h, y, j). nat (size_of y h - j))") (auto simp: size_of_def)

function outer_loop :: "c_heap \<Rightarrow> c_ptr \<Rightarrow> c_ptr \<Rightarrow> int \<Rightarrow> c_fault option" where
  "outer_loop h x y i =
     (case load_word x 0 h of
        Inl e \<Rightarrow> Some e
      | Inr n \<Rightarrow>
          if i < n then (case inner_loop h y 0 of Some e \<Rightarrow> Some e | None \<Rightarrow> outer_loop h x y (i + 1))
          else None)"
  by pat_completeness auto
termination
  by (relation "measure (\<lambda>(h, x, y, i). nat (size_of x h - i))") (auto simp: size_of_def)

declare inner_loop.simps [simp del] outer_loop.simps [simp del]

text \<open>
  \<open>intersect\<close> prints the two pointers and ends without a value; the caller ignores the value
  that it is declared to return.
\<close>

datatype c_output = PrintedPtrs c_ptr c_ptr | PrintedSets "int list" "int list"

definition intersect :: "c_ptr \<Rightarrow> c_ptr \<Rightarrow> c_heap \<Rightarrow> c_fault option \<times> c_output list" where
  "intersect x y h =
     (case outer_loop h x y 0 of Some e \<Rightarrow> (Some e, []) | None \<Rightarrow> (None, [PrintedPtrs x y]))"

text \<open>
  \<open>main\<close>; the verb \<open>%v\<close> follows a pointer to a struct and prints its fields, here the size and
  the one declared element.
\<close>

definition printed_set :: "c_ptr \<Rightarrow> c_heap \<Rightarrow> c_fault + int list" where
  "printed_set p h =
     (case load_word p 0 h of
        Inl e \<Rightarrow> Inl e
      | Inr n \<Rightarrow> (case load_word p 1 h of Inl e \<Rightarrow> Inl e | Inr x \<Rightarrow> Inr [n, x]))"

definition cgo_main :: "malloc_answer \<Rightarrow> malloc_answer \<Rightarrow> c_heap \<Rightarrow> c_fault option \<times> c_output list" where
  "cgo_main ans1 ans2 h =
     (case newset ans1 10 h of Inl e \<Rightarrow> (Some e, []) | Inr (s1, h) \<Rightarrow>
     (case newset ans2 5 h of Inl e \<Rightarrow> (Some e, []) | Inr (s2, h) \<Rightarrow>
     (case intersect s1 s2 h of
        (Some e, out) \<Rightarrow> (Some e, out)
      | (None, out) \<Rightarrow>
     (case c_free s1 h of Inl e \<Rightarrow> (Some e, out) | Inr h \<Rightarrow>
     (case c_free s2 h of Inl e \<Rightarrow> (Some e, out) | Inr h \<Rightarrow>
     (case printed_set s1 h of Inl e \<Rightarrow> (Some e, out) | Inr v1 \<Rightarrow>
     (case printed_set s2 h of Inl e \<Rightarrow> (Some e, out) | Inr v2 \<Rightarrow> (None, out @ [PrintedSets v1 v2]))))))))"

lemma newset_fresh:
  assumes "answer_ok ans h" and "0 \<le> n"
  shows "newset ans n h = (case ans of
      None \<Rightarrow> Inr (NULL, h)
    | Some (p, junk) \<Rightarrow> Inr (p, h(p \<mapsto> (map junk [0..<nat (n + 1)])[0 := n])))"
  using assms by (auto simp: newset_def heap_defs split: option.splits)

text \<open>The loops only read: with both sets in the heap they end.\<close>

lemma inner_loop_ends: "load_word y 0 h = Inr n \<Longrightarrow> inner_loop h y j = None"
  by (induction h y j rule: inner_loop.induct) (subst inner_loop.simps, simp)

lemma outer_loop_ends:
  "load_word x 0 h = Inr n \<Longrightarrow> load_word y 0 h = Inr m \<Longrightarrow> outer_loop h x y i = None"
  by (induction h x y i rule: outer_loop.induct) (subst outer_loop.simps, simp add: inner_loop_ends)

lemma outer_loop_null:
  "load_word x 0 h = Inl e \<Longrightarrow> outer_loop h x y i = Some e"
  "load_word x 0 h = Inr n \<Longrightarrow> i < n \<Longrightarrow> load_word y 0 h = Inl e \<Longrightarrow> outer_loop h x y i = Some e"
  by (subst outer_loop.simps, simp)+ (subst inner_loop.simps, simp)

text \<open>
  The program has no run that C defines: without memory it dereferences a null pointer in
  \<open>intersect\<close>, and with memory it prints the sets after it has freed them.
\<close>

lemma cgo_main_faults:
  assumes "answer_ok ans1 h" and "answer_ok ans2 (case ans1 of None \<Rightarrow> h | Some (p, _) \<Rightarrow> h(p \<mapsto> []))"
  shows "cgo_main ans1 ans2 h = (case (ans1, ans2) of
      (Some (p, _), Some (q, _)) \<Rightarrow> (Some UseAfterFree, [PrintedPtrs p q])
    | _ \<Rightarrow> (Some NullDereference, []))"
proof (cases ans1)
  case None
  have "load_word NULL 0 h' = Inl NullDereference" for h'
    by (simp add: heap_defs)
  then show ?thesis
    using assms None newset_fresh [OF assms(1), of 10] newset_fresh [of ans2 h 5]
    by (auto simp: cgo_main_def intersect_def outer_loop_null(1) split: option.splits)
next
  case (Some a)
  then obtain p junk where p: "ans1 = Some (p, junk)"
    by fastforce
  let ?h1 = "h(p \<mapsto> (map junk [0..<11])[0 := 10])"
  have s1: "newset ans1 10 h = Inr (p, ?h1)" "p \<noteq> NULL"
    using newset_fresh [OF assms(1), of 10] assms(1) p by (simp_all add: answer_ok_def)
  show ?thesis
  proof (cases ans2)
    case None
    have "load_word p 0 ?h1 = Inr 10" "load_word NULL 0 ?h1 = Inl NullDereference"
      using s1(2) by (simp_all add: heap_defs)
    then have "outer_loop ?h1 p NULL 0 = Some NullDereference"
      by (simp add: outer_loop_null(2))
    then show ?thesis
      using s1 newset_fresh [of None ?h1 5] None p by (simp add: cgo_main_def intersect_def answer_ok_def)
  next
    case (Some b)
    then obtain q junk' where q: "ans2 = Some (q, junk')"
      by fastforce
    let ?h2 = "?h1(q \<mapsto> (map junk' [0..<6])[0 := 5])"
    have fresh: "q \<noteq> NULL" "q \<noteq> p" "answer_ok ans2 ?h1"
      using assms(2) p q by (auto simp: answer_ok_def split: if_splits)
    have s2: "newset ans2 5 ?h1 = Inr (q, ?h2)"
      using newset_fresh [OF fresh(3), of 5] q by simp
    have "load_word p 0 ?h2 = Inr 10" "load_word q 0 ?h2 = Inr 5"
      using s1(2) fresh by (simp_all add: heap_defs)
    then have "outer_loop ?h2 p q 0 = None"
      by (rule outer_loop_ends)
    then show ?thesis
      using s1 s2 fresh p q by (simp add: cgo_main_def intersect_def c_free_def printed_set_def load_word_def block_def)
  qed
qed

section \<open>The memory sanitizer\<close>

text \<open>
  The sanitizer keeps for each word whether it was ever written; a word that was not is
  \<open>None\<close>. It reports a branch on such a word.
\<close>

type_synonym shadowed = "uint32 option"

datatype msan_end = MsanReport | Aborted | MsanFine "shadowed list" | MsanPanic | MsanCrash

text \<open>
  \<open>f\<close>: \<open>memcpy\<close> copies the state of the words with them, so all of \<open>p\<close> is unwritten then;
  without memory it reads from a null pointer.
\<close>

definition msan_f :: "bool \<Rightarrow> nat \<Rightarrow> shadowed list \<Rightarrow> shadowed list option" where
  "msan_f memory n p = (if memory then Some (replicate n None @ drop n p) else None)"

definition msan_g :: "shadowed list \<Rightarrow> msan_end" where
  "msan_g p =
     (case p ! 4 of
        None \<Rightarrow> MsanReport
      | Some v \<Rightarrow> if v \<noteq> 1 then Aborted else MsanFine p)"

definition msan_main :: "bool \<Rightarrow> msan_end" where
  "msan_main memory =
     (let a = replicate 10 (Some 0)
      in case msan_f memory (length a) a of
           None \<Rightarrow> MsanCrash
         | Some a \<Rightarrow> if 4 < length a then msan_g (a[4 := Some 1]) else MsanPanic)"

text \<open>Only the word that \<open>main\<close> writes itself is read, so there is no report and no abort.\<close>

lemma msan_main_fine:
  "\<exists>a. msan_main True = MsanFine a \<and> a ! 4 = Some 1 \<and> (\<forall>i < 10. i \<noteq> 4 \<longrightarrow> a ! i = None)"
  by (simp add: msan_main_def msan_f_def msan_g_def Let_def)

section \<open>Go bytes as a C string\<close>

text \<open>
  \<open>printf\<close> with \<open>%s\<close> reads from the pointer up to a zero byte. The memory is what starts at the
  pointer: the bytes of the slice, and then what follows them.
\<close>

definition c_string :: "char list \<Rightarrow> c_fault + string" where
  "c_string mem =
     (if CHR 0x00 \<in> set mem then Inr (takeWhile (\<lambda>c. c \<noteq> CHR 0x00) mem) else Inl OutOfBlock)"

definition myFunc :: "char list \<Rightarrow> c_fault + string" where
  "myFunc mem = (case c_string mem of Inl e \<Rightarrow> Inl e | Inr s \<Rightarrow> Inr (''Hello '' @ s @ ''!'' @ [CHR 0x0A]))"

definition myCharPtrFunc :: "char list \<Rightarrow> c_fault + string" where
  "myCharPtrFunc mem = (case c_string mem of Inl e \<Rightarrow> Inl e | Inr s \<Rightarrow> Inr (''Hello '' @ s @ ''!'' @ [CHR 0x0A]))"

definition protect_main :: "char list \<Rightarrow> char list \<Rightarrow> c_fault + string list" where
  "protect_main after1 after2 =
     (case myFunc (''world!'' @ after1) of Inl e \<Rightarrow> Inl e | Inr o1 \<Rightarrow>
     (case myCharPtrFunc (''world2!'' @ after2) of Inl e \<Rightarrow> Inl e | Inr o2 \<Rightarrow>
     (case myFunc (''world2!'' @ after2) of Inl e \<Rightarrow> Inl e | Inr o3 \<Rightarrow> Inr [o1, o2, o3])))"

text \<open>
  The program prints the three greetings exactly when zeros happen to follow both slices, which
  nothing in it ensures.
\<close>

lemma c_string_prefix:
  "CHR 0x00 \<notin> set s \<Longrightarrow> c_string (s @ after) = (case c_string after of Inl e \<Rightarrow> Inl e | Inr r \<Rightarrow> Inr (s @ r))"
  by (auto simp: c_string_def takeWhile_append)

lemma c_string_empty_iff: "c_string after = Inr [] \<longleftrightarrow> (\<exists>r. after = CHR 0x00 # r)"
  by (cases after) (auto simp: c_string_def)

lemma protect_main_prints:
  "protect_main after1 after2 =
     Inr [''Hello world!!'' @ [CHR 0x0A], ''Hello world2!!'' @ [CHR 0x0A], ''Hello world2!!'' @ [CHR 0x0A]] \<longleftrightarrow>
   (\<exists>r1 r2. after1 = CHR 0x00 # r1 \<and> after2 = CHR 0x00 # r2)"
proof -
  have "protect_main after1 after2 =
      Inr [''Hello world!!'' @ [CHR 0x0A], ''Hello world2!!'' @ [CHR 0x0A], ''Hello world2!!'' @ [CHR 0x0A]] \<longleftrightarrow>
    c_string after1 = Inr [] \<and> c_string after2 = Inr []"
    unfolding protect_main_def myFunc_def myCharPtrFunc_def
    by (subst (1 2 3) c_string_prefix) (auto split: sum.splits)
  then show ?thesis
    by (auto simp: c_string_empty_iff)
qed

end
