(* ===== verification/Spec2Isabelle.thy ===== *)
theory Spec2Isabelle
  imports Jojo_System Raft_Cluster Raft_Shutdown Dhcp_Cli Vanishling_Service Vanishling_Main Ldap_Form
    Ldap_Concurrent Kafka_Restarter Chown_Loader Dockerfile_Gen Vault_Import Hci_Beacon Tls_Handshake Pebble_Store
    Http_Clients Slices Bloom_Filter Leaky_Bucket Aes_Main Disk_Calc Atomic_Counter File_Copy
    Goroutine_Demos Small_Demos Cgo_Demos
begin

text \<open>
  A verification development for \<open>go-experiments\<close>, a collection of Go programs. The programs
  do not call each other; what they share is the language and its library, which the theory
  \<open>Go_Prelude\<close> models: machine integers as words, checked indexing, strings and their
  functions, decimal numbers, durations, float64 as a type with its operations, transition systems with the
  locales \<open>inductive_invariant\<close> (a property of every reachable state) and \<open>refinement\<close> (a
  simulation of one machine by another). All other theories import it.

  \<^bold>\<open>Jojo\<close>, a caching DNS proxy (\<open>src/jojo\<close>). A request is looked up in a cache, else queued in
  a ring for resolver threads, which ask a pool of upstream servers.
  \<^item> \<open>Jojo_Dns\<close>: cache keys, payload sizes and times to live of messages (\<open>getKey\<close>,
    \<open>getMaxPayloadSize\<close>, \<open>getMinTTL\<close>).
  \<^item> \<open>Jojo_Upstream\<close>: the pool, its choice of a server, failures, probes and resets. The lemmas
    show that the live list only has servers that are online, that a resolution never empties
    it, after how many failures a server leaves, and what a probe that runs beside a failure does.
  \<^item> \<open>Jojo_Ring\<close>: \<open>resolveViaResolverThreads\<close> and \<open>resolverThread\<close> as a machine, a resolution in
    one step per section under the lock of the pool. Each waiting request is held by exactly one
    party and can be answered; the machine refines the pool.
  \<^item> \<open>Jojo_Route\<close>: the handler \<open>route\<close> with everything it calls, the start of \<open>main\<close> and a round
    of \<open>vacuumThread\<close>. Answers are cached and replayed, sizes respected, queries not dropped twice.
  \<^item> \<open>Jojo_Cap\<close>: the capabilities of \<open>jojo_cap.go\<close>.
  \<^item> \<open>Jojo_System\<close>: the parts together. Handlers, split where they wait for a reply and between the
    accesses to shared data, run beside each other over one cache, one ring with its threads, one
    pool and the vacuum with its probe, itself in steps, from the state that \<open>main\<close> sets up.
    Everything a handler writes is a refusal, a local record, a truncation or what an upstream
    server answered to a request with the same key. The sockets of \<open>main\<close> are opened in order.

  \<^bold>\<open>Raft\<close>, a replicated key-value store (\<open>src/goraft-explore\<close>) over the consensus library of etcd.
  \<^item> \<open>Raft_KVStore\<close>: \<open>kvstore.go\<close>, with the contract \<open>kv_contract\<close> of a store. The store serves
    the committed log; a restart with a snapshot loses what was replayed.
  \<^item> \<open>Raft_Node\<close>: \<open>raft.go\<close>, which entries are applied, published, snapshotted and logged. Every
    committed entry is published exactly once, replicas agree, snapshots stay near the applied
    index and are logged before they are saved.
  \<^item> \<open>Raft_System\<close>: \<open>httpapi.go\<close>, \<open>listener.go\<close> and the wiring of \<open>main.go\<close>: a value put is the
    value got, and a restart serves the log.
  \<^item> \<open>Raft_Cluster\<close>: \<open>startRaft\<close>, \<open>serveChannels\<close>, \<open>serveHttpKVAPI\<close> and \<open>main\<close> as one program;
    the stores of all replicas serve prefixes of one history.
  \<^item> \<open>Raft_Shutdown\<close>: \<open>stop\<close>, \<open>stopHTTP\<close>, \<open>writeError\<close> and \<open>serveRaft\<close> as a machine over the
    channels: a shutdown ends, and no channel is closed twice.

  \<^bold>\<open>Vanishling\<close>, a file server whose files expire (\<open>src/vanishling\<close>). \<open>Vanishling\<close> has the file
  service, the journal, the cleaner, the routes and the start; \<open>Vanishling_Service\<close> shows that a
  file is served until it expires and not after, over any history with faults and restarts, that
  requests stay in the storage directory, and where files or times to live go wrong.
  \<open>Vanishling_Main\<close> adds the options and what the program does when its service could not be
  created, which its health check does not show.

  \<^bold>\<open>Other services and tools.\<close>
  \<^item> \<open>Dhcp_Handler\<close>: the DHCP server of \<open>src/opendhcpd\<close>; a lease belongs to one client, and an
    offer is honoured. \<open>Dhcp_Cli\<close> has its command line; the process in the background runs the
    server that was asked for.
  \<^item> \<open>Ldap_Passwd\<close>: the password change of \<open>src/ldap-explore\<close> as a sequence of calls to the
    directory; no password changes without authentication, and connections are closed but for
    one case. \<open>Ldap_Concurrent\<close> has the handler as a program of calls, shown to run as the function
    of \<open>Ldap_Passwd\<close> does, and any number of requests interleaved at their calls; each still changes
    a password only after its own authentication, and ends after at most twelve calls. \<open>Ldap_Form\<close> has the page as a tree of elements, what a browser sends for it, and
    \<open>main\<close>; the form fits the handler.
  \<^item> \<open>Kafka_Restarter\<close>: the polling loop of \<open>src/kafka-rolling-restarter\<close>, when it ends and when
    it restarts the service.
  \<^item> \<open>Chown_Trace\<close>: the kernel probes and the decoder of \<open>src/gobpf-explore\<close>, over interleavings;
    \<open>Chown_Loader\<close> loads and attaches them and prints the calls.
  \<^item> \<open>Dockerfile_Gen\<close>: \<open>src/dockerfile\<close>, whose output gives back the recorded build steps.
  \<^item> \<open>Vault_Import\<close>: \<open>src/vault-secrets\<close>, one secret per row.
  \<^item> \<open>Hci_Scan\<close>: \<open>src/hciscan\<close>, the map of devices and its sorted listing; \<open>Hci_Beacon\<close> has the
    watchers that every sighting starts, and how they accumulate.
  \<^item> \<open>Tls_Handshake\<close>: the server and client of \<open>src/tls-handshake-go\<close> and the version they
    negotiate; old versions wait.
  \<^item> \<open>Pebble_Store\<close>: the loops of \<open>src/pebble-foo\<close> in the state monad; what was set is printed.
  \<^item> \<open>Http_Clients\<close>: \<open>src/leakybucket-uber\<close>, \<open>src/backoff-exponential\<close>, \<open>src/cdoh\<close> and the test
    server of \<open>src/leakybucket\<close>; the rate of requests, and a backoff that success does not reset.

  \<^bold>\<open>Algorithms.\<close>
  \<^item> \<open>Slices\<close>: \<open>src/slice-delete\<close> and \<open>src/list-intersect/fast\<close>, the three removals behind the
    contracts \<open>removal\<close> and \<open>ordered_removal\<close>; the intersection is sound, and complete for the
    lists that its program makes.
  \<^item> \<open>Bloom_Filter\<close>: \<open>src/bloomfilter-explore\<close> with its hashes, behind \<open>membership_filter\<close>.
  \<^item> \<open>Leaky_Bucket\<close>: \<open>src/leakybucket\<close>, three goroutines as a machine, their rate, the debug
    output and the exit after a failed request.
  \<^item> \<open>Aes_Explore\<close>: \<open>src/aes-explore\<close>, padding and block loops; \<open>Aes_Main\<close>: base64 and what the
    program prints.
  \<^item> \<open>Disk_Calc\<close>: \<open>src/statfs-explore\<close>, the unit of a size.
  \<^item> \<open>Atomic_Counter\<close>: \<open>src/atomic-counters\<close>, two goroutines on one variable.
  \<^item> \<open>File_Copy\<close>: \<open>src/io-explore1\<close>, a copy to two writers under every fault.
  \<^item> \<open>Goroutine_Demos\<close>: \<open>src/recover-explore\<close>, \<open>src/timer-explorer\<close> and
    \<open>src/runtime-foo\<close> with its goroutine; the first two end as they mean to, the last runs on.
  \<^item> \<open>Small_Demos\<close>: \<open>src/interfaces-explore\<close>, \<open>src/sys-lock\<close>, \<open>src/allocate-mem\<close>, \<open>src/tracing\<close>,
    \<open>src/tracing2\<close>, \<open>src/dyn-dispatch\<close> and \<open>src/dlv-testing\<close>.
  \<^item> \<open>Cgo_Demos\<close>: \<open>src/cgo-list-intersect\<close>, \<open>src/msanfoo\<close> and \<open>src/cgo-explore\<close>, programs that call C.
    The first, over an explicit C heap, uses its sets after it has freed them; the second reads
    only memory that it has written; the third needs zeros that happen to follow its bytes.

  \<^bold>\<open>How code is modelled.\<close> Definitions keep the names of the source. A struct is a record, a
  method a function on it, an error a value, a panic or fatal log entry a value of its own. Code
  that is not in the repository is an argument: a record of functions, or a world that the
  calls change, with what the properties rely on as hypotheses (\<open>lib_ok\<close> in \<open>Vanishling\<close> says
  that dates and durations are read back as written and that a hash is not empty). What the
  environment decides (faults, clock readings, arrival of events, map order) is an argument
  too, and the properties hold for all its values unless they say otherwise. Each hypothesis is
  met by a concrete run in the theorem with the suffix \<open>_witness\<close>.

  \<^bold>\<open>Bounds.\<close> No loop needs fuel: a loop over data recurs on it, the replacement of strings
  has a measure, and a loop that can run forever (\<open>serve_loop\<close>, \<open>main_loop\<close>, \<open>scan_loop\<close>, the
  histories of Vanishling, the loops of \<open>Http_Clients\<close>) runs over the finite list of the events
  it has received so far, or is a step relation with unbounded runs. The loop of \<open>runtime-foo\<close>
  is a partial function, and shown to return or to panic at once. Times are unbounded integers
  of nanoseconds.

  \<^bold>\<open>Not modelled.\<close> Log lines that no property speaks of, sleeping, and the settings of HTTP
  clients and servers (timeouts, pools), which only the library reads. Parsers of options are
  arguments, as are the libraries: of the raft node the consensus, its transport and the files
  of the write-ahead log (etcd), of the proxy the ARC cache and the packing of messages, the
  Bluetooth, Docker, LDAP, Vault, Prometheus and Pebble clients, the cryptographic primitives
  behind AES and TLS, and the vendored allocator of \<open>allocate-mem\<close>. The requests
  of \<open>Ldap_Form\<close> are served one after the other. What C leaves undefined in
  \<open>cgo-list-intersect\<close>, \<open>msanfoo\<close> and \<open>cgo-explore\<close> ends the run of the model with a fault.
\<close>

end
